(* ===== verification/Prelude.thy ===== *)
theory Prelude
  imports Main "HOL-Library.Word"
begin

text \<open>
  Shared vocabulary of the development: bytes and byte strings of the Go program, big-endian
  integers (package \<open>encoding/binary\<close>), slices, and the fact collections the component theories
  feed and use.

  A Go \<open>[]byte\<close> is a \<open>byte list\<close>, a Go \<open>string\<close> is a HOL \<open>string\<close> whose characters are the bytes of
  the string. Slice expressions \<open>b[i:j]\<close> are \<open>gslice i j b\<close>; every use in the models is guarded by the
  bound checks the code makes, so the run-time panics of Go are never reached by a modelled path.
  The machine is the 64-bit one the package is built for (amd64 and arm64): \<open>int\<close> has 64 bits.
\<close>

named_theorems codec_simps \<open>equations that evaluate encoders and decoders on symbolic input\<close>
named_theorems len_simps \<open>lengths of encodings\<close>
named_theorems keep_simps \<open>components of a state that an operation does not write\<close>

type_synonym byte = "8 word"
type_synonym bytes = "byte list"
type_synonym u64 = "64 word"

definition gslice :: "nat \<Rightarrow> nat \<Rightarrow> 'a list \<Rightarrow> 'a list" where
  "gslice i j b = take (j - i) (drop i b)"

lemma length_gslice [simp]: "length (gslice i j b) = min (j - i) (length b - i)"
  by (simp add: gslice_def)

lemma gslice_0 [simp]: "gslice 0 j b = take j b"
  by (simp add: gslice_def)

lemma gslice_split: "i \<le> j \<Longrightarrow> take i b @ gslice i j b @ drop j b = b"
  by (metis add_diff_inverse_nat append.assoc append_take_drop_id linorder_not_le gslice_def take_add)

lemma gslice_append_exact:
  "i = length a \<Longrightarrow> j = length a + length m \<Longrightarrow> gslice i j (a @ m @ c) = m"
  by (simp add: gslice_def)

section \<open>Big-endian integers\<close>

definition be16 :: "byte \<Rightarrow> byte \<Rightarrow> nat" where
  "be16 hi lo = 256 * unat hi + unat lo"

definition be24 :: "byte \<Rightarrow> byte \<Rightarrow> byte \<Rightarrow> nat" where
  "be24 a b c = 65536 * unat a + 256 * unat b + unat c"

definition be32 :: "byte \<Rightarrow> byte \<Rightarrow> byte \<Rightarrow> byte \<Rightarrow> nat" where
  "be32 a b c d = 16777216 * unat a + 65536 * unat b + 256 * unat c + unat d"

text \<open>\<open>binary.BigEndian.Uint16(b[i:])\<close> and \<open>Uint32\<close> at an index the caller has checked.\<close>

definition be16_at :: "bytes \<Rightarrow> nat \<Rightarrow> nat" where
  "be16_at b i = be16 (b ! i) (b ! (i + 1))"

definition be32_at :: "bytes \<Rightarrow> nat \<Rightarrow> nat" where
  "be32_at b i = be32 (b ! i) (b ! (i + 1)) (b ! (i + 2)) (b ! (i + 3))"

text \<open>\<open>byte(n >> 8), byte(n)\<close> and \<open>binary.BigEndian.PutUint32\<close>: both drop the bits above their width.\<close>

definition put16 :: "nat \<Rightarrow> bytes" where
  "put16 n = [word_of_nat (n div 256), word_of_nat n]"

definition put32 :: "nat \<Rightarrow> bytes" where
  "put32 n = [word_of_nat (n div 16777216), word_of_nat (n div 65536),
              word_of_nat (n div 256), word_of_nat n]"

lemma length_put16 [simp, len_simps]: "length (put16 n) = 2"
  by (simp add: put16_def)

lemma length_put32 [simp, len_simps]: "length (put32 n) = 4"
  by (simp add: put32_def)

lemma unat_byte_of_nat [simp]: "unat (word_of_nat n :: byte) = n mod 256"
  by (simp add: unat_of_nat)

lemma byte_less: "unat (b :: byte) < 256"
  using unsigned_less [of b] by simp

lemma be16_less: "be16 hi lo < 65536"
  using byte_less [of hi] byte_less [of lo] by (simp add: be16_def)

lemma be32_less: "be32 a b c d < 4294967296"
  using byte_less [of a] byte_less [of b] byte_less [of c] byte_less [of d]
  by (simp add: be32_def)

lemma be16_put16: "n < 65536 \<Longrightarrow> be16 (put16 n ! 0) (put16 n ! 1) = n"
  by (simp add: be16_def put16_def less_mult_imp_div_less)

lemma be32_put32:
  assumes "n < 4294967296"
  shows "be32 (put32 n ! 0) (put32 n ! 1) (put32 n ! 2) (put32 n ! 3) = n"
proof -
  define q1 where "q1 = n div 256"
  define q2 where "q2 = q1 div 256"
  define q3 where "q3 = q2 div 256"
  have q: "n div 65536 = q2" "n div 16777216 = q3"
    by (simp_all add: q1_def q2_def q3_def div_mult2_eq [symmetric])
  have "q3 < 256"
    using assms by (simp add: q(2) [symmetric] less_mult_imp_div_less)
  then have "be32 (put32 n ! 0) (put32 n ! 1) (put32 n ! 2) (put32 n ! 3) =
      16777216 * q3 + 65536 * (q2 mod 256) + 256 * (q1 mod 256) + n mod 256"
    by (simp add: be32_def put32_def q q1_def)
  moreover have "256 * q3 + q2 mod 256 = q2" "256 * q2 + q1 mod 256 = q1" "256 * q1 + n mod 256 = n"
    by (simp_all add: q1_def q2_def q3_def)
  ultimately show ?thesis by linarith
qed

lemma byte_of_nat_eq: "n mod 256 = unat y \<Longrightarrow> word_of_nat n = (y :: byte)"
  by (simp add: word_unat_eq_iff)

lemma put16_be16: "put16 (be16 x y) = [x, y]"
proof -
  have "word_of_nat ((256 * unat x + unat y) div 256) = x"
    using byte_less [of x] byte_less [of y] by (intro byte_of_nat_eq) simp
  moreover have "word_of_nat (256 * unat x + unat y) = y"
    using byte_less [of y] by (intro byte_of_nat_eq) simp
  ultimately show ?thesis by (simp only: put16_def be16_def)
qed

lemma put32_be32: "put32 (be32 a b c d) = [a, b, c, d]"
proof -
  define q2 where "q2 = 256 * unat a + unat b"
  define q1 where "q1 = 256 * q2 + unat c"
  have n: "be32 a b c d = 256 * q1 + unat d" by (simp add: be32_def q1_def q2_def)
  have 1: "be32 a b c d div 256 = q1" "be32 a b c d mod 256 = unat d"
    using byte_less [of d] by (simp_all add: n)
  have 2: "q1 div 256 = q2" "q1 mod 256 = unat c" using byte_less [of c] by (simp_all add: q1_def)
  have 3: "q2 div 256 = unat a" "q2 mod 256 = unat b" using byte_less [of b] by (simp_all add: q2_def)
  have 4: "be32 a b c d div 65536 = be32 a b c d div 256 div 256"
    "be32 a b c d div 16777216 = be32 a b c d div 256 div 256 div 256"
    by (simp_all add: div_mult2_eq [symmetric])
  have "word_of_nat (be32 a b c d div 16777216) = a" "word_of_nat (be32 a b c d div 65536) = b"
    "word_of_nat (be32 a b c d div 256) = c" "word_of_nat (be32 a b c d) = d"
    using byte_less [of a] by (intro byte_of_nat_eq; simp add: 1 2 3 4)+
  then show ?thesis by (simp only: put32_def)
qed

text \<open>A two-byte length read at the position where \<open>put16\<close> wrote it.\<close>

lemma nth_mid:
  "i < length m \<Longrightarrow> (a @ m @ c) ! (length a + i) = m ! i"
  by (simp add: nth_append)

lemma be16_at_put16:
  "i = length a \<Longrightarrow> n < 65536 \<Longrightarrow> be16_at (a @ put16 n @ c) i = n"
  using nth_mid [of 0 "put16 n" a c] nth_mid [of 1 "put16 n" a c] be16_put16 [of n]
  by (simp add: be16_at_def)

lemma be32_at_put32:
  "i = length a \<Longrightarrow> n < 4294967296 \<Longrightarrow> be32_at (a @ put32 n @ c) i = n"
  using nth_mid [of 0 "put32 n" a c] nth_mid [of 1 "put32 n" a c]
    nth_mid [of 2 "put32 n" a c] nth_mid [of 3 "put32 n" a c] be32_put32 [of n]
  by (simp add: be32_at_def)

section \<open>Lists and options\<close>

lemma concat_map_id_cong:
  "(\<And>x. x \<in> set xs \<Longrightarrow> f x = g x) \<Longrightarrow> concat (map f xs) = concat (map g xs)"
  by (metis map_eq_conv)

lemma concat_map_concat:
  "concat (map f (concat xss)) = concat (map (\<lambda>xs. concat (map f xs)) xss)"
  by (induction xss) simp_all

lemma foldl_append: "foldl (\<lambda>out n. out @ g n) out ns = out @ concat (map g ns)"
  by (induction ns arbitrary: out) simp_all

lemma append_eq_take_drop: "xs = a @ b \<Longrightarrow> a = take (length a) xs \<and> b = drop (length a) xs"
  by simp

end
