(* ===== verification/Varint.thy ===== *)
theory Varint
  imports Prelude
begin

unbundle bit_operations_syntax

text \<open>
  Base-128 varints of \<open>internal/provider/applewloc/wloc.go\<close>: \<open>readVarint\<close>, \<open>encVarint\<close> (the
  library's \<open>binary.PutUvarint\<close>), \<open>key\<close> and \<open>i64\<close>, and the interface of a prefix decoder that the
  field parser shares.

  Integers keep their Go widths: a \<open>uint64\<close> is a \<open>64 word\<close>, and an \<open>int64\<close> is the same \<open>64 word\<close>
  read by \<open>sint\<close>, so that the conversion \<open>uint64(v)\<close> is the identity on bits.
\<close>

section \<open>Errors of the package\<close>

text \<open>
  Every error value the package returns. The first group wraps \<open>ErrMalformed\<close>; \<open>NestingDepth\<close>,
  \<open>BodyLimit\<close> and \<open>PayloadLimit\<close> carry their own text in front of it. The last group is what
  \<open>Profile.Validate\<close> returns, which wraps no package error.
\<close>

datatype wloc_error =
    Malformed | NestingDepth | BodyLimit | PayloadLimit
  | Ambiguous
  | Unsupported
  | NonFinite | CoordinateRange | AccuracyRange | RadiusRange

fun is_ErrMalformed :: "wloc_error \<Rightarrow> bool" where
  "is_ErrMalformed e = (e \<in> {Malformed, NestingDepth, BodyLimit, PayloadLimit})"

fun is_ErrAmbiguous :: "wloc_error \<Rightarrow> bool" where
  "is_ErrAmbiguous e = (e = Ambiguous)"

fun is_ErrUnsupported :: "wloc_error \<Rightarrow> bool" where
  "is_ErrUnsupported e = (e = Unsupported)"

section \<open>The code\<close>

fun read_varint_loop :: "nat \<Rightarrow> u64 \<Rightarrow> bytes \<Rightarrow> wloc_error + u64 \<times> nat" where
  "read_varint_loop i v [] = Inl Malformed"
| "read_varint_loop i v (c # cs) =
     (if i = 10 \<or> (i = 9 \<and> c > 1) then Inl Malformed
      else let v' = v OR push_bit (7 * i) (ucast (c AND 127))
           in if c < 128 then Inr (v', i + 1) else read_varint_loop (i + 1) v' cs)"

definition readVarint :: "bytes \<Rightarrow> wloc_error + u64 \<times> nat" where
  "readVarint b = read_varint_loop 0 0 b"

lemma unat_drop7: "unat (drop_bit 7 (v :: u64)) = unat v div 128"
  by (simp add: drop_bit_eq_div unat_div)

function encVarint :: "u64 \<Rightarrow> bytes" where
  "encVarint v =
     (if v \<ge> 128 then (ucast v OR 128) # encVarint (drop_bit 7 v) else [ucast v])"
  by pat_completeness auto
termination
proof (relation "measure unat")
  fix v :: u64
  assume "128 \<le> v"
  then have "128 \<le> unat v" by (simp add: word_le_nat_alt)
  then show "(drop_bit 7 v, v) \<in> measure unat"
    by (simp only: in_measure unat_drop7)
qed simp

declare encVarint.simps [simp del]

definition key :: "32 word \<Rightarrow> byte \<Rightarrow> bytes" where
  "key n w = encVarint (push_bit 3 (ucast n) OR ucast w)"

definition i64 :: "64 word \<Rightarrow> bytes" where
  "i64 v = encVarint v"

section \<open>Groups of seven bits\<close>

lemma and127: "(x :: 'a::len word) AND 127 = take_bit 7 x"
  by (simp add: take_bit_eq_mask mask_eq_exp_minus_1)

lemma low_group: "ucast ((ucast x OR 128 :: byte) AND 127) = take_bit 7 (x :: u64)"
  by (rule bit_word_eqI) (auto simp: bit_simps and127)

lemma groups_join: "take_bit 7 x OR push_bit 7 (drop_bit 7 x) = (x :: u64)"
  by (rule bit_word_eqI, auto simp: bit_simps, metis le_add_diff_inverse not_less)

lemma groups_join_at:
  "(acc OR push_bit k (take_bit 7 x)) OR push_bit (k + 7) (drop_bit 7 x) =
   acc OR push_bit k (x :: u64)"
proof -
  have "push_bit (k + 7) (drop_bit 7 x) = push_bit k (push_bit 7 (drop_bit 7 x))"
    by simp
  then have "(acc OR push_bit k (take_bit 7 x)) OR push_bit (k + 7) (drop_bit 7 x) =
      acc OR push_bit k (take_bit 7 x OR push_bit 7 (drop_bit 7 x))"
    by (simp only: or.assoc push_bit_or)
  then show ?thesis by (simp only: groups_join)
qed

lemma last_group: "x < (128 :: u64) \<Longrightarrow> ucast ((ucast x :: byte) AND 127) = x"
proof -
  assume "x < (128 :: u64)"
  then have "take_bit 7 x = x"
    by (simp add: take_bit_eq_mod word_less_nat_alt word_arith_nat_mod)
  moreover have "ucast ((ucast x :: byte) AND 127) = take_bit 7 x"
    by (rule bit_word_eqI) (auto simp: bit_simps and127)
  ultimately show ?thesis by simp
qed

lemma continuation_byte: "\<not> (ucast (x :: u64) OR 128 :: byte) < 128"
proof -
  have "(128 :: int) \<le> 128 OR uint (ucast x :: byte)"
    by (rule or_greater_eq) simp
  then show ?thesis
    by (simp add: word_less_def not_less unsigned_or_eq or.commute)
qed

lemma ucast_byte_less: "x < 128 \<Longrightarrow> (ucast (x :: u64) :: byte) < 128"
  by (simp add: unat_arith_simps unsigned_ucast_eq take_bit_nat_eq_self)

lemma ucast_byte_le1: "x < 2 \<Longrightarrow> (ucast (x :: u64) :: byte) \<le> 1"
  by (simp add: unat_arith_simps unsigned_ucast_eq take_bit_nat_eq_self)

section \<open>Decoding what was encoded\<close>

lemma read_varint_loop_encVarint:
  "i \<le> 9 \<Longrightarrow> unat x < 2 ^ (64 - 7 * i) \<Longrightarrow>
   read_varint_loop i acc (encVarint x @ r) =
     Inr (acc OR push_bit (7 * i) x, i + length (encVarint x))"
proof (induction x arbitrary: i acc rule: encVarint.induct)
  case (1 x)
  show ?case
  proof (cases "128 \<le> x")
    case False
    then have small: "x < 128" by simp
    have one: "(ucast x :: byte) \<le> 1" if "i = 9"
      using "1.prems" that by (intro ucast_byte_le1) (simp add: word_less_nat_alt)
    have "encVarint x = [ucast x]"
      using False by (subst encVarint.simps) simp
    then show ?thesis
      using "1.prems" one last_group [OF small] ucast_byte_less [OF small]
      by (auto simp: Let_def not_less)
  next
    case True
    then have ge: "128 \<le> unat x" by (simp add: word_le_nat_alt)
    have "i \<noteq> 9" using "1.prems" ge by auto
    with "1.prems" have i: "i \<le> 8" by simp
    have "64 - 7 * i = (64 - 7 * (i + 1)) + 7" using i by simp
    then have "unat x < 2 ^ (64 - 7 * (i + 1)) * 128"
      using "1.prems"(2) by (simp add: power_add del: mult_Suc_right)
    then have lt: "unat (drop_bit 7 x) < 2 ^ (64 - 7 * (i + 1))"
      by (simp only: unat_drop7 less_mult_imp_div_less)
    have enc: "encVarint x = (ucast x OR 128) # encVarint (drop_bit 7 x)"
      using True by (subst encVarint.simps) simp
    let ?acc = "acc OR push_bit (7 * i) (ucast ((ucast x OR 128 :: byte) AND 127))"
    have acc: "?acc OR push_bit (7 * (i + 1)) (drop_bit 7 x) = acc OR push_bit (7 * i) x"
      using groups_join_at [of acc "7 * i" x] by (simp only: low_group) (simp add: add.commute)
    have "read_varint_loop (i + 1) ?acc (encVarint (drop_bit 7 x) @ r) =
        Inr (acc OR push_bit (7 * i) x, i + 1 + length (encVarint (drop_bit 7 x)))"
      using "1.IH" [OF True, of "i + 1" ?acc] i lt by (simp only: acc)
    then show ?thesis
      using i continuation_byte [of x] by (simp add: enc Let_def del: read_varint_loop.simps(1))
  qed
qed

lemma readVarint_encVarint [codec_simps]:
  "readVarint (encVarint v @ r) = Inr (v, length (encVarint v))"
proof -
  have "unat v < 2 ^ 64" using unsigned_less [of v] by simp
  then show ?thesis
    by (simp add: readVarint_def read_varint_loop_encVarint)
qed

lemma encVarint_nonempty [simp]: "encVarint v \<noteq> []"
  by (subst encVarint.simps) simp

lemma length_encVarint_pos: "0 < length (encVarint v)"
  by simp

section \<open>What a successful read consumes\<close>

lemma read_varint_loop_bounds:
  "read_varint_loop i acc b = Inr (v, n) \<Longrightarrow> i < n \<and> n \<le> i + length b \<and> (i \<le> 10 \<longrightarrow> n \<le> 10)"
proof (induction i acc b rule: read_varint_loop.induct)
  case (2 i acc c cs)
  show ?case
  proof (cases "c < 128")
    case True
    with "2.prems" show ?thesis by (auto simp: Let_def split: if_splits)
  next
    case False
    with "2.prems" have "i \<noteq> 10" and
      "read_varint_loop (i + 1) (acc OR push_bit (7 * i) (ucast (c AND 127))) cs = Inr (v, n)"
      by (auto simp: Let_def split: if_splits)
    with False "2.prems" "2.IH" show ?thesis by (fastforce simp: Let_def split: if_splits)
  qed
qed simp

lemma read_varint_loop_prefix:
  "read_varint_loop i acc b = Inr (v, n) \<Longrightarrow>
   read_varint_loop i acc (take (n - i) b @ s) = Inr (v, n)"
proof (induction i acc b rule: read_varint_loop.induct)
  case (2 i acc c cs)
  from read_varint_loop_bounds [OF "2.prems"] obtain m where m: "n - i = Suc m"
    by (metis Suc_diff_Suc)
  have m': "n - (i + 1) = m" using m by simp
  show ?case
  proof (cases "c < 128")
    case True
    with "2.prems" m show ?thesis by (auto simp: Let_def split: if_splits)
  next
    case False
    with "2.prems" "2.IH" m m' show ?thesis by (auto simp: Let_def split: if_splits)
  qed
qed simp

lemma readVarint_bounds:
  "readVarint b = Inr (v, n) \<Longrightarrow> 0 < n \<and> n \<le> length b \<and> n \<le> 10"
  using read_varint_loop_bounds [of 0 0 b v n] by (simp add: readVarint_def)

lemma readVarint_prefix:
  "readVarint b = Inr (v, n) \<Longrightarrow> readVarint (take n b @ s) = Inr (v, n)"
  using read_varint_loop_prefix [of 0 0 b v n s] by (simp add: readVarint_def)

lemma length_encVarint_le: "length (encVarint v) \<le> 10"
  using readVarint_bounds [of "encVarint v"] readVarint_encVarint [of v "[]"] by simp

section \<open>The interface of a decoder that consumes a prefix\<close>

text \<open>
  A decoder reads one item off the front of its input and returns the rest. \<open>prefix_decoder\<close>: what
  it read is non-empty and is all it looked at. \<open>prefix_codec\<close>: an encoder whose output it inverts.
  \<open>lossless_codec\<close>: the encoder gives back the very bytes that were read.
\<close>

locale prefix_decoder =
  fixes dec :: "bytes \<Rightarrow> 'e + 'a \<times> bytes"
  assumes consumes: "dec b = Inr (a, r) \<Longrightarrow>
    \<exists>c. c \<noteq> [] \<and> b = c @ r \<and> (\<forall>s. dec (c @ s) = Inr (a, s))"
begin

lemma rest_shorter: "dec b = Inr (a, r) \<Longrightarrow> length r < length b"
  by (auto dest!: consumes)

lemma rest_suffix: "dec b = Inr (a, r) \<Longrightarrow> r = drop (length b - length r) b"
  by (auto dest!: consumes)

lemma append_input: "dec b = Inr (a, r) \<Longrightarrow> dec (b @ s) = Inr (a, r @ s)"
  by (auto dest!: consumes)

end

locale prefix_codec = prefix_decoder dec
  for dec :: "bytes \<Rightarrow> 'e + 'a \<times> bytes" +
  fixes enc :: "'a \<Rightarrow> bytes" and ok :: "'a \<Rightarrow> bool"
  assumes dec_enc: "ok a \<Longrightarrow> dec (enc a @ r) = Inr (a, r)"
begin

lemma enc_nonempty: "ok a \<Longrightarrow> enc a \<noteq> []"
  using rest_shorter [OF dec_enc [of a "[]"]] by auto

lemma enc_unique: "ok a \<Longrightarrow> ok b \<Longrightarrow> enc a @ r = enc b @ s \<Longrightarrow> a = b \<and> r = s"
  by (metis dec_enc Pair_inject sum.inject(2))

lemma concat_unique:
  "list_all ok xs \<Longrightarrow> list_all ok ys \<Longrightarrow>
   concat (map enc xs) = concat (map enc ys) \<Longrightarrow> xs = ys"
proof (induction xs arbitrary: ys)
  case Nil
  then show ?case by (cases ys) (auto simp: enc_nonempty)
next
  case (Cons x xs)
  then obtain y zs where ys: "ys = y # zs"
    by (cases ys) (auto simp: enc_nonempty)
  with Cons.prems have "x = y \<and> concat (map enc xs) = concat (map enc zs)"
    by (intro enc_unique) auto
  with Cons ys show ?case by auto
qed

lemma length_le_concat: "list_all ok xs \<Longrightarrow> length xs \<le> length (concat (map enc xs))"
proof (induction xs)
  case (Cons x xs)
  then have "Suc 0 \<le> length (enc x)" using enc_nonempty [of x] by (simp add: Suc_le_eq)
  with Cons show ?case by simp
qed simp

end

locale lossless_codec = prefix_codec dec enc ok
  for dec :: "bytes \<Rightarrow> 'e + 'a \<times> bytes" and enc :: "'a \<Rightarrow> bytes" and ok :: "'a \<Rightarrow> bool" +
  assumes dec_sound: "dec b = Inr (a, r) \<Longrightarrow> ok a \<and> b = enc a @ r"
begin

lemma dec_iff: "dec b = Inr (a, r) \<longleftrightarrow> ok a \<and> b = enc a @ r"
  using dec_sound dec_enc by blast

end

section \<open>Varints are a prefix code\<close>

definition read_varint_rest :: "bytes \<Rightarrow> wloc_error + u64 \<times> bytes" where
  "read_varint_rest b = (case readVarint b of Inl e \<Rightarrow> Inl e | Inr (v, n) \<Rightarrow> Inr (v, drop n b))"

interpretation varint: prefix_codec read_varint_rest encVarint "\<lambda>_. True"
proof
  fix b v r
  assume "read_varint_rest b = Inr (v, r)"
  then obtain n where n: "readVarint b = Inr (v, n)" and r: "r = drop n b"
    by (auto simp: read_varint_rest_def split: sum.splits prod.splits)
  have "0 < n" "n \<le> length b" using readVarint_bounds [OF n] by auto
  then show "\<exists>c. c \<noteq> [] \<and> b = c @ r \<and> (\<forall>s. read_varint_rest (c @ s) = Inr (v, s))"
    using readVarint_prefix [OF n] r
    by (intro exI [of _ "take n b"]) (auto simp: read_varint_rest_def)
next
  fix v r
  show "read_varint_rest (encVarint v @ r) = Inr (v, r)"
    by (simp add: read_varint_rest_def codec_simps)
qed

end
