(* ===== verification/Wire.thy ===== *)
theory Wire
  imports Varint
begin

unbundle bit_operations_syntax

text \<open>
  The protobuf field parser \<open>parse\<close> of \<open>internal/provider/applewloc/wloc.go\<close>. The Go loop walks an
  index \<open>i\<close> over \<open>b\<close>; the model passes the remaining input \<open>b[i:]\<close> instead, so one iteration is
  \<open>parse_field\<close> and the loop is \<open>parse_fields\<close>, whose first argument is \<open>len(fs)\<close> so far.

  The main facts: the parser is lossless (\<open>parse_iff\<close>: it accepts exactly the concatenations of at
  most \<open>maxFields\<close> well-formed fields, and returns those fields), so a message that is edited field
  by field parses again, with the untouched fields byte for byte in place.
\<close>

record field =
  num :: "32 word"
  wire :: byte
  raw :: bytes
  "value" :: bytes

definition maxMessage :: nat where "maxMessage = 4 * 1048576"
definition maxFields :: nat where "maxFields = 10000"
definition maxDepth :: nat where "maxDepth = 8"

section \<open>The code\<close>

text \<open>
  The \<open>switch wire\<close> of the loop on the input \<open>r\<close> after the key: how many bytes precede the value
  (the length prefix of wire type 2) and how long the value is.
\<close>

definition parse_value :: "byte \<Rightarrow> bytes \<Rightarrow> wloc_error + nat \<times> nat" where
  "parse_value w r =
     (if w = 0 then (case readVarint r of Inl e \<Rightarrow> Inl e | Inr (_, n) \<Rightarrow> Inr (0, n))
      else if w = 1 then (if length r < 8 then Inl Malformed else Inr (0, 8))
      else if w = 2 then
        (case readVarint r of
           Inl _ \<Rightarrow> Inl Malformed
         | Inr (l, n) \<Rightarrow> if unat l > length r - n then Inl Malformed else Inr (n, unat l))
      else if w = 5 then (if length r < 4 then Inl Malformed else Inr (0, 4))
      else Inl Malformed)"

definition parse_field :: "bytes \<Rightarrow> wloc_error + field \<times> bytes" where
  "parse_field r =
     (case readVarint r of
        Inl e \<Rightarrow> Inl e
      | Inr (k, n) \<Rightarrow>
          let fnum = (ucast (drop_bit 3 k) :: 32 word); fwire = (ucast (k AND 7) :: byte) in
          if fnum = 0 \<or> fnum \<ge> 536870912 \<or> fwire = 3 \<or> fwire = 4 then Inl Malformed
          else case parse_value fwire (drop n r) of
            Inl e \<Rightarrow> Inl e
          | Inr (h, l) \<Rightarrow>
              Inr (\<lparr>num = fnum, wire = fwire, raw = take (n + h + l) r,
                    value = take l (drop (n + h) r)\<rparr>, drop (n + h + l) r))"

lemma parse_value_bounds:
  "parse_value w r = Inr (h, l) \<Longrightarrow> h + l \<le> length r"
  by (auto simp: parse_value_def dest!: readVarint_bounds split: if_splits sum.splits)

lemma parse_value_prefix:
  "parse_value w r = Inr (h, l) \<Longrightarrow> parse_value w (take (h + l) r @ s) = Inr (h, l)"
proof -
  assume p: "parse_value w r = Inr (h, l)"
  consider (var) "w = 0" | (f8) "w = 1" | (len) "w = 2" | (f4) "w = 5"
    using p by (auto simp: parse_value_def split: if_splits)
  then show ?thesis
  proof cases
    case var
    then show ?thesis
      using p readVarint_prefix [of r _ l s] by (auto simp: parse_value_def split: sum.splits)
  next
    case len
    with p obtain v where v: "readVarint r = Inr (v, h)" "l = unat v" "l \<le> length r - h"
      by (auto simp: parse_value_def split: sum.splits if_splits)
    have "take (h + l) r @ s = take h r @ (take l (drop h r) @ s)"
      by (simp add: take_add)
    then have "readVarint (take (h + l) r @ s) = Inr (v, h)"
      using readVarint_prefix [OF v(1)] by simp
    with len v readVarint_bounds [OF v(1)] show ?thesis
      by (auto simp: parse_value_def)
  qed (use p in \<open>auto simp: parse_value_def split: if_splits\<close>)
qed

lemma parse_fieldE:
  assumes "parse_field r = Inr (f, r')"
  obtains k n h l where "readVarint r = Inr (k, n)"
    and "(ucast (drop_bit 3 k) :: 32 word) \<noteq> 0" and "(ucast (drop_bit 3 k) :: 32 word) < 536870912"
    and "(ucast (k AND 7) :: byte) \<noteq> 3" and "(ucast (k AND 7) :: byte) \<noteq> 4"
    and "parse_value (ucast (k AND 7)) (drop n r) = Inr (h, l)"
    and "f = \<lparr>num = ucast (drop_bit 3 k), wire = ucast (k AND 7), raw = take (n + h + l) r,
                 value = take l (drop (n + h) r)\<rparr>"
    and "r' = drop (n + h + l) r"
  using assms unfolding parse_field_def
  by (auto simp: Let_def not_le split: sum.splits if_splits)

lemma parse_field_consumes:
  assumes "parse_field r = Inr (f, r')"
  shows "raw f \<noteq> []" and "r = raw f @ r'" and "parse_field (raw f @ s) = Inr (f, s)"
proof -
  from assms obtain k n h l where k: "readVarint r = Inr (k, n)"
    and ok: "(ucast (drop_bit 3 k) :: 32 word) \<noteq> 0" "(ucast (drop_bit 3 k) :: 32 word) < 536870912"
      "(ucast (k AND 7) :: byte) \<noteq> 3" "(ucast (k AND 7) :: byte) \<noteq> 4"
    and v: "parse_value (ucast (k AND 7)) (drop n r) = Inr (h, l)"
    and f: "f = \<lparr>num = ucast (drop_bit 3 k), wire = ucast (k AND 7), raw = take (n + h + l) r,
                 value = take l (drop (n + h) r)\<rparr>"
    and r': "r' = drop (n + h + l) r"
    by (rule parse_fieldE)
  have n: "0 < n" "n \<le> length r" using readVarint_bounds [OF k] by auto
  have hl: "n + h + l \<le> length r" using parse_value_bounds [OF v] n by simp
  show "raw f \<noteq> []" using n hl by (auto simp: f)
  show "r = raw f @ r'" by (simp add: f r')
  have app: "take (n + h + l) r @ s = take n r @ (take (h + l) (drop n r) @ s)"
    by (simp add: take_add add.assoc)
  have "readVarint (take (n + h + l) r @ s) = Inr (k, n)"
    using readVarint_prefix [OF k] by (simp only: app)
  moreover have "parse_value (ucast (k AND 7)) (drop n (take (n + h + l) r @ s)) = Inr (h, l)"
    using parse_value_prefix [OF v, of s] n by (simp add: app)
  moreover have "take l (drop (n + h) (take (n + h + l) r @ s)) = take l (drop (n + h) r)"
    using hl by (simp add: drop_take)
  moreover have "take (n + h + l) (take (n + h + l) r @ s) = take (n + h + l) r"
    "drop (n + h + l) (take (n + h + l) r @ s) = s"
    using hl by simp_all
  ultimately show "parse_field (raw f @ s) = Inr (f, s)"
    using ok by (simp only: parse_field_def Let_def f sum.case prod.case) simp
qed

function parse_fields :: "nat \<Rightarrow> bytes \<Rightarrow> wloc_error + field list" where
  "parse_fields k r =
     (if r = [] then Inr []
      else case parse_field r of
        Inl e \<Rightarrow> Inl e
      | Inr (f, r') \<Rightarrow>
          if Suc k > maxFields then Inl Malformed
          else case parse_fields (Suc k) r' of Inl e \<Rightarrow> Inl e | Inr fs \<Rightarrow> Inr (f # fs))"
  by pat_completeness auto
termination
proof (relation "measure (\<lambda>(k, r). length r)")
  fix k r p f r'
  assume "r \<noteq> []" and "parse_field r = Inr p" and "(f, r') = p"
  then show "((Suc k, r'), (k, r)) \<in> measure (\<lambda>(k, r). length r)"
    using parse_field_consumes(1,2) [of r f r'] by (cases r) (auto simp: neq_Nil_conv)
qed simp

declare parse_fields.simps [simp del]

definition parse :: "bytes \<Rightarrow> nat \<Rightarrow> wloc_error + field list" where
  "parse b depth = (if depth > maxDepth then Inl NestingDepth else parse_fields 0 b)"

section \<open>The field parser is a lossless codec\<close>

text \<open>A field as \<open>parse\<close> returns it: its \<open>raw\<close> bytes are one field and nothing else.\<close>

definition wf_field :: "field \<Rightarrow> bool" where
  "wf_field f \<longleftrightarrow> parse_field (raw f) = Inr (f, [])"

interpretation fields: lossless_codec parse_field raw wf_field
proof
  fix b f r
  assume p: "parse_field b = Inr (f, r)"
  show "\<exists>c. c \<noteq> [] \<and> b = c @ r \<and> (\<forall>s. parse_field (c @ s) = Inr (f, s))"
    using parse_field_consumes [OF p] by blast
next
  fix b f r
  assume p: "parse_field b = Inr (f, r)"
  show "wf_field f \<and> b = raw f @ r"
    using parse_field_consumes(2) [OF p] parse_field_consumes(3) [OF p, of "[]"]
    by (simp add: wf_field_def)
next
  fix f r
  assume "wf_field f"
  then show "parse_field (raw f @ r) = Inr (f, r)"
    using parse_field_consumes(3) [of "raw f" f "[]" r] by (simp add: wf_field_def)
qed

lemma parse_fields_sound:
  "parse_fields k b = Inr fs \<Longrightarrow>
   list_all wf_field fs \<and> concat (map raw fs) = b \<and> (fs \<noteq> [] \<longrightarrow> k + length fs \<le> maxFields)"
proof (induction k b arbitrary: fs rule: parse_fields.induct)
  case (1 k r)
  show ?case
  proof (cases "r = []")
    case True
    with "1.prems" show ?thesis by (simp add: parse_fields.simps)
  next
    case False
    with "1.prems" obtain f r' gs where p: "parse_field r = Inr (f, r')"
      and k: "\<not> Suc k > maxFields" and gs: "parse_fields (Suc k) r' = Inr gs" and fs: "fs = f # gs"
      by (subst (asm) parse_fields.simps) (auto split: sum.splits if_splits)
    from "1.IH" [OF False p refl k gs] have
      "list_all wf_field gs \<and> concat (map raw gs) = r' \<and> (gs \<noteq> [] \<longrightarrow> Suc k + length gs \<le> maxFields)" .
    then show ?thesis
      using fields.dec_sound [OF p] k by (cases "gs = []") (auto simp: fs)
  qed
qed

lemma parse_fields_complete:
  "list_all wf_field fs \<Longrightarrow> k + length fs \<le> maxFields \<Longrightarrow>
   parse_fields k (concat (map raw fs)) = Inr fs"
proof (induction fs arbitrary: k)
  case Nil
  then show ?case by (simp add: parse_fields.simps)
next
  case (Cons f fs)
  then have "raw f \<noteq> []" using fields.enc_nonempty [of f] by simp
  moreover have "parse_field (raw f @ concat (map raw fs)) = Inr (f, concat (map raw fs))"
    using Cons.prems by (intro fields.dec_enc) simp
  ultimately show ?case
    using Cons by (subst parse_fields.simps) simp
qed

lemma parse_iff:
  "parse b d = Inr fs \<longleftrightarrow>
   d \<le> maxDepth \<and> list_all wf_field fs \<and> length fs \<le> maxFields \<and> b = concat (map raw fs)"
proof
  assume "parse b d = Inr fs"
  then have "d \<le> maxDepth" and "parse_fields 0 b = Inr fs"
    by (auto simp: parse_def split: if_splits)
  with parse_fields_sound [of 0 b fs] show "d \<le> maxDepth \<and> list_all wf_field fs \<and>
      length fs \<le> maxFields \<and> b = concat (map raw fs)"
    by (cases "fs = []") auto
next
  assume "d \<le> maxDepth \<and> list_all wf_field fs \<and> length fs \<le> maxFields \<and> b = concat (map raw fs)"
  then show "parse b d = Inr fs"
    using parse_fields_complete [of fs 0] by (simp add: parse_def)
qed

lemmas parseD = parse_iff [THEN iffD1]

text \<open>One field too many is refused, wherever the limit is crossed.\<close>

lemma parse_fields_overlong:
  "list_all wf_field fs \<Longrightarrow> maxFields < k + length fs \<Longrightarrow> k \<le> maxFields \<Longrightarrow>
   parse_fields k (concat (map raw fs)) = Inl Malformed"
proof (induction fs arbitrary: k)
  case (Cons f fs)
  then have "raw f \<noteq> []" using fields.enc_nonempty [of f] by simp
  moreover have "parse_field (raw f @ concat (map raw fs)) = Inr (f, concat (map raw fs))"
    using Cons.prems by (intro fields.dec_enc) simp
  ultimately show ?case
    using Cons by (subst parse_fields.simps) simp
qed simp

lemma parse_wf_fields:
  assumes "list_all wf_field fs" and "d \<le> maxDepth"
  shows "parse (concat (map raw fs)) d = (if length fs \<le> maxFields then Inr fs else Inl Malformed)"
proof (cases "length fs \<le> maxFields")
  case False
  then have "parse_fields 0 (concat (map raw fs)) = Inl Malformed"
    by (intro parse_fields_overlong assms(1)) simp_all
  with False assms(2) show ?thesis by (simp add: parse_def)
qed (use assms in \<open>simp add: parse_iff\<close>)

section \<open>What a well-formed field looks like\<close>

lemma wf_fieldE:
  assumes "wf_field f"
  obtains k n h l where "readVarint (raw f) = Inr (k, n)" and "0 < n"
    and "parse_value (wire f) (drop n (raw f)) = Inr (h, l)"
    and "n + h + l = length (raw f)" and "value f = take l (drop (n + h) (raw f))"
    and "num f = ucast (drop_bit 3 k)" and "wire f = ucast (k AND 7)"
    and "num f \<noteq> 0" and "num f < 536870912"
proof -
  from assms have p: "parse_field (raw f) = Inr (f, [])" by (simp add: wf_field_def)
  then obtain k n h l where k: "readVarint (raw f) = Inr (k, n)"
    and ok: "(ucast (drop_bit 3 k) :: 32 word) \<noteq> 0" "(ucast (drop_bit 3 k) :: 32 word) < 536870912"
      "(ucast (k AND 7) :: byte) \<noteq> 3" "(ucast (k AND 7) :: byte) \<noteq> 4"
    and v: "parse_value (ucast (k AND 7)) (drop n (raw f)) = Inr (h, l)"
    and "f = \<lparr>num = ucast (drop_bit 3 k), wire = ucast (k AND 7), raw = take (n + h + l) (raw f),
                 value = take l (drop (n + h) (raw f))\<rparr>"
    and rest: "[] = drop (n + h + l) (raw f)"
    by (rule parse_fieldE)
  then have f: "num f = ucast (drop_bit 3 k)" "wire f = ucast (k AND 7)"
    "value f = take l (drop (n + h) (raw f))"
    by (metis field.select_convs(1), metis field.select_convs(2), metis field.select_convs(4))
  have n: "0 < n" "n \<le> length (raw f)" using readVarint_bounds [OF k] by auto
  have "n + h + l \<le> length (raw f)" using parse_value_bounds [OF v] n by simp
  moreover have "length (raw f) \<le> n + h + l" using rest by simp
  ultimately show thesis using k v n ok f by (intro that [of k n h l]) simp_all
qed

lemma wf_field_ranges:
  assumes "wf_field f"
  shows "num f \<noteq> 0" and "num f < 536870912" and "wire f \<in> {0, 1, 2, 5}"
  using assms by (auto elim!: wf_fieldE simp: parse_value_def split: if_splits)

end
