(* ===== verification/Built_Fields.thy ===== *)
theory Built_Fields
  imports Wire
begin

unbundle bit_operations_syntax

text \<open>
  Fields the rewriter builds itself, \<open>key(n, 0) ++ i64(v)\<close> and \<open>key(n, 2) ++ encVarint(len) ++ x\<close>
  in \<open>internal/provider/applewloc/wloc.go\<close>, and the proof that the parser reads them back.
\<close>

definition varint_field :: "32 word \<Rightarrow> 64 word \<Rightarrow> field" where
  "varint_field n v = \<lparr>num = n, wire = 0, raw = key n 0 @ i64 v, value = i64 v\<rparr>"

definition bytes_field :: "32 word \<Rightarrow> bytes \<Rightarrow> field" where
  "bytes_field n x =
     \<lparr>num = n, wire = 2, raw = key n 2 @ encVarint (word_of_nat (length x)) @ x, value = x\<rparr>"

lemma built_field_simps [simp]:
  "num (varint_field n v) = n" "wire (varint_field n v) = 0" "value (varint_field n v) = i64 v"
  "num (bytes_field n x) = n" "wire (bytes_field n x) = 2" "value (bytes_field n x) = x"
  "raw (varint_field n v) = key n 0 @ i64 v"
  "raw (bytes_field n x) = key n 2 @ encVarint (word_of_nat (length x)) @ x"
  by (simp_all add: varint_field_def bytes_field_def)

lemma key_split:
  assumes "w < 8"
  shows "(ucast (drop_bit 3 (push_bit 3 (ucast n) OR ucast w :: u64)) :: 32 word) = n"
    and "(ucast ((push_bit 3 (ucast (n :: 32 word)) OR ucast w :: u64) AND 7) :: byte) = w"
proof -
  have w: "take_bit 3 w = w"
    using assms by (simp add: take_bit_eq_mod word_less_nat_alt word_arith_nat_mod)
  then have high: "\<not> bit w i" if "3 \<le> i" for i
    using that by (metis bit_take_bit_iff not_less)
  show "(ucast (drop_bit 3 (push_bit 3 (ucast n) OR ucast w :: u64)) :: 32 word) = n"
    by (rule bit_word_eqI) (auto simp: bit_simps high)
  have 7: "(7 :: u64) = mask 3" by (simp add: mask_eq_exp_minus_1)
  show "(ucast ((push_bit 3 (ucast n) OR ucast w :: u64) AND 7) :: byte) = w"
    unfolding 7 by (rule bit_word_eqI) (auto simp: bit_simps dest: high, metis high not_less)
qed

lemma readVarint_key:
  "readVarint (key n w @ r) = Inr (push_bit 3 (ucast n) OR ucast w, length (key n w))"
  by (simp add: key_def codec_simps)

lemma length_key_pos: "0 < length (key n w)"
  by (simp add: key_def)

lemma key_nonempty [simp]: "key n w \<noteq> []"
  by (simp add: key_def)

lemma wf_varint_field:
  assumes "n \<noteq> 0" and "n < 536870912"
  shows "wf_field (varint_field n v)"
proof -
  have "parse_value 0 (i64 v) = Inr (0, length (i64 v))"
    using readVarint_encVarint [of v "[]"] by (simp add: parse_value_def i64_def)
  then show ?thesis
    using assms key_split [of 0 n]
    by (simp add: wf_field_def parse_field_def readVarint_key Let_def varint_field_def)
qed

lemma wf_bytes_field:
  assumes "n \<noteq> 0" and "n < 536870912" and "length x < 2 ^ 64"
  shows "wf_field (bytes_field n x)"
proof -
  have "unat (word_of_nat (length x) :: u64) = length x"
    using assms(3) by (simp add: unat_of_nat)
  then have "parse_value 2 (encVarint (word_of_nat (length x)) @ x) =
      Inr (length (encVarint (word_of_nat (length x) :: u64)), length x)"
    by (simp add: parse_value_def codec_simps)
  then show ?thesis
    using assms key_split [of 2 n]
    by (simp add: wf_field_def parse_field_def readVarint_key Let_def bytes_field_def)
qed

section \<open>Sizes\<close>

lemma length_key_le: "length (key n w) \<le> 10"
  by (simp add: key_def length_encVarint_le)

lemma length_i64_le: "length (i64 v) \<le> 10"
  by (simp add: i64_def length_encVarint_le)

lemma length_bytes_field: "length (raw (bytes_field n x)) \<le> 20 + length x"
  using length_key_le [of n 2] length_encVarint_le [of "word_of_nat (length x)"] by simp

text \<open>A field takes at least two bytes, and holds its value.\<close>

lemma wf_field_size:
  assumes "wf_field f"
  shows "2 \<le> length (raw f)" and "length (value f) < length (raw f)"
proof -
  from assms obtain k n h l where n: "readVarint (raw f) = Inr (k, n)" "0 < n"
    and v: "parse_value (wire f) (drop n (raw f)) = Inr (h, l)"
    and len: "n + h + l = length (raw f)" and l: "value f = take l (drop (n + h) (raw f))"
    by (rule wf_fieldE)
  have "0 < h + l"
    using v by (auto simp: parse_value_def dest!: readVarint_bounds split: if_splits sum.splits)
  with n len show "2 \<le> length (raw f)" by linarith
  from n len l show "length (value f) < length (raw f)" by simp
qed

end
