(* ===== verification/Float64.thy ===== *)
theory Float64
  imports Complex_Main Prelude
begin

text \<open>
  The part of Go's \<open>float64\<close> the program relies on, computed exactly: comparison, the correctly
  rounded product (IEEE 754, ties to even), \<open>math.Round\<close> and the conversion \<open>int64(x)\<close>.

  \<open>Finite s m e\<close> stands for \<open>(-1)^s * m * 2^e\<close>; a value may have several such forms, and nothing here
  depends on the form. Go leaves the conversion of a value outside the \<open>int64\<close> range (and of NaN) to
  the implementation, so that result is the parameter \<open>oor\<close> of \<open>f_to_int64\<close>.
\<close>

datatype float64 = NaN | Infinity bool | Finite bool nat int

fun bitlen :: "nat \<Rightarrow> nat" where
  "bitlen n = (if n = 0 then 0 else Suc (bitlen (n div 2)))"

declare bitlen.simps [simp del]

fun IsNaN :: "float64 \<Rightarrow> bool" where
  "IsNaN NaN = True" | "IsNaN _ = False"

fun IsInf0 :: "float64 \<Rightarrow> bool" where
  "IsInf0 (Infinity s) = True" | "IsInf0 _ = False"

definition f_int :: "int \<Rightarrow> float64" where
  "f_int n = Finite (n < 0) (nat \<bar>n\<bar>) 0"

definition smant :: "bool \<Rightarrow> nat \<Rightarrow> int" where
  "smant s m = (if s then - int m else int m)"

fun f_less :: "float64 \<Rightarrow> float64 \<Rightarrow> bool" where
  "f_less (Finite s m e) (Finite s' m' e') =
     (smant s m * 2 ^ nat (e - min e e') < smant s' m' * 2 ^ nat (e' - min e e'))"
| "f_less (Infinity s) (Infinity s') = (s \<and> \<not> s')"
| "f_less (Infinity s) (Finite _ _ _) = s"
| "f_less (Finite _ _ _) (Infinity s) = (\<not> s)"
| "f_less _ _ = False"

definition f_le :: "float64 \<Rightarrow> float64 \<Rightarrow> bool" where
  "f_le x y = (\<not> IsNaN x \<and> \<not> IsNaN y \<and> \<not> f_less y x)"

section \<open>Rounding\<close>

definition rne :: "nat \<Rightarrow> nat \<Rightarrow> nat" where
  "rne m k = (let q = m div 2 ^ k; r = m mod 2 ^ k; h = 2 ^ (k - 1)
              in if k > 0 \<and> (r > h \<or> (r = h \<and> odd q)) then q + 1 else q)"

definition f_round :: "bool \<Rightarrow> nat \<Rightarrow> int \<Rightarrow> float64" where
  "f_round s m e =
     (if m = 0 then Finite s 0 0
      else let k = nat (max (int (bitlen m) - 53) (- 1074 - e));
               m' = rne m k; e' = e + int k
           in if int (bitlen m') + e' > 1024 then Infinity s else Finite s m' e')"

fun f_mul :: "float64 \<Rightarrow> float64 \<Rightarrow> float64" where
  "f_mul (Finite s m e) (Finite s' m' e') = f_round (s \<noteq> s') (m * m') (e + e')"
| "f_mul (Infinity s) (Infinity s') = Infinity (s \<noteq> s')"
| "f_mul (Infinity s) (Finite s' m _) = (if m = 0 then NaN else Infinity (s \<noteq> s'))"
| "f_mul (Finite s m _) (Infinity s') = (if m = 0 then NaN else Infinity (s \<noteq> s'))"
| "f_mul _ _ = NaN"

text \<open>\<open>math.Round\<close>: to the nearest integer, ties away from zero.\<close>

fun f_nearest :: "float64 \<Rightarrow> float64" where
  "f_nearest (Finite s m e) =
     (if e \<ge> 0 then Finite s m e
      else Finite s ((m + 2 ^ (nat (- e) - 1)) div 2 ^ nat (- e)) 0)"
| "f_nearest x = x"

definition in_int64 :: "int \<Rightarrow> bool" where
  "in_int64 n \<longleftrightarrow> - (2 ^ 63) \<le> n \<and> n < 2 ^ 63"

fun f_trunc :: "float64 \<Rightarrow> int option" where
  "f_trunc (Finite s m e) =
     Some (smant s (if e \<ge> 0 then m * 2 ^ nat e else m div 2 ^ nat (- e)))"
| "f_trunc _ = None"

definition f_to_int64 :: "(float64 \<Rightarrow> 64 word) \<Rightarrow> float64 \<Rightarrow> 64 word" where
  "f_to_int64 oor x =
     (case f_trunc x of
        Some n \<Rightarrow> if in_int64 n then word_of_int n else oor x
      | None \<Rightarrow> oor x)"

text \<open>\<open>float64(u)\<close> of a \<open>uint64\<close>.\<close>

definition f_of_u64 :: "64 word \<Rightarrow> float64" where
  "f_of_u64 u = f_round False (unat u) 0"

section \<open>Real values\<close>

fun rval :: "float64 \<Rightarrow> real" where
  "rval (Finite s m e) = of_int (smant s m) * 2 powi e"
| "rval _ = 0"

fun is_finite :: "float64 \<Rightarrow> bool" where
  "is_finite (Finite _ _ _) = True" | "is_finite _ = False"

lemma is_finite_iff: "is_finite x \<longleftrightarrow> \<not> IsNaN x \<and> \<not> IsInf0 x"
  by (cases x) auto

lemma rval_f_int [simp]: "rval (f_int n) = of_int n"
  by (simp add: f_int_def smant_def)

lemma is_finite_f_int [simp]: "is_finite (f_int n)"
  by (simp add: f_int_def)

lemma powi_shift: "(2 :: real) powi (b + int n) = 2 ^ n * 2 powi b"
  using power_int_add [of "2 :: real" b "int n"] by (simp add: mult.commute)

lemma powi_cancel: "(2 :: real) powi (- int j) * 2 ^ j = 1"
  by (simp add: power_int_minus)

lemma real_pow_le: "2 ^ a \<le> (m :: nat) \<Longrightarrow> (2 :: real) ^ a \<le> real m"
  by (metis of_nat_le_iff of_nat_numeral of_nat_power)

lemma f_less_rval: "is_finite x \<Longrightarrow> is_finite y \<Longrightarrow> f_less x y \<longleftrightarrow> rval x < rval y"
proof -
  assume "is_finite x" "is_finite y"
  then obtain s m e s' m' e' where x: "x = Finite s m e" and y: "y = Finite s' m' e'"
    by (cases x; cases y) auto
  define b where "b = min e e'"
  have split: "(2 :: real) powi i = 2 ^ nat (i - b) * 2 powi b" if "b \<le> i" for i
  proof -
    have n: "b + int (nat (i - b)) = i" using that by simp
    show ?thesis using powi_shift [of b "nat (i - b)"] by (simp only: n)
  qed
  have "rval x < rval y \<longleftrightarrow>
      real_of_int (smant s m * 2 ^ nat (e - b)) * 2 powi b
        < real_of_int (smant s' m' * 2 ^ nat (e' - b)) * 2 powi b"
    by (simp add: x y split [of e] split [of e'] b_def mult.assoc)
  also have "\<dots> \<longleftrightarrow> smant s m * 2 ^ nat (e - b) < smant s' m' * 2 ^ nat (e' - b)"
    by (simp only: mult_less_cancel_right_pos zero_less_power_int zero_less_numeral of_int_less_iff)
  finally show ?thesis by (simp add: x y b_def)
qed

section \<open>Rounding stays within a representable bound\<close>

lemma bitlen_bounds: "0 < n \<Longrightarrow> 2 ^ (bitlen n - 1) \<le> n \<and> n < 2 ^ bitlen n \<and> 0 < bitlen n"
proof (induction n rule: bitlen.induct)
  case (1 n)
  show ?case
  proof (cases "n div 2 = 0")
    case True
    with 1 have "n = 1" by simp
    then show ?thesis by (simp add: bitlen.simps)
  next
    case False
    with 1 have IH: "2 ^ (bitlen (n div 2) - 1) \<le> n div 2 \<and> n div 2 < 2 ^ bitlen (n div 2)
        \<and> 0 < bitlen (n div 2)" by simp
    have b: "bitlen n = Suc (bitlen (n div 2))" using 1 by (subst bitlen.simps) simp
    obtain j where j: "bitlen (n div 2) = Suc j" using IH by (cases "bitlen (n div 2)") auto
    show ?thesis using IH by (simp add: b j) linarith
  qed
qed

lemma rne_le: "m \<le> g * 2 ^ k \<Longrightarrow> rne m k \<le> g"
proof -
  assume m: "m \<le> g * 2 ^ k"
  then have q: "m div 2 ^ k \<le> g"
    by (metis div_le_mono nonzero_mult_div_cancel_right power_not_zero zero_neq_numeral)
  show ?thesis
  proof (cases "m div 2 ^ k = g")
    case True
    then have "m = g * 2 ^ k"
      using m by (metis add_leD1 div_mult_mod_eq le_antisym order.refl)
    then have "m mod 2 ^ k = 0" by simp
    with True show ?thesis by (simp add: rne_def Let_def)
  next
    case False
    with q show ?thesis by (simp add: rne_def Let_def)
  qed
qed

lemma f_round_le:
  assumes le: "real m * 2 powi e \<le> real N" and N: "N < 2 ^ 53"
  shows "\<exists>m' e'. f_round s m e = Finite s m' e' \<and> real m' * 2 powi e' \<le> real N"
proof (cases "m = 0")
  case True
  then show ?thesis by (simp add: f_round_def)
next
  case False
  define k where "k = nat (max (int (bitlen m) - 53) (- 1074 - e))"
  have bl: "2 ^ (bitlen m - 1) \<le> m" "0 < bitlen m"
    using bitlen_bounds [of m] False by auto
  have Nr: "real N < 2 ^ 53"
    using N of_nat_less_iff [of N "2 ^ 53", where 'a = real] by simp
  have ek: "e + int k \<le> 0" if kpos: "k \<noteq> 0"
  proof (rule ccontr)
    assume pos: "\<not> e + int k \<le> 0"
    with kpos have k': "int k = int (bitlen m) - 53" by (auto simp: k_def)
    have "(2 :: real) ^ 53 \<le> 2 powi (e + int (bitlen m - 1))"
    proof -
      have "53 \<le> e + int (bitlen m - 1)" using pos k' bl by linarith
      then show ?thesis
        using power_int_increasing [of "53" "e + int (bitlen m - 1)" "2 :: real"] by simp
    qed
    also have "\<dots> = 2 ^ (bitlen m - 1) * 2 powi e" by (rule powi_shift)
    also have "\<dots> \<le> real m * 2 powi e"
      using real_pow_le [OF bl(1)] by (intro mult_right_mono) simp_all
    also have "\<dots> \<le> real N" by (rule le)
    finally show False using Nr by simp
  qed
  have bound: "real (rne m k) * 2 powi (e + int k) \<le> real N"
  proof (cases "k = 0")
    case True
    then show ?thesis using le by (simp add: rne_def)
  next
    case kpos: False
    have "e + int k \<le> 0" by (rule ek [OF kpos])
    then obtain j where j: "e + int k = - int j" by (metis nonpos_int_cases)
    then have e: "e = - int (j + k)" by simp
    have "real m \<le> real (N * 2 ^ j * 2 ^ k)"
    proof -
      have "(2 :: real) powi e * 2 ^ (j + k) = 1"
        unfolding e by (rule powi_cancel)
      then have "real m = real m * 2 powi e * 2 ^ (j + k)" by (simp only: mult.assoc mult_1_right)
      also have "\<dots> \<le> real N * 2 ^ (j + k)" using le by (intro mult_right_mono) auto
      finally show ?thesis by (simp add: power_add mult.assoc)
    qed
    then have "rne m k \<le> N * 2 ^ j" by (intro rne_le) (simp only: of_nat_le_iff)
    then have "real (rne m k) \<le> real (N * 2 ^ j)" by (simp only: of_nat_le_iff)
    then have "real (rne m k) * 2 powi (- int j) \<le> real (N * 2 ^ j) * 2 powi (- int j)"
      by (intro mult_right_mono) simp_all
    also have "\<dots> = real N * (2 powi (- int j) * 2 ^ j)" by simp
    also have "\<dots> = real N" by (simp only: powi_cancel mult_1_right)
    finally show ?thesis by (simp only: j)
  qed
  have "int (bitlen (rne m k)) + (e + int k) \<le> 1024"
  proof (rule ccontr)
    assume "\<not> ?thesis"
    then have over: "1024 < int (bitlen (rne m k)) + (e + int k)" by simp
    show False
    proof (cases "rne m k = 0")
      case True
      then have "k \<noteq> 0" using False by (intro notI) (simp add: rne_def)
      with ek over True show False by (simp add: bitlen.simps)
    next
      case nz: False
      have "53 \<le> (e + int k) + int (bitlen (rne m k) - 1)" using over by linarith
      then have "(2 :: real) ^ 53 \<le> 2 powi ((e + int k) + int (bitlen (rne m k) - 1))"
        using power_int_increasing [of "53" "(e + int k) + int (bitlen (rne m k) - 1)" "2 :: real"]
        by simp
      also have "\<dots> = 2 ^ (bitlen (rne m k) - 1) * 2 powi (e + int k)" by (rule powi_shift)
      also have "\<dots> \<le> real (rne m k) * 2 powi (e + int k)"
        using bitlen_bounds [of "rne m k"] nz real_pow_le [of _ "rne m k"]
        by (intro mult_right_mono) simp_all
      also have "\<dots> \<le> real N" by (rule bound)
      finally show False using Nr by simp
    qed
  qed
  with bound False show ?thesis
    by (simp add: f_round_def Let_def k_def)
qed

lemma abs_rval: "\<bar>rval (Finite s m e)\<bar> = real m * 2 powi e"
  by (simp add: smant_def abs_mult)

lemma f_mul_bounded:
  assumes "is_finite x" and "is_finite y"
    and "\<bar>rval x * rval y\<bar> \<le> real N" and "N < 2 ^ 53"
  shows "is_finite (f_mul x y) \<and> \<bar>rval (f_mul x y)\<bar> \<le> real N"
proof -
  from assms(1,2) obtain s m e s' m' e' where x: "x = Finite s m e" and y: "y = Finite s' m' e'"
    by (cases x; cases y) auto
  have "real (m * m') * 2 powi (e + e') = \<bar>rval x * rval y\<bar>"
    unfolding abs_mult x y abs_rval by (simp add: power_int_add)
  with assms(3) have "real (m * m') * 2 powi (e + e') \<le> real N" by simp
  from f_round_le [OF this assms(4), of "s \<noteq> s'"] show ?thesis
    by (auto simp: x y simp del: rval.simps simp: abs_rval)
qed

lemma f_nearest_value:
  assumes "is_finite x"
  shows "\<exists>n. f_trunc (f_nearest x) = Some n \<and> \<bar>of_int n - rval x\<bar> \<le> 1 / 2"
proof -
  from assms obtain s m e where x: "x = Finite s m e" by (cases x) auto
  show ?thesis
  proof (cases "e \<ge> 0")
    case True
    then have "(2 :: real) powi e = 2 ^ nat e" by (simp add: power_int_def)
    with True show ?thesis by (simp add: x smant_def)
  next
    case False
    define k where "k = nat (- e) - 1"
    have e: "e = - int (Suc k)" "nat (- e) = Suc k" using False by (simp_all add: k_def)
    define q where "q = (m + 2 ^ k) div 2 ^ Suc k"
    have lo: "q * 2 ^ Suc k \<le> m + 2 ^ k" unfolding q_def by (rule div_times_less_eq_dividend)
    have hi: "m + 2 ^ k < q * 2 ^ Suc k + 2 ^ Suc k"
      unfolding q_def using dividend_less_div_times [of "2 ^ Suc k" "m + 2 ^ k"] by simp
    have "real (q * 2 ^ Suc k) \<le> real (m + 2 ^ k)" "real (m + 2 ^ k) < real (q * 2 ^ Suc k + 2 ^ Suc k)"
      using lo hi by (simp_all only: of_nat_le_iff of_nat_less_iff)
    then have r: "real q * 2 ^ Suc k \<le> real m + 2 ^ k" "real m + 2 ^ k < real q * 2 ^ Suc k + 2 ^ Suc k"
      by simp_all
    have p: "(2 :: real) powi e * 2 ^ Suc k = 1" unfolding e(1) by (rule powi_cancel)
    define c where "c = (2 :: real) powi e"
    have c: "0 < c" "c * 2 ^ Suc k = 1" "c * 2 ^ k = 1 / 2" using p by (simp_all add: c_def)
    have "real q * (c * 2 ^ Suc k) \<le> real m * c + c * 2 ^ k"
      using mult_left_mono [OF r(1), of c] c(1) by (simp add: algebra_simps)
    moreover have "real m * c + c * 2 ^ k \<le> real q * (c * 2 ^ Suc k) + c * 2 ^ Suc k"
      using mult_left_mono [OF less_imp_le [OF r(2)], of c] c(1) by (simp add: algebra_simps)
    ultimately have "\<bar>real q - real m * c\<bar> \<le> 1 / 2" unfolding c(2,3) by linarith
    then have "\<bar>real_of_int (smant s q) - real_of_int (smant s m) * c\<bar> \<le> 1 / 2"
      by (simp add: smant_def abs_minus_commute)
    with False show ?thesis by (simp add: x c_def q_def k_def [symmetric] e(2) del: power_Suc)
  qed
qed

text \<open>The conversion \<open>int64(math.Round(x))\<close> of a value far inside the range.\<close>

lemma int64_nearest:
  assumes "is_finite x" and "\<bar>rval x\<bar> \<le> real N" and "N < 2 ^ 53"
  shows "\<bar>real_of_int (sint (f_to_int64 oor (f_nearest x))) - rval x\<bar> \<le> 1 / 2"
    and "\<bar>sint (f_to_int64 oor (f_nearest x))\<bar> \<le> int N"
proof -
  obtain n where n: "f_trunc (f_nearest x) = Some n" "\<bar>of_int n - rval x\<bar> \<le> 1 / 2"
    using f_nearest_value [OF assms(1)] by blast
  from n(2) assms(2) have "\<bar>real_of_int n\<bar> < real N + 1" by linarith
  then have "\<bar>n\<bar> < int N + 1" by linarith
  then have N: "\<bar>n\<bar> \<le> int N" by simp
  from assms(3) have "int N < 9007199254740992" by simp
  moreover have "n \<le> int N" "- int N \<le> n" using N by linarith+
  ultimately have "- 9223372036854775808 \<le> n \<and> n < 9223372036854775808" by linarith
  then have r: "in_int64 n" by (simp add: in_int64_def)
  then have "sint (word_of_int n :: 64 word) = n"
    by (simp add: in_int64_def signed_of_int signed_take_bit_int_eq_self)
  with n r N show "\<bar>real_of_int (sint (f_to_int64 oor (f_nearest x))) - rval x\<bar> \<le> 1 / 2"
    and "\<bar>sint (f_to_int64 oor (f_nearest x))\<bar> \<le> int N"
    by (simp_all add: f_to_int64_def)
qed

end
