(* ===== verification/Location.thy ===== *)
theory Location
  imports Built_Fields Float64
begin

unbundle bit_operations_syntax

text \<open>
  The location profile and the rewriting of one location message, from
  \<open>internal/provider/applewloc/wloc.go\<close>: \<open>Profile\<close>, \<open>Profile.Validate\<close>, \<open>jitterProfile\<close>,
  \<open>hasLocation\<close> and \<open>location\<close>.

  What the Go specification leaves to the platform is a parameter, the record \<open>platform\<close>: the result
  of an out-of-range \<open>float64\<close> to \<open>int64\<close> conversion, and the arithmetic of \<open>jitterProfile\<close> (the
  elementary functions of package \<open>math\<close>, and \<open>+\<close>, \<open>-\<close>, \<open>*\<close>, \<open>/\<close> there, which the compiler may fuse).
  The entropy read from \<open>crypto/rand\<close> is an argument, \<open>None\<close> when the read fails.

  The main facts: \<open>location\<close> is a patch of the field list (\<open>location_eq\<close>), which keeps every other field
  in place, is idempotent and writes each profile value exactly.
\<close>

record profile =
  Latitude :: float64
  Longitude :: float64
  Altitude :: float64
  HorizontalAccuracy :: float64
  VerticalAccuracy :: float64
  RandomRadius :: float64
  MotionType :: "64 word option"
  MotionConfidence :: "64 word option"
  InsertMissingLocation :: bool

record platform =
  oor_int64 :: "float64 \<Rightarrow> 64 word"
  m_add :: "float64 \<Rightarrow> float64 \<Rightarrow> float64"
  m_sub :: "float64 \<Rightarrow> float64 \<Rightarrow> float64"
  m_mul :: "float64 \<Rightarrow> float64 \<Rightarrow> float64"
  m_div :: "float64 \<Rightarrow> float64 \<Rightarrow> float64"
  m_sqrt :: "float64 \<Rightarrow> float64"
  m_sin :: "float64 \<Rightarrow> float64"
  m_cos :: "float64 \<Rightarrow> float64"
  m_asin :: "float64 \<Rightarrow> float64"
  m_atan2 :: "float64 \<Rightarrow> float64 \<Rightarrow> float64"
  m_mod :: "float64 \<Rightarrow> float64 \<Rightarrow> float64"

section \<open>The code\<close>

definition Profile_Validate :: "profile \<Rightarrow> wloc_error option" where
  "Profile_Validate p =
     (if list_ex (\<lambda>v. IsNaN v \<or> IsInf0 v)
          [Latitude p, Longitude p, Altitude p, HorizontalAccuracy p, VerticalAccuracy p, RandomRadius p]
      then Some NonFinite
      else if f_less (Latitude p) (f_int (- 90)) \<or> f_less (f_int 90) (Latitude p)
           \<or> f_less (Longitude p) (f_int (- 180)) \<or> f_less (f_int 180) (Longitude p)
      then Some CoordinateRange
      else if f_less (HorizontalAccuracy p) (f_int 0) \<or> f_less (VerticalAccuracy p) (f_int 0)
      then Some AccuracyRange
      else if f_less (RandomRadius p) (f_int 0) \<or> f_less (f_int 100000) (RandomRadius p)
      then Some RadiusRange
      else None)"

definition be64 :: "bytes \<Rightarrow> u64" where
  "be64 b = foldl (\<lambda>a c. push_bit 8 a OR ucast c) 0 b"

text \<open>\<open>math.Pi\<close> and \<open>2 * math.Pi\<close> as \<open>float64\<close> constants.\<close>

definition f_pi :: float64 where "f_pi = Finite False 7074237752028440 (- 51)"
definition f_2pi :: float64 where "f_2pi = Finite False 7074237752028440 (- 50)"

definition jitterProfile :: "platform \<Rightarrow> bytes option \<Rightarrow> profile \<Rightarrow> profile" where
  "jitterProfile P entropy p =
     (if f_le (RandomRadius p) (f_int 0) then p
      else case entropy of
        None \<Rightarrow> p
      | Some e \<Rightarrow>
          let denominator = Finite False 1 64;
              u1 = m_div P (f_of_u64 (be64 (take 8 e))) denominator;
              u2 = m_div P (f_of_u64 (be64 (take 8 (drop 8 e)))) denominator;
              distance = m_mul P (m_sqrt P u1) (RandomRadius p);
              bearing = m_mul P f_2pi u2;
              angular = m_div P distance (f_int 6378137);
              latitude = m_div P (m_mul P (Latitude p) f_pi) (f_int 180);
              longitude = m_div P (m_mul P (Longitude p) f_pi) (f_int 180);
              jlat = m_asin P (m_add P (m_mul P (m_sin P latitude) (m_cos P angular))
                       (m_mul P (m_mul P (m_cos P latitude) (m_sin P angular)) (m_cos P bearing)));
              jlon = m_add P longitude
                       (m_atan2 P (m_mul P (m_mul P (m_sin P bearing) (m_sin P angular)) (m_cos P latitude))
                          (m_sub P (m_cos P angular) (m_mul P (m_sin P latitude) (m_sin P jlat))))
          in p\<lparr>Latitude := m_div P (m_mul P jlat (f_int 180)) f_pi,
               Longitude := m_sub P (m_mod P (m_add P (m_div P (m_mul P jlon (f_int 180)) f_pi)
                              (f_int 540)) (f_int 360)) (f_int 180)\<rparr>)"

fun has_location_loop :: "field list \<Rightarrow> bool \<Rightarrow> bool \<Rightarrow> bool" where
  "has_location_loop [] lat lon = (lat \<and> lon)"
| "has_location_loop (f # fs) lat lon =
     (if wire f \<noteq> 0 then has_location_loop fs lat lon
      else has_location_loop fs (lat \<or> num f = 1) (lon \<or> num f = 2))"

definition hasLocation :: "field list \<Rightarrow> bool" where
  "hasLocation fs = has_location_loop fs False False"

text \<open>The map \<open>vals\<close> of \<open>location\<close>.\<close>

definition loc_vals :: "platform \<Rightarrow> profile \<Rightarrow> 32 word \<rightharpoonup> 64 word" where
  "loc_vals P p =
     (let conv = (\<lambda>x. f_to_int64 (oor_int64 P) (f_nearest x));
          vals = [1 \<mapsto> conv (f_mul (Latitude p) (f_int 100000000)),
                  2 \<mapsto> conv (f_mul (Longitude p) (f_int 100000000)),
                  3 \<mapsto> conv (HorizontalAccuracy p),
                  5 \<mapsto> conv (Altitude p),
                  6 \<mapsto> conv (VerticalAccuracy p)];
          vals = (case MotionType p of None \<Rightarrow> vals | Some v \<Rightarrow> vals(11 \<mapsto> v))
      in (case MotionConfidence p of None \<Rightarrow> vals | Some v \<Rightarrow> vals(12 \<mapsto> v)))"

definition loc_nums :: "32 word list" where
  "loc_nums = [1, 2, 3, 5, 6, 11, 12]"

text \<open>The first loop of \<open>location\<close>, over the fields, and the second, over the values not yet written.\<close>

fun location_fields ::
  "(32 word \<rightharpoonup> 64 word) \<Rightarrow> field list \<Rightarrow> bytes \<Rightarrow> (32 word \<Rightarrow> bool) \<Rightarrow> bytes \<times> (32 word \<Rightarrow> bool)"
where
  "location_fields vals [] out replaced = (out, replaced)"
| "location_fields vals (f # fs) out replaced =
     (if (wire f = 0 \<and> (case vals (num f) of Some v \<Rightarrow> v \<noteq> 0 | None \<Rightarrow> False)
          \<or> wire f = 0 \<and> (num f = 1 \<or> num f = 2 \<or> num f = 3 \<or> num f = 5 \<or> num f = 6
                           \<or> num f = 11 \<or> num f = 12))
         \<and> vals (num f) \<noteq> None
      then location_fields vals fs (out @ key (num f) 0 @ i64 (the (vals (num f))))
             (replaced(num f := True))
      else location_fields vals fs (out @ raw f) replaced)"

definition location :: "platform \<Rightarrow> field list \<Rightarrow> profile \<Rightarrow> bytes" where
  "location P fs p =
     (let vals = loc_vals P p;
          (out, replaced) = location_fields vals fs [] (\<lambda>_. False)
      in foldl (\<lambda>out n.
           case vals n of
             Some v \<Rightarrow>
               if \<not> replaced n \<and> (n < 7 \<or> MotionType p \<noteq> None \<and> n = 11
                                   \<or> MotionConfidence p \<noteq> None \<and> n = 12)
               then out @ key n 0 @ i64 v else out
           | None \<Rightarrow> out) out loc_nums)"

section \<open>\<open>location\<close> patches the list of fields\<close>

definition patch :: "(32 word \<rightharpoonup> 64 word) \<Rightarrow> field \<Rightarrow> field" where
  "patch vals f =
     (if wire f = 0 then case vals (num f) of Some v \<Rightarrow> varint_field (num f) v | None \<Rightarrow> f else f)"

definition has_varint :: "32 word \<Rightarrow> field list \<Rightarrow> bool" where
  "has_varint n fs \<longleftrightarrow> (\<exists>f \<in> set fs. wire f = 0 \<and> num f = n)"

definition missing :: "(32 word \<rightharpoonup> 64 word) \<Rightarrow> field list \<Rightarrow> field list" where
  "missing vals fs = map (\<lambda>n. varint_field n (the (vals n)))
     (filter (\<lambda>n. vals n \<noteq> None \<and> \<not> has_varint n fs) loc_nums)"

definition patched :: "(32 word \<rightharpoonup> 64 word) \<Rightarrow> field list \<Rightarrow> field list" where
  "patched vals fs = map (patch vals) fs @ missing vals fs"

lemma hasLocation_iff: "hasLocation fs \<longleftrightarrow> has_varint 1 fs \<and> has_varint 2 fs"
proof -
  have "has_location_loop fs lat lon \<longleftrightarrow> (lat \<or> has_varint 1 fs) \<and> (lon \<or> has_varint 2 fs)" for lat lon
    by (induction fs lat lon rule: has_location_loop.induct) (auto simp: has_varint_def)
  then show ?thesis by (simp add: hasLocation_def)
qed

lemma dom_loc_vals: "vals = loc_vals P p \<Longrightarrow> vals n = Some v \<Longrightarrow> n \<in> set loc_nums"
  by (auto simp: loc_vals_def loc_nums_def Let_def split: option.splits if_splits)

lemma loc_vals_always: "n \<in> {1, 2, 3, 5, 6} \<Longrightarrow> loc_vals P p n \<noteq> None"
  by (auto simp: loc_vals_def Let_def split: option.splits)

lemma location_fields_eq:
  assumes d: "\<And>n v. vals n = Some v \<Longrightarrow> n \<in> set loc_nums"
  shows "location_fields vals fs out replaced =
    (out @ concat (map (raw \<circ> patch vals) fs),
     \<lambda>n. replaced n \<or> (vals n \<noteq> None \<and> has_varint n fs))"
proof (induction fs arbitrary: out replaced)
  case Nil
  show ?case by (simp add: has_varint_def)
next
  case (Cons f fs)
  show ?case
  proof (cases "wire f = 0 \<and> vals (num f) \<noteq> None")
    case True
    then obtain v where v: "wire f = 0" "vals (num f) = Some v" by auto
    have n: "num f \<in> set loc_nums" by (rule d [OF v(2)])
    then have g: "num f = 1 \<or> num f = 2 \<or> num f = 3 \<or> num f = 5 \<or> num f = 6 \<or> num f = 11 \<or> num f = 12"
      by (simp add: loc_nums_def)
    have "location_fields vals (f # fs) out replaced =
        location_fields vals fs (out @ key (num f) 0 @ i64 v) (replaced(num f := True))"
      using v g by simp
    also have "\<dots> = (out @ concat (map (raw \<circ> patch vals) (f # fs)),
        \<lambda>n. (replaced(num f := True)) n \<or> vals n \<noteq> None \<and> has_varint n fs)"
    proof -
      have "patch vals f = varint_field (num f) v" using v by (simp add: patch_def)
      then show ?thesis by (simp add: Cons comp_def)
    qed
    finally show ?thesis using v by (auto simp: has_varint_def fun_eq_iff comp_def)
  next
    case False
    with Cons show ?thesis by (auto simp: patch_def has_varint_def fun_eq_iff split: option.splits)
  qed
qed

lemma location_eq: "location P fs p = concat (map raw (patched (loc_vals P p) fs))"
proof -
  let ?v = "loc_vals P p"
  let ?step = "\<lambda>out n. case ?v n of Some v \<Rightarrow>
      if \<not> (?v n \<noteq> None \<and> has_varint n fs) \<and> (n < 7 \<or> MotionType p \<noteq> None \<and> n = 11
          \<or> MotionConfidence p \<noteq> None \<and> n = 12)
      then out @ key n 0 @ i64 v else out | None \<Rightarrow> out"
  let ?cond = "\<lambda>n. ?v n \<noteq> None \<and> \<not> has_varint n fs"
  let ?new = "\<lambda>n. if ?cond n then raw (varint_field n (the (?v n))) else []"
  have step: "?step out n = out @ ?new n" if "n \<in> set loc_nums" for n out
    using that by (auto simp: loc_nums_def loc_vals_def Let_def split: option.splits)
  have loc: "location P fs p = foldl ?step (concat (map (raw \<circ> patch ?v) fs)) loc_nums"
    unfolding location_def Let_def
    by (simp only: location_fields_eq [OF dom_loc_vals [OF refl]] prod.case append_Nil simp_thms)
  have "foldl ?step out loc_nums = foldl (\<lambda>out n. out @ ?new n) out loc_nums" for out
    by (intro foldl_cong refl step)
  moreover have "concat (map ?new ns) =
      concat (map raw (map (\<lambda>n. varint_field n (the (?v n))) (filter ?cond ns)))" for ns
    by (induction ns) simp_all
  ultimately show ?thesis
    by (simp only: loc foldl_append patched_def missing_def map_append concat_append map_map)
qed

section \<open>Facts about the patch\<close>

lemma patch_num [simp]: "num (patch vals f) = num f" and patch_wire [simp]: "wire (patch vals f) = wire f"
  by (auto simp: patch_def split: option.splits)

lemma patch_other: "wire f \<noteq> 0 \<or> vals (num f) = None \<Longrightarrow> patch vals f = f"
  by (auto simp: patch_def split: option.splits)

lemma patch_hit: "wire f = 0 \<Longrightarrow> vals (num f) = Some v \<Longrightarrow> patch vals f = varint_field (num f) v"
  by (simp add: patch_def)

lemma patch_idem [simp]: "patch vals (patch vals f) = patch vals f"
  by (auto simp: patch_def split: option.splits)

lemma has_varint_map_patch [simp]: "has_varint n (map (patch vals) fs) = has_varint n fs"
  by (auto simp: has_varint_def)

lemma has_varint_append [simp]: "has_varint n (fs @ gs) = (has_varint n fs \<or> has_varint n gs)"
  by (auto simp: has_varint_def)

lemma set_missing:
  "set (missing vals fs) =
   (\<lambda>n. varint_field n (the (vals n))) ` {n \<in> set loc_nums. vals n \<noteq> None \<and> \<not> has_varint n fs}"
  by (simp add: missing_def)

lemma has_varint_missing:
  "has_varint n (missing vals fs) \<longleftrightarrow> n \<in> set loc_nums \<and> vals n \<noteq> None \<and> \<not> has_varint n fs"
  unfolding has_varint_def [of n "missing vals fs"] set_missing by auto

lemma length_missing: "length (missing vals fs) \<le> 7"
  using length_filter_le [of "\<lambda>n. vals n \<noteq> None \<and> \<not> has_varint n fs" loc_nums]
  by (simp add: missing_def loc_nums_def del: length_filter_le)

lemma length_patched: "length (patched vals fs) \<le> length fs + 7"
  by (simp add: patched_def length_missing)

lemma missing_patched:
  assumes "\<And>n v. vals n = Some v \<Longrightarrow> n \<in> set loc_nums"
  shows "missing vals (patched vals fs) = []"
proof -
  have "set (missing vals (patched vals fs)) = {}"
    unfolding set_missing by (auto simp: patched_def has_varint_missing dest: assms)
  then show ?thesis by simp
qed

lemma map_patch_missing: "map (patch vals) (missing vals fs) = missing vals fs"
  by (rule map_idI) (auto simp: set_missing patch_def)

text \<open>Patching twice changes nothing.\<close>

lemma patched_idem: "patched (loc_vals P p) (patched (loc_vals P p) fs) = patched (loc_vals P p) fs"
proof -
  have "missing (loc_vals P p) (patched (loc_vals P p) fs) = []"
    by (rule missing_patched) (rule dom_loc_vals [OF refl])
  then show ?thesis
    by (subst patched_def) (simp add: patched_def map_patch_missing comp_def)
qed

lemma hasLocation_patched: "hasLocation fs \<Longrightarrow> hasLocation (patched vals fs)"
  by (simp add: hasLocation_iff patched_def)

text \<open>Every varint field with a profile value holds it afterwards, and every profile value is present.\<close>

lemma patched_values:
  "f \<in> set (patched vals fs) \<Longrightarrow> wire f = 0 \<Longrightarrow> vals (num f) = Some v \<Longrightarrow> value f = i64 v"
  by (auto simp: patched_def patch_hit set_missing)

lemma patched_present:
  "vals n = Some v \<Longrightarrow> n \<in> set loc_nums \<Longrightarrow> has_varint n (patched vals fs)"
  by (auto simp: patched_def has_varint_missing)

text \<open>All other fields stay, in order.\<close>

lemma patched_others:
  "filter (\<lambda>f. wire f \<noteq> 0 \<or> vals (num f) = None) (patched vals fs) =
   filter (\<lambda>f. wire f \<noteq> 0 \<or> vals (num f) = None) fs"
proof -
  have "filter (\<lambda>f. wire f \<noteq> 0 \<or> vals (num f) = None) (missing vals fs) = []"
    by (rule filter_False) (auto simp: set_missing)
  moreover have "filter (\<lambda>f. wire f \<noteq> 0 \<or> vals (num f) = None) (map (patch vals) fs) =
      filter (\<lambda>f. wire f \<noteq> 0 \<or> vals (num f) = None) fs"
    by (induction fs) (simp_all add: patch_other)
  ultimately show ?thesis by (simp add: patched_def)
qed

lemma wf_patch: "wf_field f \<Longrightarrow> wf_field (patch vals f)"
  using wf_field_ranges [of f] wf_varint_field [of "num f"]
  by (auto simp: patch_def split: option.splits)

lemma wf_patched: "list_all wf_field fs \<Longrightarrow> list_all wf_field (patched vals fs)"
proof -
  have "wf_field f" if "f \<in> set (missing vals fs)" for f
    using that by (auto simp: set_missing loc_nums_def intro!: wf_varint_field)
  then show "list_all wf_field fs \<Longrightarrow> list_all wf_field (patched vals fs)"
    by (auto simp: patched_def list_all_iff wf_patch)
qed

lemma parse_location:
  assumes "list_all wf_field fs" and "d \<le> maxDepth"
  shows "parse (location P fs p) d =
    (if length (patched (loc_vals P p) fs) \<le> maxFields then Inr (patched (loc_vals P p) fs) else Inl Malformed)"
  by (simp only: location_eq parse_wf_fields [OF wf_patched [OF assms(1)] assms(2)])

section \<open>Sizes\<close>

lemma length_varint_field: "length (raw (varint_field n v)) \<le> 20"
  using length_key_le [of n 0] length_i64_le [of v] by simp

lemma length_patch: "wf_field f \<Longrightarrow> length (raw (patch vals f)) \<le> 10 * length (raw f)"
proof -
  assume "wf_field f"
  then have "2 \<le> length (raw f)" by (rule wf_field_size)
  then have "20 \<le> 10 * length (raw f)" by simp
  then have "length (raw (varint_field (num f) v)) \<le> 10 * length (raw f)" for v
    by (rule order_trans [OF length_varint_field])
  then show ?thesis by (auto simp: patch_def simp del: built_field_simps split: option.splits)
qed

lemma length_concat_raw_le:
  "(\<And>f. f \<in> set fs \<Longrightarrow> length (raw (g f)) \<le> c * length (raw f)) \<Longrightarrow>
   length (concat (map (raw \<circ> g) fs)) \<le> c * length (concat (map raw fs))"
  by (induction fs) (auto simp: distrib_left intro!: add_mono)

lemma length_concat_raw_const:
  "(\<And>f. f \<in> set fs \<Longrightarrow> length (raw f) \<le> c) \<Longrightarrow> length (concat (map raw fs)) \<le> c * length fs"
  by (induction fs) (auto intro!: add_mono)

lemma length_location:
  assumes "list_all wf_field fs"
  shows "length (location P fs p) \<le> 10 * length (concat (map raw fs)) + 140"
proof -
  let ?v = "loc_vals P p"
  have "length (concat (map (raw \<circ> patch ?v) fs)) \<le> 10 * length (concat (map raw fs))"
    using assms by (intro length_concat_raw_le length_patch) (auto simp: list_all_iff)
  moreover have "length (concat (map raw (missing ?v fs))) \<le> 20 * length (missing ?v fs)"
    by (rule length_concat_raw_const) (auto simp: set_missing length_varint_field simp del: built_field_simps)
  ultimately show ?thesis
    using length_missing [of ?v fs] by (simp add: location_eq patched_def comp_def)
qed

end
