(* ===== verification/Go_Strings.thy ===== *)
theory Go_Strings
  imports Prelude "HOL-Library.Char_ord"
begin

text \<open>
  The part of Go's \<open>strings\<close>, \<open>strconv\<close>, \<open>unicode\<close> and \<open>unicode/utf8\<close> packages the program uses. A Go
  string is the \<open>string\<close> of its bytes; runes are natural numbers; \<open>range s\<close> decodes UTF-8 with
  \<open>U+FFFD\<close> for an invalid byte, as \<open>decode_rune\<close> does.

  These definitions are the language's standard library, not code of the repository; they are total and
  executable, so that the models built on them compute.
\<close>

section \<open>Bytes and characters\<close>

definition go_string :: "bytes \<Rightarrow> string" where
  "go_string b = map (\<lambda>w. char_of (unat w)) b"

definition go_bytes :: "string \<Rightarrow> bytes" where
  "go_bytes s = map (\<lambda>c. word_of_nat (of_char c)) s"

abbreviation cb :: "char \<Rightarrow> nat" where "cb c \<equiv> of_char c"

lemma cb_less: "cb c < 256"
  by (metis mod_less_divisor of_char_mod_256 zero_less_numeral)

lemma go_bytes_string [simp]: "go_bytes (go_string b) = b"
  by (rule nth_equalityI) (simp_all add: go_bytes_def go_string_def byte_less)

lemma go_string_bytes [simp]: "go_string (go_bytes s) = s"
  by (simp add: go_bytes_def go_string_def comp_def map_idI)

lemma length_go_string [simp, len_simps]: "length (go_string b) = length b"
  and length_go_bytes [simp, len_simps]: "length (go_bytes s) = length s"
  by (simp_all add: go_string_def go_bytes_def)

lemma go_string_append [simp]: "go_string (a @ b) = go_string a @ go_string b"
  and go_bytes_append [simp]: "go_bytes (s @ t) = go_bytes s @ go_bytes t"
  by (simp_all add: go_string_def go_bytes_def)

section \<open>Prefixes, suffixes and splitting\<close>

definition HasPrefix :: "string \<Rightarrow> string \<Rightarrow> bool" where
  "HasPrefix s p \<longleftrightarrow> take (length p) s = p"

definition HasSuffix :: "string \<Rightarrow> string \<Rightarrow> bool" where
  "HasSuffix s p \<longleftrightarrow> length p \<le> length s \<and> drop (length s - length p) s = p"

definition TrimSuffix :: "string \<Rightarrow> string \<Rightarrow> string" where
  "TrimSuffix s p = (if HasSuffix s p then take (length s - length p) s else s)"

definition ContainsAny :: "string \<Rightarrow> string \<Rightarrow> bool" where
  "ContainsAny s cs \<longleftrightarrow> list_ex (\<lambda>c. c \<in> set cs) s"

fun split_on :: "char \<Rightarrow> string \<Rightarrow> string list" where
  "split_on d [] = [[]]"
| "split_on d (c # cs) =
     (if c = d then [] # split_on d cs
      else case split_on d cs of [] \<Rightarrow> [[c]] | w # ws \<Rightarrow> (c # w) # ws)"

text \<open>\<open>strings.SplitN(s, sep, 2)\<close> for a one-byte separator.\<close>

fun split2_on :: "char \<Rightarrow> string \<Rightarrow> string list" where
  "split2_on d s =
     (case dropWhile (\<lambda>c. c \<noteq> d) s of [] \<Rightarrow> [s] | _ # r \<Rightarrow> [takeWhile (\<lambda>c. c \<noteq> d) s, r])"

text \<open>\<open>strings.Trim(s, cutset)\<close> for an ASCII cutset.\<close>

definition trim_set :: "string \<Rightarrow> string \<Rightarrow> string" where
  "trim_set cs s = rev (dropWhile (\<lambda>c. c \<in> set cs) (rev (dropWhile (\<lambda>c. c \<in> set cs) s)))"

section \<open>UTF-8\<close>

definition rune_error :: nat where "rune_error = 65533"

definition is_cont :: "nat \<Rightarrow> bool" where "is_cont b \<longleftrightarrow> 128 \<le> b \<and> b \<le> 191"

text \<open>The rune at the head of a string and the number of bytes it takes, one for an invalid byte.\<close>

fun decode_rune :: "string \<Rightarrow> nat \<times> nat" where
  "decode_rune [] = (rune_error, 0)"
| "decode_rune (c # cs) =
     (let a = cb c in
      if a < 128 then (a, 1)
      else case cs of
        [] \<Rightarrow> (rune_error, 1)
      | c1 # cs1 \<Rightarrow>
          let b = cb c1 in
          if 194 \<le> a \<and> a \<le> 223 \<and> is_cont b then ((a - 192) * 64 + (b - 128), 2)
          else (case cs1 of
            [] \<Rightarrow> (rune_error, 1)
          | c2 # cs2 \<Rightarrow>
              let d = cb c2 in
              if 224 \<le> a \<and> a \<le> 239 \<and> is_cont b \<and> (a = 224 \<longrightarrow> 160 \<le> b) \<and> (a = 237 \<longrightarrow> b \<le> 159) \<and> is_cont d
              then ((a - 224) * 4096 + (b - 128) * 64 + (d - 128), 3)
              else (case cs2 of
                [] \<Rightarrow> (rune_error, 1)
              | c3 # _ \<Rightarrow>
                  let e = cb c3 in
                  if 240 \<le> a \<and> a \<le> 244 \<and> is_cont b \<and> (a = 240 \<longrightarrow> 144 \<le> b) \<and> (a = 244 \<longrightarrow> b \<le> 143)
                     \<and> is_cont d \<and> is_cont e
                  then ((a - 240) * 262144 + (b - 128) * 4096 + (d - 128) * 64 + (e - 128), 4)
                  else (rune_error, 1))))"

definition encode_rune :: "nat \<Rightarrow> string" where
  "encode_rune r0 =
     (let r = (if (55296 \<le> r0 \<and> r0 \<le> 57343) \<or> r0 > 1114111 then rune_error else r0) in
      map char_of
        (if r < 128 then [r]
         else if r < 2048 then [192 + r div 64, 128 + r mod 64]
         else if r < 65536 then [224 + r div 4096, 128 + r div 64 mod 64, 128 + r mod 64]
         else [240 + r div 262144, 128 + r div 4096 mod 64, 128 + r div 64 mod 64, 128 + r mod 64]))"

section \<open>White space\<close>

definition space_runes :: "nat list" where
  "space_runes = [9, 10, 11, 12, 13, 32, 133, 160, 5760, 8192, 8193, 8194, 8195, 8196, 8197, 8198, 8199,
     8200, 8201, 8202, 8232, 8233, 8239, 8287, 12288]"

definition space_codes :: "string list" where
  "space_codes = map encode_rune space_runes"

definition leading_space :: "string \<Rightarrow> nat" where
  "leading_space s =
     (case find (\<lambda>w. HasPrefix s w) space_codes of Some w \<Rightarrow> length w | None \<Rightarrow> 0)"

definition trailing_space :: "string \<Rightarrow> nat" where
  "trailing_space s =
     (case find (\<lambda>w. HasSuffix s w) space_codes of Some w \<Rightarrow> length w | None \<Rightarrow> 0)"

function trim_left :: "string \<Rightarrow> string" where
  "trim_left s =
     (if s = [] \<or> leading_space s = 0 then s else trim_left (drop (leading_space s) s))"
  by pat_completeness auto
termination by (relation "measure length") auto

function trim_right :: "string \<Rightarrow> string" where
  "trim_right s =
     (if s = [] \<or> trailing_space s = 0 then s else trim_right (take (length s - trailing_space s) s))"
  by pat_completeness auto
termination by (relation "measure length") auto

declare trim_left.simps [simp del] trim_right.simps [simp del]

definition TrimSpace :: "string \<Rightarrow> string" where
  "TrimSpace s = trim_right (trim_left s)"

text \<open>\<open>strings.Fields\<close>: the words between runs of white space.\<close>

function fields_loop :: "string \<Rightarrow> string \<Rightarrow> string list" where
  "fields_loop cur [] = (if cur = [] then [] else [rev cur])"
| "fields_loop cur (c # cs) =
     (let (r, n) = decode_rune (c # cs) in
      if r \<in> set space_runes
      then (if cur = [] then [] else [rev cur]) @ fields_loop [] (drop (n - 1) cs)
      else fields_loop (rev (take (n - 1) cs) @ c # cur) (drop (n - 1) cs))"
  by pat_completeness auto
termination by (relation "measure (\<lambda>(cur, s). length s)") auto

declare fields_loop.simps [simp del]

definition Fields :: "string \<Rightarrow> string list" where
  "Fields s = fields_loop [] s"

section \<open>Lower case\<close>

text \<open>
  \<open>unicode.ToLower\<close> beyond ASCII, as (first, last, stride, offset) ranges of the simple lower-case
  mapping of Unicode 15, the version of the Go release in \<open>go.mod\<close>.
\<close>

definition lower_ranges :: "(nat \<times> nat \<times> nat \<times> int) list" where
  "lower_ranges = [
    (192, 214, 1, 32), (216, 222, 1, 32), (256, 302, 2, 1), (304, 304, 1, - 199), (306, 310, 2, 1),
    (313, 327, 2, 1), (330, 374, 2, 1), (376, 376, 1, - 121), (377, 381, 2, 1), (385, 385, 1, 210),
    (386, 388, 2, 1), (390, 390, 1, 206), (391, 391, 1, 1), (393, 394, 1, 205), (395, 395, 1, 1),
    (398, 398, 1, 79), (399, 399, 1, 202), (400, 400, 1, 203), (401, 401, 1, 1), (403, 403, 1, 205),
    (404, 404, 1, 207), (406, 406, 1, 211), (407, 407, 1, 209), (408, 408, 1, 1), (412, 412, 1, 211),
    (413, 413, 1, 213), (415, 415, 1, 214), (416, 420, 2, 1), (422, 422, 1, 218), (423, 423, 1, 1),
    (425, 425, 1, 218), (428, 428, 1, 1), (430, 430, 1, 218), (431, 431, 1, 1), (433, 434, 1, 217),
    (435, 437, 2, 1), (439, 439, 1, 219), (440, 440, 1, 1), (444, 444, 1, 1), (452, 452, 1, 2),
    (453, 453, 1, 1), (455, 455, 1, 2), (456, 456, 1, 1), (458, 458, 1, 2), (459, 475, 2, 1),
    (478, 494, 2, 1), (497, 497, 1, 2), (498, 500, 2, 1), (502, 502, 1, - 97), (503, 503, 1, - 56),
    (504, 542, 2, 1), (544, 544, 1, - 130), (546, 562, 2, 1), (570, 570, 1, 10795), (571, 571, 1, 1),
    (573, 573, 1, - 163), (574, 574, 1, 10792), (577, 577, 1, 1), (579, 579, 1, - 195),
    (580, 580, 1, 69), (581, 581, 1, 71), (582, 590, 2, 1), (880, 882, 2, 1), (886, 886, 1, 1),
    (895, 895, 1, 116), (902, 902, 1, 38), (904, 906, 1, 37), (908, 908, 1, 64), (910, 911, 1, 63),
    (913, 929, 1, 32), (931, 939, 1, 32), (975, 975, 1, 8), (984, 1006, 2, 1), (1012, 1012, 1, - 60),
    (1015, 1015, 1, 1), (1017, 1017, 1, - 7), (1018, 1018, 1, 1), (1021, 1023, 1, - 130),
    (1024, 1039, 1, 80), (1040, 1071, 1, 32), (1120, 1152, 2, 1), (1162, 1214, 2, 1),
    (1216, 1216, 1, 15), (1217, 1229, 2, 1), (1232, 1326, 2, 1), (1329, 1366, 1, 48),
    (4256, 4293, 1, 7264), (4295, 4295, 1, 7264), (4301, 4301, 1, 7264), (5024, 5103, 1, 38864),
    (5104, 5109, 1, 8), (7312, 7354, 1, - 3008), (7357, 7359, 1, - 3008), (7680, 7828, 2, 1),
    (7838, 7838, 1, - 7615), (7840, 7934, 2, 1), (7944, 7951, 1, - 8), (7960, 7965, 1, - 8),
    (7976, 7983, 1, - 8), (7992, 7999, 1, - 8), (8008, 8013, 1, - 8), (8025, 8031, 2, - 8),
    (8040, 8047, 1, - 8), (8072, 8079, 1, - 8), (8088, 8095, 1, - 8), (8104, 8111, 1, - 8),
    (8120, 8121, 1, - 8), (8122, 8123, 1, - 74), (8124, 8124, 1, - 9), (8136, 8139, 1, - 86),
    (8140, 8140, 1, - 9), (8152, 8153, 1, - 8), (8154, 8155, 1, - 100), (8168, 8169, 1, - 8),
    (8170, 8171, 1, - 112), (8172, 8172, 1, - 7), (8184, 8185, 1, - 128), (8186, 8187, 1, - 126),
    (8188, 8188, 1, - 9), (8486, 8486, 1, - 7517), (8490, 8490, 1, - 8383), (8491, 8491, 1, - 8262),
    (8498, 8498, 1, 28), (8544, 8559, 1, 16), (8579, 8579, 1, 1), (9398, 9423, 1, 26),
    (11264, 11311, 1, 48), (11360, 11360, 1, 1), (11362, 11362, 1, - 10743),
    (11363, 11363, 1, - 3814), (11364, 11364, 1, - 10727), (11367, 11371, 2, 1),
    (11373, 11373, 1, - 10780), (11374, 11374, 1, - 10749), (11375, 11375, 1, - 10783),
    (11376, 11376, 1, - 10782), (11378, 11378, 1, 1), (11381, 11381, 1, 1),
    (11390, 11391, 1, - 10815), (11392, 11490, 2, 1), (11499, 11501, 2, 1), (11506, 11506, 1, 1),
    (42560, 42604, 2, 1), (42624, 42650, 2, 1), (42786, 42798, 2, 1), (42802, 42862, 2, 1),
    (42873, 42875, 2, 1), (42877, 42877, 1, - 35332), (42878, 42886, 2, 1), (42891, 42891, 1, 1),
    (42893, 42893, 1, - 42280), (42896, 42898, 2, 1), (42902, 42920, 2, 1),
    (42922, 42922, 1, - 42308), (42923, 42923, 1, - 42319), (42924, 42924, 1, - 42315),
    (42925, 42925, 1, - 42305), (42926, 42926, 1, - 42308), (42928, 42928, 1, - 42258),
    (42929, 42929, 1, - 42282), (42930, 42930, 1, - 42261), (42931, 42931, 1, 928),
    (42932, 42946, 2, 1), (42948, 42948, 1, - 48), (42949, 42949, 1, - 42307),
    (42950, 42950, 1, - 35384), (42951, 42953, 2, 1), (42960, 42960, 1, 1), (42966, 42968, 2, 1),
    (42997, 42997, 1, 1), (65313, 65338, 1, 32), (66560, 66599, 1, 40), (66736, 66771, 1, 40),
    (66928, 66938, 1, 39), (66940, 66954, 1, 39), (66956, 66962, 1, 39), (66964, 66965, 1, 39),
    (68736, 68786, 1, 64), (71840, 71871, 1, 32), (93760, 93791, 1, 32), (125184, 125217, 1, 34)]"

definition lower_rune :: "nat \<Rightarrow> nat" where
  "lower_rune r =
     (if r < 128 then (if 65 \<le> r \<and> r \<le> 90 then r + 32 else r)
      else case find (\<lambda>(lo, hi, stride, d). lo \<le> r \<and> r \<le> hi \<and> (r - lo) mod stride = 0) lower_ranges of
        Some (lo, hi, stride, d) \<Rightarrow> nat (int r + d)
      | None \<Rightarrow> r)"

function ToLower :: "string \<Rightarrow> string" where
  "ToLower [] = []"
| "ToLower (c # cs) =
     (let (r, n) = decode_rune (c # cs) in encode_rune (lower_rune r) @ ToLower (drop (n - 1) cs))"
  by pat_completeness auto
termination by (relation "measure length") auto

declare ToLower.simps(2) [simp del]

definition is_ascii :: "string \<Rightarrow> bool" where
  "is_ascii s \<longleftrightarrow> list_all (\<lambda>c. cb c < 128) s"

definition lower_char :: "char \<Rightarrow> char" where
  "lower_char c = char_of (lower_rune (cb c))"

lemma lower_rune_ascii: "r < 128 \<Longrightarrow> lower_rune r < 128"
  by (simp add: lower_rune_def)

lemma encode_rune_ascii: "r < 128 \<Longrightarrow> encode_rune r = [char_of r]"
  by (simp add: encode_rune_def)

lemma ToLower_ascii_Cons: "cb c < 128 \<Longrightarrow> ToLower (c # cs) = lower_char c # ToLower cs"
  by (simp add: ToLower.simps(2) encode_rune_ascii lower_rune_ascii lower_char_def Let_def)

lemma ToLower_ascii: "is_ascii s \<Longrightarrow> ToLower s = map lower_char s"
  by (induction s) (simp_all add: is_ascii_def ToLower_ascii_Cons)

section \<open>Numbers\<close>

definition is_digit :: "char \<Rightarrow> bool" where
  "is_digit c \<longleftrightarrow> 48 \<le> cb c \<and> cb c \<le> 57"

fun digits_val :: "nat \<Rightarrow> string \<Rightarrow> nat" where
  "digits_val v [] = v"
| "digits_val v (c # cs) = digits_val (10 * v + (cb c - 48)) cs"

text \<open>\<open>strconv.Atoi\<close> and \<open>strconv.ParseInt(s, 10, 64)\<close>: an optional sign, digits, and the \<open>int64\<close> range.\<close>

definition Atoi :: "string \<Rightarrow> int option" where
  "Atoi s =
     (let neg = (s \<noteq> [] \<and> hd s = CHR ''-''); sign = (s \<noteq> [] \<and> (hd s = CHR ''-'' \<or> hd s = CHR ''+''));
          ds = (if sign then tl s else s)
      in if ds = [] \<or> \<not> list_all is_digit ds then None
         else let n = (if neg then - int (digits_val 0 ds) else int (digits_val 0 ds))
              in if - (2 ^ 63) \<le> n \<and> n < 2 ^ 63 then Some n else None)"

definition digit_char :: "nat \<Rightarrow> char" where
  "digit_char d = char_of (if d < 10 then 48 + d else 87 + d)"

fun nat_string :: "nat \<Rightarrow> string" where
  "nat_string n = (if n < 10 then [digit_char n] else nat_string (n div 10) @ [digit_char (n mod 10)])"

declare nat_string.simps [simp del]

definition Itoa :: "int \<Rightarrow> string" where
  "Itoa n = (if n < 0 then CHR ''-'' # nat_string (nat (- n)) else nat_string (nat n))"

fun hex_string :: "nat \<Rightarrow> string" where
  "hex_string n = (if n < 16 then [digit_char n] else hex_string (n div 16) @ [digit_char (n mod 16)])"

declare hex_string.simps [simp del]

lemma cb_digit_char: "d < 16 \<Longrightarrow> cb (digit_char d) = (if d < 10 then 48 + d else 87 + d)"
  by (simp add: digit_char_def)

lemma digits_val_append: "digits_val v (s @ t) = digits_val (digits_val v s) t"
  by (induction s arbitrary: v) simp_all

lemma is_digit_digit_char: "d < 10 \<Longrightarrow> is_digit (digit_char d)"
  by (simp add: cb_digit_char is_digit_def)

lemma nat_string_val: "digits_val 0 (nat_string n) = n \<and> list_all is_digit (nat_string n) \<and> nat_string n \<noteq> []"
proof (induction n rule: nat_string.induct)
  case (1 n)
  show ?case
  proof (cases "n < 10")
    case True
    then show ?thesis
      by (subst (1 2 3) nat_string.simps) (simp add: is_digit_digit_char, simp add: cb_digit_char)
  next
    case False
    with 1 show ?thesis
      by (subst (1 2 3) nat_string.simps)
        (simp add: is_digit_digit_char digits_val_append, simp add: cb_digit_char)
  qed
qed

lemma Atoi_Itoa: "- (2 ^ 63) \<le> n \<Longrightarrow> n < 2 ^ 63 \<Longrightarrow> Atoi (Itoa n) = Some n"
proof -
  assume n: "- (2 ^ 63) \<le> n" "n < 2 ^ 63"
  have hd: "hd (nat_string m) \<noteq> CHR ''-'' \<and> hd (nat_string m) \<noteq> CHR ''+''" for m
  proof -
    have "is_digit (hd (nat_string m))" using nat_string_val [of m] by (cases "nat_string m") auto
    then show ?thesis by (auto simp: is_digit_def)
  qed
  show ?thesis
    using n nat_string_val [of "nat n"] nat_string_val [of "nat (- n)"] hd [of "nat n"]
    by (auto simp: Atoi_def Itoa_def Let_def)
qed

section \<open>Plain text\<close>

text \<open>Printable ASCII without capitals: what trimming and lower-casing leave alone.\<close>

definition plain_char :: "char \<Rightarrow> bool" where
  "plain_char c \<longleftrightarrow> 33 \<le> cb c \<and> cb c < 128 \<and> \<not> (65 \<le> cb c \<and> cb c \<le> 90)"

lemma space_codes_ends:
  "w \<in> set space_codes \<Longrightarrow> w \<noteq> [] \<and> \<not> plain_char (hd w) \<and> \<not> plain_char (last w)"
  by (auto simp: space_codes_def space_runes_def encode_rune_def plain_char_def)

lemma find_none: "(\<And>x. x \<in> set xs \<Longrightarrow> \<not> P x) \<Longrightarrow> find P xs = None"
  by (auto simp: find_None_iff)

lemma leading_space_plain: "plain_char c \<Longrightarrow> leading_space (c # cs) = 0"
proof -
  assume c: "plain_char c"
  have "\<not> HasPrefix (c # cs) w" if "w \<in> set space_codes" for w
    using space_codes_ends [OF that] c by (cases w) (auto simp: HasPrefix_def)
  then show ?thesis by (simp add: leading_space_def find_none)
qed

lemma trailing_space_plain: "plain_char c \<Longrightarrow> trailing_space (cs @ [c]) = 0"
proof -
  assume c: "plain_char c"
  have "\<not> HasSuffix (cs @ [c]) w" if "w \<in> set space_codes" for w
  proof
    assume "HasSuffix (cs @ [c]) w"
    then have "\<exists>u. cs @ [c] = u @ w" unfolding HasSuffix_def by (metis append_take_drop_id)
    then have "last w = c" using space_codes_ends [OF that] by (metis last_appendR last_snoc)
    then show False using space_codes_ends [OF that] c by simp
  qed
  then show ?thesis by (simp add: trailing_space_def find_none)
qed

lemma TrimSpace_plain: "list_all plain_char s \<Longrightarrow> TrimSpace s = s"
proof (cases "s = []")
  case False
  assume s: "list_all plain_char s"
  then have "leading_space s = 0" using False leading_space_plain [of "hd s" "tl s"] by (cases s) auto
  moreover have "trailing_space s = 0"
    using False s trailing_space_plain [of "last s" "butlast s"] by (cases s rule: rev_cases) auto
  ultimately show ?thesis by (simp add: TrimSpace_def trim_left.simps trim_right.simps)
qed (simp add: TrimSpace_def trim_left.simps trim_right.simps)

lemma plain_ascii: "list_all plain_char s \<Longrightarrow> is_ascii s"
  by (auto simp: is_ascii_def plain_char_def list_all_iff)

lemma lower_char_plain: "plain_char c \<Longrightarrow> lower_char c = c"
  by (auto simp: plain_char_def lower_char_def lower_rune_def)

lemma ToLower_plain: "list_all plain_char s \<Longrightarrow> ToLower s = s"
  by (simp add: ToLower_ascii plain_ascii map_idI list_all_iff lower_char_plain)

lemma TrimSuffix_plain: "list_all plain_char s \<Longrightarrow> list_all plain_char (TrimSuffix s p)"
  by (auto simp: TrimSuffix_def list_all_iff dest: in_set_takeD)

end
