(* ===== verification/Net_Addr.thy ===== *)
theory Net_Addr
  imports Go_Strings
begin

text \<open>
  The part of Go's \<open>net\<close> package the program uses on strings: \<open>ParseIP\<close>, \<open>IP.String\<close>, \<open>IP.To4\<close>,
  \<open>ParseMAC\<close>, \<open>HardwareAddr.String\<close>, \<open>SplitHostPort\<close> and \<open>JoinHostPort\<close>. An \<open>IP\<close> is a list of byte
  values (empty for \<open>nil\<close>). Standard library, not code of the repository.
\<close>

type_synonym ip = "nat list"

section \<open>Parsing addresses\<close>

fun ipv4_loop :: "string \<Rightarrow> nat \<Rightarrow> nat \<Rightarrow> bool \<Rightarrow> nat list \<Rightarrow> nat list option" where
  "ipv4_loop [] val digits start fields =
     (if length fields < 3 then None else Some (fields @ [val]))"
| "ipv4_loop (c # cs) val digits start fields =
     (if is_digit c then
        (if digits = 1 \<and> val = 0 then None
         else let v = val * 10 + (cb c - 48)
              in if v > 255 then None else ipv4_loop cs v (digits + 1) False fields)
      else if c = CHR ''.'' then
        (if start \<or> cs = [] \<or> digits = 0 then None
         else if length fields = 3 then None
         else ipv4_loop cs 0 0 False (fields @ [val]))
      else None)"

definition parse_ipv4 :: "string \<Rightarrow> nat list option" where
  "parse_ipv4 s = ipv4_loop s 0 0 True []"

definition hex_digit :: "char \<Rightarrow> nat option" where
  "hex_digit c =
     (if is_digit c then Some (cb c - 48)
      else if 97 \<le> cb c \<and> cb c \<le> 102 then Some (cb c - 87)
      else if 65 \<le> cb c \<and> cb c \<le> 70 then Some (cb c - 55)
      else None)"

fun hex_run :: "string \<Rightarrow> nat \<Rightarrow> nat \<times> nat \<times> string" where
  "hex_run [] acc = (acc, 0, [])"
| "hex_run (c # cs) acc =
     (case hex_digit c of
        None \<Rightarrow> (acc, 0, c # cs)
      | Some d \<Rightarrow> (let (a, n, r) = hex_run cs (acc * 16 + d) in (a, n + 1, r)))"

text \<open>The loop over the groups of an IPv6 address: the bytes so far, the position of \<open>::\<close>, the rest.\<close>

fun ipv6_loop :: "nat \<Rightarrow> string \<Rightarrow> nat list \<Rightarrow> nat option \<Rightarrow> (nat list \<times> nat option) option" where
  "ipv6_loop 0 s ip ellipsis = None"
| "ipv6_loop (Suc k) s ip ellipsis =
     (if length ip \<ge> 16 then (if s = [] then Some (ip, ellipsis) else None)
      else let (acc, off, r) = hex_run s 0 in
        if off = 0 \<or> off > 4 then None
        else if r \<noteq> [] \<and> hd r = CHR ''.'' then
          (if ellipsis = None \<and> length ip \<noteq> 12 \<or> length ip + 4 > 16 then None
           else case parse_ipv4 s of None \<Rightarrow> None | Some q \<Rightarrow> Some (ip @ q, ellipsis))
        else let ip' = ip @ [acc div 256, acc mod 256] in
          case r of
            [] \<Rightarrow> Some (ip', ellipsis)
          | c # r1 \<Rightarrow>
              if c \<noteq> CHR '':'' \<or> r1 = [] then None
              else if hd r1 = CHR '':'' then
                (if ellipsis \<noteq> None then None
                 else if tl r1 = [] then Some (ip', Some (length ip'))
                 else ipv6_loop k (tl r1) ip' (Some (length ip')))
              else ipv6_loop k r1 ip' ellipsis)"

definition expand_ellipsis :: "nat list \<times> nat option \<Rightarrow> nat list option" where
  "expand_ellipsis q =
     (let (ip, ellipsis) = q in
      if length ip < 16 then
        (case ellipsis of
           None \<Rightarrow> None
         | Some e \<Rightarrow> Some (take e ip @ replicate (16 - length ip) 0 @ drop e ip))
      else if ellipsis \<noteq> None then None else Some ip)"

definition parse_ipv6 :: "string \<Rightarrow> nat list option" where
  "parse_ipv6 s =
     (if HasPrefix s ''::'' then
        (if length s = 2 then Some (replicate 16 0)
         else Option.bind (ipv6_loop 9 (drop 2 s) [] (Some 0)) expand_ellipsis)
      else Option.bind (ipv6_loop 9 s [] None) expand_ellipsis)"

text \<open>\<open>net.ParseIP\<close>: four bytes come back in the sixteen-byte form, and a zone is refused.\<close>

definition v4_prefix :: "nat list" where
  "v4_prefix = replicate 10 0 @ [255, 255]"

definition ParseIP :: "string \<Rightarrow> ip option" where
  "ParseIP s =
     (case find (\<lambda>c. c = CHR ''.'' \<or> c = CHR '':'' \<or> c = CHR ''%'') s of
        None \<Rightarrow> None
      | Some c \<Rightarrow>
          if c = CHR ''.'' then map_option (\<lambda>q. v4_prefix @ q) (parse_ipv4 s)
          else if c = CHR '':'' then (if CHR ''%'' \<in> set s then None else parse_ipv6 s)
          else None)"

definition To4 :: "ip \<Rightarrow> ip option" where
  "To4 ip = (if length ip = 4 then Some ip
     else if length ip = 16 \<and> take 12 ip = v4_prefix then Some (drop 12 ip) else None)"

definition To16 :: "ip \<Rightarrow> ip option" where
  "To16 ip = (if length ip = 4 then Some (v4_prefix @ ip) else if length ip = 16 then Some ip else None)"

section \<open>Printing addresses\<close>

definition dotted :: "nat list \<Rightarrow> string" where
  "dotted q = concat (map (\<lambda>i. (if i = 0 then [] else ''.'') @ nat_string (q ! i)) [0..<length q])"

fun groups16 :: "nat list \<Rightarrow> nat list" where
  "groups16 (a # b # r) = (a * 256 + b) # groups16 r"
| "groups16 _ = []"

text \<open>The longest run of at least two zero groups, the first one of that length: (start, length).\<close>

fun zero_run :: "nat list \<Rightarrow> nat" where
  "zero_run (0 # r) = Suc (zero_run r)"
| "zero_run _ = 0"

definition best_run :: "nat list \<Rightarrow> (nat \<times> nat) option" where
  "best_run gs =
     foldl (\<lambda>best i. let n = zero_run (drop i gs) in
              if n \<ge> 2 \<and> (case best of None \<Rightarrow> True | Some (_, m) \<Rightarrow> n > m) then Some (i, n) else best)
       None [0..<length gs]"

definition colon_join :: "nat list \<Rightarrow> string" where
  "colon_join gs = concat (map (\<lambda>i. (if i = 0 then [] else '':'') @ hex_string (gs ! i)) [0..<length gs])"

definition ipv6_string :: "nat list \<Rightarrow> string" where
  "ipv6_string ip =
     (let gs = groups16 ip in
      case best_run gs of
        None \<Rightarrow> colon_join gs
      | Some (i, n) \<Rightarrow> colon_join (take i gs) @ ''::'' @ colon_join (drop (i + n) gs))"

definition hex2 :: "nat \<Rightarrow> string" where
  "hex2 b = [digit_char (b div 16), digit_char (b mod 16)]"

definition IP_String :: "ip \<Rightarrow> string" where
  "IP_String ip =
     (if ip = [] then ''<nil>''
      else case To4 ip of
        Some q \<Rightarrow> dotted q
      | None \<Rightarrow> if length ip = 16 then ipv6_string ip else CHR ''?'' # concat (map hex2 ip))"

section \<open>Hardware addresses\<close>

definition xtoi2 :: "string \<Rightarrow> char option \<Rightarrow> nat option" where
  "xtoi2 s e =
     (if length s > 2 \<and> (case e of Some c \<Rightarrow> s ! 2 \<noteq> c | None \<Rightarrow> True) then None
      else case s of
        a # b # _ \<Rightarrow> (case (hex_digit a, hex_digit b) of (Some x, Some y) \<Rightarrow> Some (16 * x + y) | _ \<Rightarrow> None)
      | _ \<Rightarrow> None)"

definition those_map :: "('a \<Rightarrow> 'b option) \<Rightarrow> 'a list \<Rightarrow> 'b list option" where
  "those_map f xs = those (map f xs)"

definition mac_length :: "nat \<Rightarrow> bool" where
  "mac_length n \<longleftrightarrow> n = 6 \<or> n = 8 \<or> n = 20"

definition ParseMAC :: "string \<Rightarrow> nat list option" where
  "ParseMAC s =
     (if length s < 14 then None
      else if s ! 2 = CHR '':'' \<or> s ! 2 = CHR ''-'' then
        (let n = (length s + 1) div 3 in
         if (length s + 1) mod 3 \<noteq> 0 \<or> \<not> mac_length n then None
         else those_map (\<lambda>i. xtoi2 (drop (3 * i) s) (Some (s ! 2))) [0..<n])
      else if s ! 4 = CHR ''.'' then
        (let n = 2 * (length s + 1) div 5 in
         if (length s + 1) mod 5 \<noteq> 0 \<or> \<not> mac_length n then None
         else those_map (\<lambda>i. if even i then xtoi2 (take 2 (drop (5 * (i div 2)) s)) None
                             else xtoi2 (drop (5 * (i div 2) + 2) s) (Some (s ! 4))) [0..<n])
      else None)"

definition MAC_String :: "nat list \<Rightarrow> string" where
  "MAC_String hw = concat (map (\<lambda>i. (if i = 0 then [] else '':'') @ hex2 (hw ! i)) [0..<length hw])"

section \<open>Host and port\<close>

definition index_of :: "char \<Rightarrow> string \<Rightarrow> nat option" where
  "index_of c s = (let n = length (takeWhile (\<lambda>x. x \<noteq> c) s) in if n < length s then Some n else None)"

definition last_index_of :: "char \<Rightarrow> string \<Rightarrow> nat option" where
  "last_index_of c s = map_option (\<lambda>n. length s - 1 - n) (index_of c (rev s))"

definition SplitHostPort :: "string \<Rightarrow> (string \<times> string) option" where
  "SplitHostPort s =
     (case last_index_of CHR '':'' s of
        None \<Rightarrow> None
      | Some i \<Rightarrow>
          if s ! 0 = CHR ''['' then
            (case index_of CHR '']'' s of
               None \<Rightarrow> None
             | Some e \<Rightarrow>
                 if e + 1 \<noteq> i \<or> CHR ''['' \<in> set (drop 1 s) \<or> CHR '']'' \<in> set (drop (e + 1) s) then None
                 else Some (gslice 1 e s, drop (i + 1) s))
          else if CHR '':'' \<in> set (take i s) \<or> CHR ''['' \<in> set s \<or> CHR '']'' \<in> set s then None
          else Some (take i s, drop (i + 1) s))"

definition JoinHostPort :: "string \<Rightarrow> string \<Rightarrow> string" where
  "JoinHostPort host port =
     (if CHR '':'' \<in> set host then CHR ''['' # host @ '']:'' @ port else host @ CHR '':'' # port)"

section \<open>Splitting what was joined\<close>

lemma takeWhile_until: "c \<notin> set a \<Longrightarrow> takeWhile (\<lambda>x. x \<noteq> c) (a @ c # b) = a"
  by (induction a) auto

lemma index_of_append: "c \<notin> set a \<Longrightarrow> index_of c (a @ c # b) = Some (length a)"
  by (simp add: index_of_def Let_def takeWhile_until)

lemma last_index_of_append: "c \<notin> set b \<Longrightarrow> last_index_of c (a @ c # b) = Some (length a)"
  by (simp add: last_index_of_def index_of_append)

lemma SplitHostPort_JoinHostPort:
  assumes "CHR '':'' \<notin> set port" "CHR ''['' \<notin> set port" "CHR '']'' \<notin> set port"
    and "CHR ''['' \<notin> set host" "CHR '']'' \<notin> set host"
  shows "SplitHostPort (JoinHostPort host port) = Some (host, port)"
proof (cases "CHR '':'' \<in> set host")
  case True
  have s: "JoinHostPort host port = (CHR ''['' # host @ [CHR '']'']) @ CHR '':'' # port"
    using True by (simp add: JoinHostPort_def)
  have "index_of CHR '']'' ((CHR ''['' # host @ [CHR '']'']) @ CHR '':'' # port) = Some (length host + 1)"
    using index_of_append [of "CHR '']''" "CHR ''['' # host" "CHR '':'' # port"] assms(5) by simp
  moreover have "last_index_of CHR '':'' ((CHR ''['' # host @ [CHR '']'']) @ CHR '':'' # port)
      = Some (length host + 2)"
    using last_index_of_append [OF assms(1), of "CHR ''['' # host @ [CHR '']'']"] by simp
  ultimately show ?thesis
    unfolding s using assms by (simp add: SplitHostPort_def gslice_def)
next
  case False
  have "host \<noteq> [] \<Longrightarrow> hd host \<noteq> CHR ''[''" using assms(4) by (cases host) auto
  then show ?thesis
    using False assms last_index_of_append [OF assms(1), of host]
    by (auto simp: SplitHostPort_def JoinHostPort_def nth_append hd_conv_nth)
qed

section \<open>The addresses \<open>net.ParseIP\<close> returns\<close>

definition octets :: "nat list \<Rightarrow> bool" where
  "octets q \<longleftrightarrow> (\<forall>x \<in> set q. x < 256)"

lemma ipv4_loop_octets:
  "ipv4_loop cs val digits start fields = Some q \<Longrightarrow> val < 256 \<Longrightarrow> octets fields \<Longrightarrow> length fields \<le> 3 \<Longrightarrow>
   length q = 4 \<and> octets q"
  by (induction cs val digits start fields rule: ipv4_loop.induct)
    (auto simp: octets_def Let_def split: if_splits)

lemma hex_run_bound: "hex_run s acc = (v, n, r) \<Longrightarrow> v < (acc + 1) * 16 ^ n"
proof (induction s arbitrary: acc v n)
  case (Cons c s)
  have digit: "d < 16" if "hex_digit c = Some d" for d
    using that by (auto simp: hex_digit_def is_digit_def split: if_splits)
  show ?case
  proof (cases "hex_digit c")
    case (Some d)
    then obtain m where m: "hex_run s (acc * 16 + d) = (v, m, r)" "n = m + 1"
      using Cons.prems by (auto split: prod.splits)
    have "v < (acc * 16 + d + 1) * 16 ^ m" using Cons.IH [OF m(1)] .
    also have "\<dots> \<le> ((acc + 1) * 16) * 16 ^ m" using digit [OF Some] by (intro mult_right_mono) simp_all
    finally show ?thesis by (simp add: m(2) algebra_simps)
  qed (use Cons.prems in simp)
qed simp

lemma ipv6_loop_octets:
  "ipv6_loop k s ip el = Some (ip', el') \<Longrightarrow> octets ip \<Longrightarrow> even (length ip) \<Longrightarrow> length ip \<le> 16 \<Longrightarrow>
   length ip' \<le> 16 \<and> octets ip'"
proof (induction k s ip el rule: ipv6_loop.induct)
  case (2 k s ip el)
  show ?case
  proof (cases "length ip \<ge> 16")
    case True
    then show ?thesis using "2.prems" by (auto split: if_splits)
  next
    case False
    obtain acc off r where h: "hex_run s 0 = (acc, off, r)" by (metis prod_cases3)
    have off: "0 < off" "off \<le> 4" using "2.prems"(1) False h by (auto split: if_splits)
    have "acc < 16 ^ off" using hex_run_bound [OF h] by simp
    also have "\<dots> \<le> 16 ^ 4" using off by (intro power_increasing) simp_all
    finally have "acc div 256 < 256" by (simp add: less_mult_imp_div_less)
    moreover have "length ip + 2 \<le> 16" using False "2.prems"(3) by presburger
    ultimately have step: "octets (ip @ [acc div 256, acc mod 256])" "length (ip @ [acc div 256, acc mod 256]) \<le> 16"
      "even (length (ip @ [acc div 256, acc mod 256]))"
      using "2.prems"(2,3) by (auto simp: octets_def)
    note IH = "2.IH" [OF False h [symmetric] refl]
    show ?thesis
    proof (cases "r \<noteq> [] \<and> hd r = CHR ''.''")
      case True
      then obtain q where q: "parse_ipv4 s = Some q" "ip' = ip @ q" "length ip + 4 \<le> 16"
        using "2.prems"(1) False h off by (auto split: if_splits option.splits)
      have "length q = 4 \<and> octets q"
        using q(1) unfolding parse_ipv4_def by (rule ipv4_loop_octets) (simp_all add: octets_def)
      then show ?thesis using q "2.prems"(2) by (auto simp: octets_def)
    next
      case nodot: False
      show ?thesis
      proof (cases r)
        case Nil
        then show ?thesis using "2.prems"(1) False h off step by (auto simp: Let_def)
      next
        case (Cons c r1)
        then show ?thesis
          using "2.prems"(1) False h off step nodot IH
          by (auto simp: Let_def split: if_splits)
      qed
    qed
  qed
qed simp

lemma parse_ipv6_octets: "parse_ipv6 s = Some ip \<Longrightarrow> length ip = 16 \<and> octets ip"
proof -
  assume p: "parse_ipv6 s = Some ip"
  have ex: "length ip = 16 \<and> octets ip"
    if e: "expand_ellipsis (q, el) = Some ip" and q: "length q \<le> 16" "octets q" for q el
    using that unfolding expand_ellipsis_def octets_def
    by (auto split: if_splits option.splits) (metis in_set_takeD, metis in_set_dropD)
  have via: "length ip = 16 \<and> octets ip"
    if b: "Option.bind (ipv6_loop 9 t [] el0) expand_ellipsis = Some ip" for t el0
  proof -
    obtain qe where qe: "ipv6_loop 9 t [] el0 = Some qe" "expand_ellipsis qe = Some ip"
      using b by (auto simp: bind_eq_Some_conv)
    obtain q el where "qe = (q, el)" by (cases qe)
    with qe have l: "ipv6_loop 9 t [] el0 = Some (q, el)" "expand_ellipsis (q, el) = Some ip" by simp_all
    with ipv6_loop_octets [OF l(1)] ex [OF l(2)] show ?thesis by (simp add: octets_def)
  qed
  have "length (replicate 16 0) = 16 \<and> octets (replicate 16 0)" by (simp add: octets_def)
  with p via show ?thesis
    unfolding parse_ipv6_def by (metis option.inject)
qed

lemma ParseIP_octets: "ParseIP s = Some ip \<Longrightarrow> length ip = 16 \<and> octets ip"
proof -
  assume p: "ParseIP s = Some ip"
  have "length q = 4 \<and> octets q" if "parse_ipv4 s = Some q" for q
    using that unfolding parse_ipv4_def by (rule ipv4_loop_octets) (simp_all add: octets_def)
  then show ?thesis
    using p parse_ipv6_octets by (auto simp: ParseIP_def v4_prefix_def octets_def split: option.splits if_splits)
qed

lemma bytes_of_octets: "octets q \<Longrightarrow> map unat (map word_of_nat q :: bytes) = q"
  by (induction q) (auto simp: octets_def unat_of_nat)

end
