(* ===== verification/Config.thy ===== *)
theory Config
  imports Location Net_Addr
begin

text \<open>
  The configuration, \<open>internal/config/config.go\<close>: \<open>Default\<close>, \<open>ParseUCI\<close> line by line with its sections,
  the choice of the profile, and \<open>Config.Validate\<close>. \<open>strconv.ParseFloat\<close> is the argument \<open>pf\<close>.
\<close>

section \<open>Data\<close>

record config =
  Enabled :: bool
  SocketPath :: string
  MaxConnections :: int
  MaxBodyBytes :: int
  MaxBufferedBytes :: int
  Profile :: profile
  ProfileSet :: bool
  profileLatSet :: bool
  profileLonSet :: bool
  ListenAddr :: string
  ListenPort :: int
  ProxyPort :: int
  UpstreamSocks5 :: string
  DeviceMAC :: string
  DeviceMACs :: "string list"
  DeviceIPv4 :: string
  DeviceIPv6 :: string
  DeviceIPs :: "string list"
  IPv6Block :: bool
  WLocHosts :: "string list"

record parsed_profile =
  p_section :: string
  p_profile :: profile
  p_active :: bool
  latSet :: bool
  lonSet :: bool

record parsed_device =
  d_enabled :: bool
  d_mac :: string
  d_ips :: "string list"

text \<open>The zero value of \<open>applewloc.Profile\<close>.\<close>

definition zero_profile :: profile where
  "zero_profile = \<lparr>Latitude = f_int 0, Longitude = f_int 0, Altitude = f_int 0, HorizontalAccuracy = f_int 0,
     VerticalAccuracy = f_int 0, RandomRadius = f_int 0, MotionType = None, MotionConfidence = None,
     InsertMissingLocation = False\<rparr>"

definition Default :: config where
  "Default = \<lparr>Enabled = False, SocketPath = ''/var/run/locspoofd/control.sock'', MaxConnections = 32,
     MaxBodyBytes = 1048576, MaxBufferedBytes = 16777216, Profile = zero_profile, ProfileSet = False,
     profileLatSet = False, profileLonSet = False, ListenAddr = ''0.0.0.0'', ListenPort = 10443,
     ProxyPort = 10445, UpstreamSocks5 = '''', DeviceMAC = '''', DeviceMACs = [], DeviceIPv4 = '''',
     DeviceIPv6 = '''', DeviceIPs = [], IPv6Block = False, WLocHosts = []\<rparr>"

section \<open>Validation\<close>

datatype validate_error =
    InvalidSocketPath | ListenAddrFixed | PortsFixed | InvalidListenAddr | InvalidMAC string
  | DuplicateMAC | InvalidDeviceIPv4 | InvalidDeviceIPv6 | InvalidDeviceIPs | DuplicateIP | DeviceRequired
  | InvalidWLocHost | HostOutsideAllowlist | InvalidUpstreamSocks5 | InvalidMaxConnections
  | InvalidMaxBodyBytes | InvalidMaxBufferedBytes | ProfileNeedsCoordinates | ProfileInvalid wloc_error

definition valid_mac :: "string \<Rightarrow> bool" where
  "valid_mac v = (case ParseMAC v of None \<Rightarrow> False | Some mac \<Rightarrow> length mac = 6)"

text \<open>\<open>m, _ := net.ParseMAC(value)\<close> and the key under which a MAC is remembered.\<close>

definition mac_key :: "string \<Rightarrow> string" where
  "mac_key v = ToLower (case ParseMAC v of None \<Rightarrow> '''' | Some mac \<Rightarrow> MAC_String mac)"

fun validate_macs :: "string list \<Rightarrow> string set \<Rightarrow> validate_error + string set" where
  "validate_macs [] macSeen = Inr macSeen"
| "validate_macs (mac # rest) macSeen =
     (if \<not> valid_mac mac then Inl (InvalidMAC ''device_macs'')
      else if mac_key mac \<in> macSeen then Inl DuplicateMAC
      else validate_macs rest (insert (mac_key mac) macSeen))"

fun validate_ips :: "string list \<Rightarrow> string set \<Rightarrow> validate_error + string set" where
  "validate_ips [] ipSeen = Inr ipSeen"
| "validate_ips (v # rest) ipSeen =
     (case ParseIP v of
        None \<Rightarrow> Inl InvalidDeviceIPs
      | Some ip \<Rightarrow>
          if IP_String ip \<in> ipSeen then Inl DuplicateIP
          else validate_ips rest (insert (IP_String ip) ipSeen))"

definition seen_mac :: "config \<Rightarrow> string set" where
  "seen_mac c = (if DeviceMAC c \<noteq> '''' then {mac_key (DeviceMAC c)} else {})"

definition seen_ipv4 :: "config \<Rightarrow> validate_error + string set" where
  "seen_ipv4 c =
     (if DeviceIPv4 c = '''' then Inr {}
      else case Option.bind (ParseIP (DeviceIPv4 c)) To4 of
        None \<Rightarrow> Inl InvalidDeviceIPv4
      | Some ip4 \<Rightarrow> Inr {IP_String ip4})"

definition seen_ipv6 :: "config \<Rightarrow> string set \<Rightarrow> validate_error + string set" where
  "seen_ipv6 c ipSeen =
     (if DeviceIPv6 c = '''' then Inr ipSeen
      else case ParseIP (DeviceIPv6 c) of
        None \<Rightarrow> Inl InvalidDeviceIPv6
      | Some ip \<Rightarrow> if To4 ip \<noteq> None then Inl InvalidDeviceIPv6 else Inr (insert (IP_String ip) ipSeen))"

definition compiled_hosts :: "string list" where
  "compiled_hosts = [''gsp-ssl.ls.apple.com'', ''gspe1-ssl.ls.apple.com'', ''gs-loc.apple.com'',
     ''gs-loc-cn.apple.com'', ''bluedot.is.autonavi.com'', ''bluedot.is.autonavi.com.gds.alibabadns.com'']"

fun validate_hosts :: "string list \<Rightarrow> validate_error option" where
  "validate_hosts [] = None"
| "validate_hosts (h # rest) =
     (if ContainsAny h [CHR '' '', CHR ''/'', CHR 0x09] \<or> CHR ''.'' \<notin> set h then Some InvalidWLocHost
      else if ToLower (TrimSuffix h ''.'') \<notin> set compiled_hosts then Some HostOutsideAllowlist
      else validate_hosts rest)"

definition validate_socks5 :: "string \<Rightarrow> bool" where
  "validate_socks5 endpoint =
     (case SplitHostPort endpoint of
        None \<Rightarrow> False
      | Some (host, port) \<Rightarrow>
          (case Atoi port of None \<Rightarrow> False | Some p \<Rightarrow> host \<noteq> '''' \<and> 1 \<le> p \<and> p \<le> 65535))"

text \<open>The checks that follow the devices.\<close>

definition validate_rest :: "config \<Rightarrow> validate_error option" where
  "validate_rest c =
     (case validate_hosts (WLocHosts c) of
        Some e \<Rightarrow> Some e
      | None \<Rightarrow>
          if UpstreamSocks5 c \<noteq> '''' \<and> \<not> validate_socks5 (UpstreamSocks5 c) then Some InvalidUpstreamSocks5
          else if MaxConnections c < 1 \<or> MaxConnections c > 1024 then Some InvalidMaxConnections
          else if MaxBodyBytes c < 1024 \<or> MaxBodyBytes c > 67108864 then Some InvalidMaxBodyBytes
          else if MaxBufferedBytes c < 4 * (MaxBodyBytes c + 1) \<or> MaxBufferedBytes c > 268435456
          then Some InvalidMaxBufferedBytes
          else if ProfileSet c then
            (if \<not> profileLatSet c \<or> \<not> profileLonSet c then Some ProfileNeedsCoordinates
             else map_option ProfileInvalid (Profile_Validate (Profile c)))
          else None)"

definition validate_devices :: "config \<Rightarrow> validate_error + string set \<times> string set" where
  "validate_devices c =
     (if DeviceMAC c \<noteq> '''' \<and> \<not> valid_mac (DeviceMAC c) then Inl (InvalidMAC ''device_mac'')
      else case validate_macs (DeviceMACs c) (seen_mac c) of
        Inl e \<Rightarrow> Inl e
      | Inr macSeen \<Rightarrow>
          (case seen_ipv4 c of
             Inl e \<Rightarrow> Inl e
           | Inr ipSeen \<Rightarrow>
               (case seen_ipv6 c ipSeen of
                  Inl e \<Rightarrow> Inl e
                | Inr ipSeen \<Rightarrow>
                    (case validate_ips (DeviceIPs c) ipSeen of
                       Inl e \<Rightarrow> Inl e
                     | Inr ipSeen \<Rightarrow> Inr (macSeen, ipSeen)))))"

definition Validate :: "config \<Rightarrow> validate_error option" where
  "Validate c =
     (if SocketPath c = '''' \<or> length (SocketPath c) > 100 then Some InvalidSocketPath
      else if ListenAddr c \<noteq> ''0.0.0.0'' then Some ListenAddrFixed
      else if ListenPort c \<noteq> 10443 \<or> ProxyPort c \<noteq> 10445 then Some PortsFixed
      else if ListenAddr c = '''' \<or> ParseIP (ListenAddr c) = None then Some InvalidListenAddr
      else case validate_devices c of
        Inl e \<Rightarrow> Some e
      | Inr (macSeen, ipSeen) \<Rightarrow>
          if Enabled c \<and> macSeen = {} \<and> ipSeen = {} then Some DeviceRequired
          else validate_rest c)"

section \<open>Lines\<close>

datatype line_error = MalformedOption | ExpectedKeyValue | BadValue

definition ParseBool :: "string \<Rightarrow> bool option" where
  "ParseBool s =
     (if s \<in> {''1'', ''t'', ''T'', ''TRUE'', ''true'', ''True''} then Some True
      else if s \<in> {''0'', ''f'', ''F'', ''FALSE'', ''false'', ''False''} then Some False else None)"

text \<open>The variables of \<open>ParseUCI\<close>.\<close>

record parser =
  cfg :: config
  sec_name :: string
  sec_type :: string
  uciMode :: bool
  profiles :: "parsed_profile list"
  devices :: "parsed_device list"
  currentProfile :: "parsed_profile option"
  currentDevice :: "parsed_device option"

definition start_parser :: parser where
  "start_parser = \<lparr>cfg = Default, sec_name = '''', sec_type = '''', uciMode = False, profiles = [], devices = [],
     currentProfile = None, currentDevice = None\<rparr>"

definition finishSection :: "parser \<Rightarrow> parser" where
  "finishSection ps =
     (let ps = (case currentProfile ps of None \<Rightarrow> ps
                | Some p \<Rightarrow> ps\<lparr>profiles := profiles ps @ [p], currentProfile := None\<rparr>)
      in case currentDevice ps of None \<Rightarrow> ps
         | Some d \<Rightarrow> ps\<lparr>devices := devices ps @ [d], currentDevice := None\<rparr>)"

definition unquote :: "string \<Rightarrow> string" where
  "unquote s = trim_set [CHR 0x27, CHR 0x22] s"

definition new_profile :: "string \<Rightarrow> parsed_profile" where
  "new_profile sec = \<lparr>p_section = sec, p_profile = zero_profile, p_active = False, latSet = False, lonSet = False\<rparr>"

definition config_line :: "string \<Rightarrow> parser \<Rightarrow> parser" where
  "config_line line ps =
     (let ps = finishSection ps;
          parts = Fields line;
          ty = (if length parts \<ge> 2 then parts ! 1 else '''');
          sec = (if length parts \<ge> 3 then unquote (parts ! 2) else '''');
          ps = ps\<lparr>uciMode := True, sec_type := ty, sec_name := sec\<rparr>
      in if ty = ''profile'' then ps\<lparr>currentProfile := Some (new_profile sec)\<rparr>
         else if ty = ''device''
         then ps\<lparr>currentDevice := Some \<lparr>d_enabled = True, d_mac = '''', d_ips = []\<rparr>\<rparr>
         else ps)"

definition main_section :: "parser \<Rightarrow> bool" where
  "main_section ps \<longleftrightarrow> sec_type ps = ''ios_location_spoofer'' \<and> sec_name ps = ''main''"

definition list_line :: "string \<Rightarrow> parser \<Rightarrow> parser" where
  "list_line line ps =
     (let parts = Fields line; c = cfg ps in
      if length parts \<ge> 3 \<and> main_section ps
      then let v = unquote (parts ! 2) in
        (if parts ! 1 = ''wloc_host'' then ps\<lparr>cfg := c\<lparr>WLocHosts := WLocHosts c @ [v]\<rparr>\<rparr>
         else if parts ! 1 = ''device_macs'' then ps\<lparr>cfg := c\<lparr>DeviceMACs := DeviceMACs c @ [v]\<rparr>\<rparr>
         else if parts ! 1 = ''device_ips'' then ps\<lparr>cfg := c\<lparr>DeviceIPs := DeviceIPs c @ [v]\<rparr>\<rparr>
         else ps)
      else if length parts \<ge> 3 \<and> sec_type ps = ''device'' \<and> parts ! 1 = ''ips''
      then (case currentDevice ps of
          None \<Rightarrow> ps
        | Some d \<Rightarrow> ps\<lparr>currentDevice := Some (d\<lparr>d_ips := d_ips d @ [unquote (parts ! 2)]\<rparr>)\<rparr>)
      else ps)"

definition key_value :: "string \<Rightarrow> line_error + string \<times> string" where
  "key_value line =
     (if HasPrefix line ''option '' then
        (let parts = Fields line in
         if length parts < 3 then Inl MalformedOption else Inr (parts ! 1, unquote (parts ! 2)))
      else case split2_on CHR ''='' line of
        [k, v] \<Rightarrow> Inr (TrimSpace k, unquote (TrimSpace v))
      | _ \<Rightarrow> Inl ExpectedKeyValue)"

fun set_float :: "string \<Rightarrow> float64 \<Rightarrow> parsed_profile \<Rightarrow> parsed_profile" where
  "set_float k x p =
     (let q = p_profile p in
      if k = ''latitude'' then p\<lparr>p_profile := q\<lparr>Latitude := x\<rparr>, latSet := True\<rparr>
      else if k = ''longitude'' then p\<lparr>p_profile := q\<lparr>Longitude := x\<rparr>, lonSet := True\<rparr>
      else if k = ''altitude'' then p\<lparr>p_profile := q\<lparr>Altitude := x\<rparr>\<rparr>
      else if k = ''horizontal_accuracy'' then p\<lparr>p_profile := q\<lparr>HorizontalAccuracy := x\<rparr>\<rparr>
      else if k = ''vertical_accuracy'' then p\<lparr>p_profile := q\<lparr>VerticalAccuracy := x\<rparr>\<rparr>
      else if k = ''random_radius'' then p\<lparr>p_profile := q\<lparr>RandomRadius := x\<rparr>\<rparr>
      else p)"

definition float_keys :: "string set" where
  "float_keys = {''latitude'', ''longitude'', ''altitude'', ''horizontal_accuracy'', ''vertical_accuracy'',
     ''random_radius''}"

definition profile_option ::
  "(string \<Rightarrow> float64 option) \<Rightarrow> string \<Rightarrow> string \<Rightarrow> parsed_profile \<Rightarrow> line_error + parsed_profile"
where
  "profile_option pf k v p =
     (if k = ''active'' then
        (case ParseBool v of None \<Rightarrow> Inl BadValue | Some b \<Rightarrow> Inr (p\<lparr>p_active := b\<rparr>))
      else if k \<in> float_keys then
        (if v = '''' then Inr p
         else case pf v of None \<Rightarrow> Inl BadValue | Some x \<Rightarrow> Inr (set_float k x p))
      else Inr p)"

definition device_option :: "string \<Rightarrow> string \<Rightarrow> parsed_device \<Rightarrow> line_error + parsed_device" where
  "device_option k v d =
     (if k = ''enabled'' then
        (case ParseBool v of None \<Rightarrow> Inl BadValue | Some b \<Rightarrow> Inr (d\<lparr>d_enabled := b\<rparr>))
      else if k = ''mac'' then Inr (d\<lparr>d_mac := v\<rparr>)
      else if k = ''ip'' \<and> v \<noteq> '''' then Inr (d\<lparr>d_ips := d_ips d @ [v]\<rparr>)
      else Inr d)"

text \<open>The options of the main section, and of the key/value form.\<close>

definition set_parsed :: "('a \<Rightarrow> config) \<Rightarrow> 'a option \<Rightarrow> line_error + config" where
  "set_parsed upd v = (case v of None \<Rightarrow> Inl BadValue | Some x \<Rightarrow> Inr (upd x))"

definition main_option :: "string \<Rightarrow> string \<Rightarrow> config \<Rightarrow> line_error + config" where
  "main_option k v c =
     (if k = ''enabled'' then set_parsed (\<lambda>b. c\<lparr>Enabled := b\<rparr>) (ParseBool v)
      else if k = ''socket_path'' then Inr (c\<lparr>SocketPath := v\<rparr>)
      else if k = ''max_connections'' then set_parsed (\<lambda>n. c\<lparr>MaxConnections := n\<rparr>) (Atoi v)
      else if k = ''max_body_bytes'' then set_parsed (\<lambda>n. c\<lparr>MaxBodyBytes := n\<rparr>) (Atoi v)
      else if k = ''max_buffered_bytes'' then set_parsed (\<lambda>n. c\<lparr>MaxBufferedBytes := n\<rparr>) (Atoi v)
      else if k = ''listen_addr'' then Inr (c\<lparr>ListenAddr := v\<rparr>)
      else if k = ''listen_port'' then set_parsed (\<lambda>n. c\<lparr>ListenPort := n\<rparr>) (Atoi v)
      else if k = ''proxy_port'' then set_parsed (\<lambda>n. c\<lparr>ProxyPort := n\<rparr>) (Atoi v)
      else if k = ''upstream_socks5'' then Inr (c\<lparr>UpstreamSocks5 := v\<rparr>)
      else if k = ''device_mac'' then Inr (c\<lparr>DeviceMAC := v\<rparr>)
      else if k = ''device_ip'' then Inr (c\<lparr>DeviceIPv4 := v\<rparr>)
      else if k = ''device_ipv4'' then Inr (c\<lparr>DeviceIPv4 := v\<rparr>)
      else if k = ''device_ipv6'' then Inr (c\<lparr>DeviceIPv6 := v\<rparr>)
      else if k = ''ipv6_block'' then set_parsed (\<lambda>b. c\<lparr>IPv6Block := b\<rparr>) (ParseBool v)
      else Inr c)"

text \<open>An option goes to the open profile, the open device, or the main configuration.\<close>

definition option_line :: "(string \<Rightarrow> float64 option) \<Rightarrow> string \<times> string \<Rightarrow> parser \<Rightarrow> line_error + parser" where
  "option_line pf kv ps =
     (let (k, v) = kv in
      if uciMode ps \<and> sec_type ps = ''profile'' \<and> currentProfile ps \<noteq> None
      then map_sum id (\<lambda>p. ps\<lparr>currentProfile := Some p\<rparr>) (profile_option pf k v (the (currentProfile ps)))
      else if uciMode ps \<and> sec_type ps = ''device'' \<and> currentDevice ps \<noteq> None
      then map_sum id (\<lambda>d. ps\<lparr>currentDevice := Some d\<rparr>) (device_option k v (the (currentDevice ps)))
      else if uciMode ps \<and> \<not> main_section ps then Inr ps
      else map_sum id (\<lambda>c. ps\<lparr>cfg := c\<rparr>) (main_option k v (cfg ps)))"

definition strip_line :: "string \<Rightarrow> string" where
  "strip_line s = TrimSpace (hd (split2_on CHR ''#'' s))"

definition parse_line :: "(string \<Rightarrow> float64 option) \<Rightarrow> string \<Rightarrow> parser \<Rightarrow> line_error + parser" where
  "parse_line pf s ps =
     (let line = strip_line s in
      if line = '''' then Inr ps
      else if HasPrefix line ''config '' then Inr (config_line line ps)
      else if HasPrefix line ''list '' then Inr (list_line line ps)
      else case key_value line of Inl e \<Rightarrow> Inl e | Inr kv \<Rightarrow> option_line pf kv ps)"

datatype config_error =
    LineError nat line_error | ProfileIncomplete | ActiveIncomplete | MultipleActive
  | Invalid validate_error

fun parse_lines ::
  "(string \<Rightarrow> float64 option) \<Rightarrow> nat \<Rightarrow> string list \<Rightarrow> parser \<Rightarrow> config_error + parser"
where
  "parse_lines pf n [] ps = Inr ps"
| "parse_lines pf n (s # rest) ps =
     (case parse_line pf s ps of
        Inl e \<Rightarrow> Inl (LineError (n + 1) e)
      | Inr ps \<Rightarrow> parse_lines pf (n + 1) rest ps)"

section \<open>Devices and profiles\<close>

definition add_device :: "parsed_device \<Rightarrow> config \<Rightarrow> config" where
  "add_device d c =
     (if \<not> d_enabled d then c
      else let c = (if d_mac d \<noteq> '''' then c\<lparr>DeviceMACs := DeviceMACs c @ [d_mac d]\<rparr> else c)
           in c\<lparr>DeviceIPs := DeviceIPs c @ d_ips d\<rparr>)"

record selection =
  activeProfiles :: nat
  validProfiles :: nat
  legacyProfile :: "nat option"

definition use_profile :: "profile \<Rightarrow> config \<Rightarrow> config" where
  "use_profile p c = c\<lparr>Profile := p, ProfileSet := True, profileLatSet := True, profileLonSet := True\<rparr>"

fun scan_profiles ::
  "nat \<Rightarrow> parsed_profile list \<Rightarrow> selection \<times> config \<Rightarrow> config_error + selection \<times> config"
where
  "scan_profiles i [] sc = Inr sc"
| "scan_profiles i (p # rest) (sel, c) =
     (if latSet p \<noteq> lonSet p then Inl ProfileIncomplete
      else case (if latSet p then Profile_Validate (p_profile p) else None) of
        Some e \<Rightarrow> Inl (Invalid (ProfileInvalid e))
      | None \<Rightarrow>
          let sel = (if latSet p
                     then sel\<lparr>validProfiles := validProfiles sel + 1,
                              legacyProfile := (if p_section p = ''location'' then Some i else legacyProfile sel)\<rparr>
                     else sel)
          in if p_active p then
               (if \<not> latSet p then Inl ActiveIncomplete
                else scan_profiles (i + 1) rest
                  (sel\<lparr>activeProfiles := activeProfiles sel + 1\<rparr>, use_profile (p_profile p) c))
             else scan_profiles (i + 1) rest (sel, c))"

definition choose_profile :: "parsed_profile list \<Rightarrow> selection \<Rightarrow> config \<Rightarrow> config" where
  "choose_profile ps sel c =
     (if activeProfiles sel = 0 then
        (if validProfiles sel = 1 then
           (case find latSet ps of None \<Rightarrow> c | Some p \<Rightarrow> use_profile (p_profile p) c)
         else case legacyProfile sel of
           None \<Rightarrow> c
         | Some i \<Rightarrow> use_profile (p_profile (ps ! i)) c)
      else c)"

definition finish :: "parser \<Rightarrow> config_error + config" where
  "finish ps =
     (let ps = finishSection ps;
          c = fold add_device (devices ps) (cfg ps)
      in case scan_profiles 0 (profiles ps) (\<lparr>activeProfiles = 0, validProfiles = 0, legacyProfile = None\<rparr>, c) of
        Inl e \<Rightarrow> Inl e
      | Inr (sel, c) \<Rightarrow>
          if activeProfiles sel > 1 then Inl MultipleActive
          else let c = choose_profile (profiles ps) sel c in
            (case Validate c of None \<Rightarrow> Inr c | Some e \<Rightarrow> Inl (Invalid e)))"

definition ParseUCI :: "(string \<Rightarrow> float64 option) \<Rightarrow> string \<Rightarrow> config_error + config" where
  "ParseUCI pf data =
     (case parse_lines pf 0 (split_on CHR 0x0A data) start_parser of
        Inl e \<Rightarrow> Inl e
      | Inr ps \<Rightarrow> finish ps)"

text \<open>\<open>Load\<close>: reading the file may fail.\<close>

definition Load :: "(string \<Rightarrow> float64 option) \<Rightarrow> string option \<Rightarrow> config_error option + config" where
  "Load pf file_content =
     (case file_content of None \<Rightarrow> Inl None | Some b \<Rightarrow> map_sum Some id (ParseUCI pf b))"

section \<open>What validation accepts\<close>

definition ip_key :: "string \<Rightarrow> string" where
  "ip_key v = (case ParseIP v of None \<Rightarrow> '''' | Some ip \<Rightarrow> IP_String ip)"

lemma validate_macs_Inr:
  "validate_macs ms seen = Inr s \<longleftrightarrow>
     (\<forall>m \<in> set ms. valid_mac m) \<and> distinct (map mac_key ms) \<and> set (map mac_key ms) \<inter> seen = {}
     \<and> s = seen \<union> set (map mac_key ms)"
  by (induction ms seen rule: validate_macs.induct) auto

lemma validate_ips_Inr:
  "validate_ips vs seen = Inr s \<longleftrightarrow>
     (\<forall>v \<in> set vs. ParseIP v \<noteq> None) \<and> distinct (map ip_key vs) \<and> set (map ip_key vs) \<inter> seen = {}
     \<and> s = seen \<union> set (map ip_key vs)"
  by (induction vs seen rule: validate_ips.induct) (auto simp: ip_key_def split: option.splits)

lemma validate_hosts_None:
  "validate_hosts hs = None \<longleftrightarrow>
     (\<forall>h \<in> set hs. \<not> ContainsAny h [CHR '' '', CHR ''/'', CHR 0x09] \<and> CHR ''.'' \<in> set h
        \<and> ToLower (TrimSuffix h ''.'') \<in> set compiled_hosts)"
  by (induction hs) auto

lemma IP_String_To4: "To4 ip = Some q \<Longrightarrow> IP_String q = IP_String ip"
  by (auto simp: IP_String_def To4_def v4_prefix_def split: if_splits)

text \<open>The devices a configuration names, singly and in its lists.\<close>

definition single_macs :: "config \<Rightarrow> string list" where
  "single_macs c = (if DeviceMAC c = '''' then [] else [DeviceMAC c])"

definition single_ips :: "config \<Rightarrow> string list" where
  "single_ips c = (if DeviceIPv4 c = '''' then [] else [DeviceIPv4 c]) @ (if DeviceIPv6 c = '''' then [] else [DeviceIPv6 c])"

definition devices_ok :: "config \<Rightarrow> bool" where
  "devices_ok c \<longleftrightarrow>
     (\<forall>m \<in> set (single_macs c @ DeviceMACs c). valid_mac m)
     \<and> distinct (map mac_key (single_macs c @ DeviceMACs c))
     \<and> (DeviceIPv4 c \<noteq> '''' \<longrightarrow> (\<exists>ip. ParseIP (DeviceIPv4 c) = Some ip \<and> To4 ip \<noteq> None))
     \<and> (DeviceIPv6 c \<noteq> '''' \<longrightarrow> (\<exists>ip. ParseIP (DeviceIPv6 c) = Some ip \<and> To4 ip = None))
     \<and> (\<forall>v \<in> set (DeviceIPs c). ParseIP v \<noteq> None)
     \<and> distinct (map ip_key (DeviceIPs c))
     \<and> ip_key ` set (DeviceIPs c) \<inter> ip_key ` set (single_ips c) = {}"

lemma seen_ipv4_Inr:
  "seen_ipv4 c = Inr s \<longleftrightarrow>
     (DeviceIPv4 c \<noteq> '''' \<longrightarrow> (\<exists>ip. ParseIP (DeviceIPv4 c) = Some ip \<and> To4 ip \<noteq> None))
     \<and> s = (if DeviceIPv4 c = '''' then {} else {ip_key (DeviceIPv4 c)})"
  by (auto simp: seen_ipv4_def ip_key_def IP_String_To4 split: option.splits bind_splits)

lemma seen_ipv6_Inr:
  "seen_ipv6 c t = Inr s \<longleftrightarrow>
     (DeviceIPv6 c \<noteq> '''' \<longrightarrow> (\<exists>ip. ParseIP (DeviceIPv6 c) = Some ip \<and> To4 ip = None))
     \<and> s = (if DeviceIPv6 c = '''' then t else insert (ip_key (DeviceIPv6 c)) t)"
  by (auto simp: seen_ipv6_def ip_key_def split: option.splits)

lemma validate_devices_Inr:
  "validate_devices c = Inr (m, i) \<longleftrightarrow>
     devices_ok c \<and> m = set (map mac_key (single_macs c @ DeviceMACs c))
     \<and> i = set (map ip_key (single_ips c @ DeviceIPs c))"
proof -
  have "validate_devices c = Inr (m, i) \<longleftrightarrow> (DeviceMAC c \<noteq> '''' \<longrightarrow> valid_mac (DeviceMAC c)) \<and>
      validate_macs (DeviceMACs c) (seen_mac c) = Inr m \<and>
      (\<exists>s t. seen_ipv4 c = Inr s \<and> seen_ipv6 c s = Inr t \<and> validate_ips (DeviceIPs c) t = Inr i)"
    by (auto simp: validate_devices_def split: sum.splits)
  also have "\<dots> \<longleftrightarrow> devices_ok c \<and> m = set (map mac_key (single_macs c @ DeviceMACs c))
      \<and> i = set (map ip_key (single_ips c @ DeviceIPs c))"
    unfolding validate_macs_Inr validate_ips_Inr seen_ipv4_Inr seen_ipv6_Inr
    by (auto simp: devices_ok_def single_macs_def single_ips_def seen_mac_def split: if_splits)
  finally show ?thesis .
qed

definition limits_ok :: "config \<Rightarrow> bool" where
  "limits_ok c \<longleftrightarrow> 1 \<le> MaxConnections c \<and> MaxConnections c \<le> 1024 \<and> 1024 \<le> MaxBodyBytes c
     \<and> 4 * (MaxBodyBytes c + 1) \<le> MaxBufferedBytes c \<and> MaxBufferedBytes c \<le> 2 ^ 28"

definition valid_config :: "config \<Rightarrow> bool" where
  "valid_config c \<longleftrightarrow>
     SocketPath c \<noteq> '''' \<and> length (SocketPath c) \<le> 100 \<and> ListenAddr c = ''0.0.0.0''
     \<and> ListenPort c = 10443 \<and> ProxyPort c = 10445
     \<and> devices_ok c \<and> (Enabled c \<longrightarrow> single_macs c @ DeviceMACs c @ single_ips c @ DeviceIPs c \<noteq> [])
     \<and> (\<forall>h \<in> set (WLocHosts c). \<not> ContainsAny h [CHR '' '', CHR ''/'', CHR 0x09] \<and> CHR ''.'' \<in> set h
          \<and> ToLower (TrimSuffix h ''.'') \<in> set compiled_hosts)
     \<and> (UpstreamSocks5 c \<noteq> '''' \<longrightarrow> validate_socks5 (UpstreamSocks5 c))
     \<and> limits_ok c
     \<and> (ProfileSet c \<longrightarrow> profileLatSet c \<and> profileLonSet c \<and> Profile_Validate (Profile c) = None)"

lemma any_address: "ParseIP ''0.0.0.0'' = Some (v4_prefix @ [0, 0, 0, 0])"
  by code_simp

lemma validate_rest_None:
  "validate_rest c = None \<longleftrightarrow>
     (\<forall>h \<in> set (WLocHosts c). \<not> ContainsAny h [CHR '' '', CHR ''/'', CHR 0x09] \<and> CHR ''.'' \<in> set h
        \<and> ToLower (TrimSuffix h ''.'') \<in> set compiled_hosts)
     \<and> (UpstreamSocks5 c \<noteq> '''' \<longrightarrow> validate_socks5 (UpstreamSocks5 c))
     \<and> limits_ok c
     \<and> (ProfileSet c \<longrightarrow> profileLatSet c \<and> profileLonSet c \<and> Profile_Validate (Profile c) = None)"
  unfolding validate_hosts_None [symmetric] limits_ok_def
  by (auto simp: validate_rest_def split: option.splits)

lemma Validate_None: "Validate c = None \<longleftrightarrow> valid_config c"
proof -
  have "Validate c = None \<longleftrightarrow>
      SocketPath c \<noteq> '''' \<and> length (SocketPath c) \<le> 100 \<and> ListenAddr c = ''0.0.0.0''
      \<and> ListenPort c = 10443 \<and> ProxyPort c = 10445
      \<and> (\<exists>m i. validate_devices c = Inr (m, i) \<and> (Enabled c \<longrightarrow> m \<noteq> {} \<or> i \<noteq> {}))
      \<and> validate_rest c = None"
    by (auto simp: Validate_def any_address split: sum.splits)
  then show ?thesis
    unfolding validate_devices_Inr validate_rest_None valid_config_def by auto
qed

text \<open>C24: the configurations that start the gateway are exactly these: the fixed listener, a socket path of
  1 to 100 bytes, well-formed device addresses that are pairwise different after normalisation and,
  when enabled, at least one of them, hosts from the compiled leaf list, a well-formed SOCKS5
  endpoint, limits within their bounds with room for four bodies and their probe bytes, and a valid
  profile with both coordinates when one is set.\<close>

theorem Validate_exact: "Validate c = None \<longleftrightarrow> valid_config c"
  by (rule Validate_None)

text \<open>A body limit of 64 MiB passes its own check but can never be configured.\<close>

lemma body_limit_reach:
  "valid_config c \<Longrightarrow> MaxBodyBytes c < 67108864"
  by (simp add: valid_config_def limits_ok_def)

section \<open>Which profile is used\<close>

text \<open>The parser never sets a profile in the configuration it builds.\<close>

lemma set_parsed_keeps:
  "(\<And>x. P (upd x)) \<Longrightarrow> set_parsed upd v = Inr c' \<Longrightarrow> P c'"
  by (auto simp: set_parsed_def split: option.splits)

lemma main_option_keeps: "main_option k v c = Inr c' \<Longrightarrow> ProfileSet c' = ProfileSet c"
  by (auto simp: main_option_def set_parsed_def split: if_splits option.splits)

lemma finishSection_keeps [keep_simps]: "cfg (finishSection ps) = cfg ps"
  by (simp add: finishSection_def Let_def split: option.splits)

lemma parse_line_keeps: "parse_line pf s ps = Inr ps' \<Longrightarrow> ProfileSet (cfg ps') = ProfileSet (cfg ps)"
  by (auto simp: parse_line_def option_line_def config_line_def list_line_def Let_def keep_simps main_option_keeps
      map_sum_def split: if_splits sum.splits option.splits prod.splits)

lemma parse_lines_keeps: "parse_lines pf n ls ps = Inr ps' \<Longrightarrow> ProfileSet (cfg ps') = ProfileSet (cfg ps)"
  by (induction ls arbitrary: n ps) (auto dest: parse_line_keeps split: sum.splits)

lemma add_devices_keep: "ProfileSet (fold add_device ds c) = ProfileSet c"
  by (induction ds arbitrary: c) (simp_all add: add_device_def Let_def)

definition located :: "parsed_profile \<Rightarrow> bool" where
  "located p \<longleftrightarrow> latSet p \<and> p_section p = ''location''"

lemma scan_profiles_Inr:
  assumes "scan_profiles i ps (sel, c) = Inr (sel', c')"
  shows "\<forall>p \<in> set ps. latSet p = lonSet p \<and> (latSet p \<longrightarrow> Profile_Validate (p_profile p) = None) \<and> (p_active p \<longrightarrow> latSet p)"
    and "activeProfiles sel' = activeProfiles sel + length (filter p_active ps)"
    and "validProfiles sel' = validProfiles sel + length (filter latSet ps)"
    and "c' = fold (\<lambda>p. use_profile (p_profile p)) (filter p_active ps) c"
    and "legacyProfile sel' =
      fold (\<lambda>q l. if located (snd q) then Some (fst q) else l) (enumerate i ps) (legacyProfile sel)"
proof -
  have "(\<forall>p \<in> set ps. latSet p = lonSet p \<and> (latSet p \<longrightarrow> Profile_Validate (p_profile p) = None) \<and> (p_active p \<longrightarrow> latSet p))
    \<and> activeProfiles sel' = activeProfiles sel + length (filter p_active ps)
    \<and> validProfiles sel' = validProfiles sel + length (filter latSet ps)
    \<and> c' = fold (\<lambda>p. use_profile (p_profile p)) (filter p_active ps) c
    \<and> legacyProfile sel' =
      fold (\<lambda>q l. if located (snd q) then Some (fst q) else l) (enumerate i ps) (legacyProfile sel)"
    using assms
  proof (induction ps arbitrary: i sel c)
    case (Cons p ps)
    define sel1 where "sel1 = (if latSet p
       then sel\<lparr>validProfiles := validProfiles sel + 1,
                legacyProfile := (if p_section p = ''location'' then Some i else legacyProfile sel)\<rparr>
       else sel)"
    define sel2 where "sel2 = (if p_active p then sel1\<lparr>activeProfiles := activeProfiles sel1 + 1\<rparr> else sel1)"
    define c1 where "c1 = (if p_active p then use_profile (p_profile p) c else c)"
    have "latSet p = lonSet p" "latSet p \<longrightarrow> Profile_Validate (p_profile p) = None" "p_active p \<longrightarrow> latSet p"
      and run: "scan_profiles (Suc i) ps (sel2, c1) = Inr (sel', c')"
      using Cons.prems by (auto simp: sel1_def sel2_def c1_def Let_def split: if_splits option.splits)
    with Cons.IH [OF run] show ?case
      unfolding sel2_def c1_def
      by (cases "p_active p"; cases "latSet p"; cases "p_section p = ''location''") (simp_all add: sel1_def located_def)
  qed simp
  then show "\<forall>p \<in> set ps. latSet p = lonSet p \<and> (latSet p \<longrightarrow> Profile_Validate (p_profile p) = None) \<and> (p_active p \<longrightarrow> latSet p)"
    and "activeProfiles sel' = activeProfiles sel + length (filter p_active ps)"
    and "validProfiles sel' = validProfiles sel + length (filter latSet ps)"
    and "c' = fold (\<lambda>p. use_profile (p_profile p)) (filter p_active ps) c"
    and "legacyProfile sel' =
      fold (\<lambda>q l. if located (snd q) then Some (fst q) else l) (enumerate i ps) (legacyProfile sel)"
    by blast+
qed

text \<open>
  The reference: the profile of the active section; when none is active, the one of the only section with
  coordinates, or of the last section called \<open>location\<close> that has them.
\<close>

definition selected :: "parsed_profile list \<Rightarrow> profile option" where
  "selected ps =
     (case filter p_active ps of
        p # _ \<Rightarrow> Some (p_profile p)
      | [] \<Rightarrow>
          (case filter latSet ps of
             [p] \<Rightarrow> Some (p_profile p)
           | _ \<Rightarrow> (if filter located ps = [] then None else Some (p_profile (last (filter located ps))))))"

lemma filter_enumerate: "map snd (filter (\<lambda>q. P (snd q)) (enumerate i ps)) = filter P ps"
  by (induction ps arbitrary: i) auto

lemma fold_found:
  "fold (\<lambda>q l. if P (snd q) then Some (fst q) else l) qs l0 =
     (if filter (\<lambda>q. P (snd q)) qs = [] then l0 else Some (fst (last (filter (\<lambda>q. P (snd q)) qs))))"
  by (induction qs arbitrary: l0) auto

lemma find_only: "filter P xs = [x] \<Longrightarrow> find P xs = Some x"
  by (induction xs) (auto split: if_splits)

lemma last_found:
  assumes "filter (\<lambda>q. P (snd q)) (enumerate 0 ps) \<noteq> []"
  shows "ps ! fst (last (filter (\<lambda>q. P (snd q)) (enumerate 0 ps))) = last (filter P ps)"
proof -
  let ?f = "filter (\<lambda>q. P (snd q)) (enumerate 0 ps)"
  have "last ?f \<in> set (enumerate 0 ps)" using last_in_set [OF assms] by simp
  then have "ps ! fst (last ?f) = snd (last ?f)" by (auto simp: in_set_enumerate_eq)
  also have "\<dots> = last (filter P ps)" using last_map [OF assms, of snd] by (simp add: filter_enumerate)
  finally show ?thesis .
qed

lemma use_profile_simps [simp]:
  "ProfileSet (use_profile p c)" "Profile (use_profile p c) = p"
  by (simp_all add: use_profile_def)

lemma selected_profile:
  assumes "scan_profiles 0 ps (\<lparr>activeProfiles = 0, validProfiles = 0, legacyProfile = None\<rparr>, c) = Inr (sel, c')"
    and "activeProfiles sel \<le> 1" and "\<not> ProfileSet c"
  shows "ProfileSet (choose_profile ps sel c') \<longleftrightarrow> selected ps \<noteq> None"
    and "selected ps = Some q \<Longrightarrow> Profile (choose_profile ps sel c') = q"
proof -
  note s = scan_profiles_Inr [OF assms(1)]
  have "if ProfileSet (choose_profile ps sel c') then selected ps = Some (Profile (choose_profile ps sel c'))
    else selected ps = None"
  proof (cases "filter p_active ps")
    case (Cons p rest)
    then have "rest = []" using s(2) assms(2) by simp
    then show ?thesis using s(2,4) Cons by (simp add: choose_profile_def selected_def)
  next
    case Nil
    then have c': "c' = c" "activeProfiles sel = 0" using s(2,4) by simp_all
    have leg: "(case legacyProfile sel of None \<Rightarrow> c | Some i \<Rightarrow> use_profile (p_profile (ps ! i)) c)
        = (if filter located ps = [] then c else use_profile (p_profile (last (filter located ps))) c)"
      using s(5) last_found [of located ps] filter_enumerate [of located 0 ps]
      by (auto simp: fold_found split: if_splits)
    show ?thesis
    proof (cases "length (filter latSet ps) = 1")
      case True
      then obtain p where p: "filter latSet ps = [p]" by (auto simp: length_Suc_conv)
      then have "find latSet ps = Some p" by (rule find_only)
      with p True Nil c' s(3) show ?thesis by (simp add: choose_profile_def selected_def)
    next
      case False
      then have "validProfiles sel \<noteq> 1" using s(3) by simp
      moreover have "(case filter latSet ps of [p] \<Rightarrow> Some (p_profile p) | _ \<Rightarrow> r) = r" for r
        using False by (auto split: list.splits)
      ultimately show ?thesis
        using Nil c' leg assms(3) by (simp add: choose_profile_def selected_def)
    qed
  qed
  then show "ProfileSet (choose_profile ps sel c') \<longleftrightarrow> selected ps \<noteq> None"
    and "selected ps = Some q \<Longrightarrow> Profile (choose_profile ps sel c') = q"
    by (auto split: if_splits)
qed

end
