(* ===== verification/Config_Text.thy ===== *)
theory Config_Text
  imports Config
begin

text \<open>
  Configuration files and \<open>ParseUCI\<close>: a printer in the form OpenWrt writes (\<open>config\<close>, \<open>option\<close> and \<open>list\<close>
  lines with quoted values), and the round trip through the parser.
\<close>

section \<open>Lines of words\<close>

definition word_char :: "char \<Rightarrow> bool" where
  "word_char c \<longleftrightarrow> 33 \<le> cb c \<and> cb c < 127 \<and> cb c \<notin> {34, 35, 39}"

abbreviation is_word :: "string \<Rightarrow> bool" where
  "is_word w \<equiv> list_all word_char w"

lemma word_codes: "\<not> word_char CHR 0x27" "\<not> word_char CHR 0x22" "\<not> word_char CHR ''#''" "\<not> word_char CHR 0x0A"
  "\<not> word_char CHR '' ''"
  by (simp_all add: word_char_def)

definition visible :: "char \<Rightarrow> bool" where
  "visible c \<longleftrightarrow> 33 \<le> cb c \<and> cb c < 127"

lemma word_visible: "is_word w \<Longrightarrow> list_all visible w"
  by (auto simp: list_all_iff word_char_def visible_def)

lemma fields_visible: "list_all visible w \<Longrightarrow> fields_loop cur (w @ rest) = fields_loop (rev w @ cur) rest"
proof (induction w arbitrary: cur)
  case (Cons c w)
  then have "decode_rune ((c # w) @ rest) = (cb c, 1)" "cb c \<notin> set space_runes"
    by (auto simp: visible_def space_runes_def)
  then show ?case using Cons by (simp add: fields_loop.simps)
qed simp

lemma fields_space: "fields_loop cur (CHR '' '' # rest) = (if cur = [] then [] else [rev cur]) @ fields_loop [] rest"
  by (simp add: fields_loop.simps space_runes_def)

lemma Fields_three:
  assumes "list_all visible u" "list_all visible v" "list_all visible w" "u \<noteq> []" "v \<noteq> []" "w \<noteq> []"
  shows "Fields (u @ '' '' @ v @ '' '' @ w) = [u, v, w]"
  using assms fields_visible [OF assms(1), of "[]" "CHR '' '' # v @ '' '' @ w"]
    fields_visible [OF assms(2), of "[]" "CHR '' '' # w"] fields_visible [OF assms(3), of "[]" "[]"]
  by (simp add: Fields_def fields_space fields_loop.simps(1))

lemma TrimSpace_ends:
  assumes "plain_char (hd s)" and "plain_char (last s)" and "s \<noteq> []"
  shows "TrimSpace s = s"
proof -
  have "leading_space s = 0" using assms leading_space_plain [of "hd s" "tl s"] by (cases s) auto
  moreover have "trailing_space s = 0"
    using assms trailing_space_plain [of "last s" "butlast s"] by (cases s rule: rev_cases) auto
  ultimately show ?thesis by (simp add: TrimSpace_def trim_left.simps trim_right.simps)
qed

lemma split2_absent: "d \<notin> set s \<Longrightarrow> split2_on d s = [s]"
proof -
  assume "d \<notin> set s"
  then have e: "dropWhile (\<lambda>c. c \<noteq> d) s = []" by (auto simp: dropWhile_eq_Nil_conv)
  show ?thesis unfolding split2_on.simps e by simp
qed

lemma split_on_line: "d \<notin> set l \<Longrightarrow> split_on d (l @ d # rest) = l # split_on d rest"
  by (induction l) auto

definition text_of :: "string list \<Rightarrow> string" where
  "text_of ls = concat (map (\<lambda>l. l @ [CHR 0x0A]) ls)"

lemma split_text: "\<forall>l \<in> set ls. CHR 0x0A \<notin> set l \<Longrightarrow> split_on CHR 0x0A (text_of ls) = ls @ ['''']"
  by (induction ls) (simp_all add: text_of_def split_on_line)

definition quoted :: "string \<Rightarrow> string" where
  "quoted v = CHR 0x27 # v @ [CHR 0x27]"

lemma unquote_quoted: "is_word v \<Longrightarrow> unquote (quoted v) = v"
proof -
  let ?P = "\<lambda>c. c \<in> set [CHR 0x27, CHR 0x22]"
  have q: "?P CHR 0x27" by simp
  have strip: "dropWhile ?P w = w" if "is_word w" for w
    using that word_codes by (cases w) auto
  assume v: "is_word v"
  then have r: "is_word (rev v)" by (simp add: list_all_iff)
  show ?thesis
  proof (cases v)
    case Nil
    then show ?thesis by (simp add: unquote_def trim_set_def quoted_def)
  next
    case (Cons c w)
    then have "\<not> ?P c" using v word_codes by auto
    then have "dropWhile ?P (v @ [CHR 0x27]) = v @ [CHR 0x27]" by (simp add: Cons)
    moreover have "dropWhile ?P (CHR 0x27 # rev v) = rev v" using strip [OF r] q by simp
    ultimately show ?thesis using q unfolding unquote_def trim_set_def quoted_def by simp
  qed
qed

section \<open>The lines of a file\<close>

definition option_text :: "string \<Rightarrow> string \<Rightarrow> string" where
  "option_text k v = ''option '' @ k @ '' '' @ quoted v"

definition list_text :: "string \<Rightarrow> string \<Rightarrow> string" where
  "list_text k v = ''list '' @ k @ '' '' @ quoted v"

definition config_text :: "string \<Rightarrow> string \<Rightarrow> string" where
  "config_text ty name = ''config '' @ ty @ '' '' @ quoted name"

lemma visible_quoted: "is_word v \<Longrightarrow> list_all visible (quoted v)"
  by (auto simp: quoted_def visible_def list_all_iff word_char_def)

lemma line_words:
  assumes "is_word k" and "k \<noteq> []" and "is_word v"
  shows "Fields (option_text k v) = [''option'', k, quoted v]"
    and "Fields (list_text k v) = [''list'', k, quoted v]"
    and "Fields (config_text k v) = [''config'', k, quoted v]"
proof -
  have q: "quoted v \<noteq> []" by (simp add: quoted_def)
  note three = Fields_three [OF _ word_visible [OF assms(1)] visible_quoted [OF assms(3)] _ assms(2) q]
  show "Fields (option_text k v) = [''option'', k, quoted v]"
    using three [of "''option''"] by (simp add: option_text_def visible_def)
  show "Fields (list_text k v) = [''list'', k, quoted v]"
    using three [of "''list''"] by (simp add: list_text_def visible_def)
  show "Fields (config_text k v) = [''config'', k, quoted v]"
    using three [of "''config''"] by (simp add: config_text_def visible_def)
qed

lemma line_chars:
  assumes "is_word k" and "is_word v"
  shows "CHR ''#'' \<notin> set (option_text k v)" "CHR ''#'' \<notin> set (list_text k v)" "CHR ''#'' \<notin> set (config_text k v)"
    and "CHR 0x0A \<notin> set (option_text k v)" "CHR 0x0A \<notin> set (list_text k v)" "CHR 0x0A \<notin> set (config_text k v)"
  using assms word_codes by (auto simp: option_text_def list_text_def config_text_def quoted_def list_all_iff)

lemma line_stripped:
  assumes "is_word k" and "is_word v"
  shows "strip_line (option_text k v) = option_text k v"
    and "strip_line (list_text k v) = list_text k v"
    and "strip_line (config_text k v) = config_text k v"
proof -
  have p: "plain_char CHR ''o''" "plain_char CHR ''l''" "plain_char CHR ''c''" "plain_char CHR 0x27"
    by (simp_all add: plain_char_def)
  note c = line_chars [OF assms]
  show "strip_line (option_text k v) = option_text k v"
    unfolding strip_line_def split2_absent [OF c(1)] list.sel
    by (rule TrimSpace_ends) (simp_all add: p option_text_def quoted_def)
  show "strip_line (list_text k v) = list_text k v"
    unfolding strip_line_def split2_absent [OF c(2)] list.sel
    by (rule TrimSpace_ends) (simp_all add: p list_text_def quoted_def)
  show "strip_line (config_text k v) = config_text k v"
    unfolding strip_line_def split2_absent [OF c(3)] list.sel
    by (rule TrimSpace_ends) (simp_all add: p config_text_def quoted_def)
qed

lemma parse_option:
  "is_word k \<Longrightarrow> k \<noteq> [] \<Longrightarrow> is_word v \<Longrightarrow> parse_line pf (option_text k v) ps = option_line pf (k, v) ps"
  using line_words(1) [of k v]
  by (simp add: parse_line_def line_stripped Let_def key_value_def unquote_quoted)
    (simp add: option_text_def HasPrefix_def)

lemma parse_list:
  "is_word k \<Longrightarrow> k \<noteq> [] \<Longrightarrow> is_word v \<Longrightarrow> parse_line pf (list_text k v) ps = Inr (list_line (list_text k v) ps)"
  by (simp add: parse_line_def line_stripped Let_def) (simp add: list_text_def HasPrefix_def)

lemma parse_config:
  "is_word k \<Longrightarrow> k \<noteq> [] \<Longrightarrow> is_word v \<Longrightarrow> parse_line pf (config_text k v) ps = Inr (config_line (config_text k v) ps)"
  by (simp add: parse_line_def line_stripped Let_def) (simp add: config_text_def HasPrefix_def)

lemma parse_lines_append:
  "parse_lines pf n (xs @ ys) ps =
     (case parse_lines pf n xs ps of Inl e \<Rightarrow> Inl e | Inr ps \<Rightarrow> parse_lines pf (n + length xs) ys ps)"
  by (induction xs arbitrary: n ps) (auto split: sum.splits)
section \<open>Printing a configuration\<close>

definition bool_text :: "bool \<Rightarrow> string" where
  "bool_text b = (if b then ''1'' else ''0'')"

definition main_options :: "config \<Rightarrow> (string \<times> string) list" where
  "main_options c =
     [(''enabled'', bool_text (Enabled c)), (''socket_path'', SocketPath c),
      (''max_connections'', Itoa (MaxConnections c)), (''max_body_bytes'', Itoa (MaxBodyBytes c)),
      (''max_buffered_bytes'', Itoa (MaxBufferedBytes c)), (''listen_addr'', ListenAddr c),
      (''listen_port'', Itoa (ListenPort c)), (''proxy_port'', Itoa (ProxyPort c)),
      (''upstream_socks5'', UpstreamSocks5 c), (''device_mac'', DeviceMAC c), (''device_ipv4'', DeviceIPv4 c),
      (''device_ipv6'', DeviceIPv6 c), (''ipv6_block'', bool_text (IPv6Block c))]"

definition profile_options :: "(float64 \<Rightarrow> string) \<Rightarrow> profile \<Rightarrow> (string \<times> string) list" where
  "profile_options ff p =
     [(''active'', ''1''), (''latitude'', ff (Latitude p)), (''longitude'', ff (Longitude p)),
      (''altitude'', ff (Altitude p)), (''horizontal_accuracy'', ff (HorizontalAccuracy p)),
      (''vertical_accuracy'', ff (VerticalAccuracy p)), (''random_radius'', ff (RandomRadius p))]"

definition profile_lines :: "(float64 \<Rightarrow> string) \<Rightarrow> config \<Rightarrow> string list" where
  "profile_lines ff c =
     (if ProfileSet c
      then config_text ''profile'' ''location'' # map (\<lambda>(k, v). option_text k v) (profile_options ff (Profile c))
      else [])"

definition config_lines :: "(float64 \<Rightarrow> string) \<Rightarrow> config \<Rightarrow> string list" where
  "config_lines ff c =
     profile_lines ff c
     @ config_text ''ios_location_spoofer'' ''main'' # map (\<lambda>(k, v). option_text k v) (main_options c)
     @ map (list_text ''wloc_host'') (WLocHosts c) @ map (list_text ''device_macs'') (DeviceMACs c)
     @ map (list_text ''device_ips'') (DeviceIPs c)"

section \<open>Reading it back\<close>

text \<open>Once the main section is open, its options are folded into the configuration.\<close>

fun fold_options :: "(string \<times> string) list \<Rightarrow> config \<Rightarrow> line_error + config" where
  "fold_options [] c = Inr c"
| "fold_options ((k, v) # rest) c =
     (case main_option k v c of Inl e \<Rightarrow> Inl e | Inr c \<Rightarrow> fold_options rest c)"

definition in_main :: "parser \<Rightarrow> bool" where
  "in_main ps \<longleftrightarrow> main_section ps \<and> uciMode ps"

lemma parse_main_options:
  assumes "\<forall>(k, v) \<in> set kvs. is_word k \<and> k \<noteq> [] \<and> is_word v" and "in_main ps"
    and "fold_options kvs (cfg ps) = Inr c"
  shows "parse_lines pf n (map (\<lambda>(k, v). option_text k v) kvs) ps = Inr (ps\<lparr>cfg := c\<rparr>)"
  using assms
proof (induction kvs arbitrary: n ps)
  case (Cons kv kvs)
  obtain k v where kv: "kv = (k, v)" by (cases kv)
  obtain c1 where c1: "main_option k v (cfg ps) = Inr c1" "fold_options kvs c1 = Inr c"
    using Cons.prems(3) by (auto simp: kv split: sum.splits)
  have "parse_line pf (option_text k v) ps = Inr (ps\<lparr>cfg := c1\<rparr>)"
    using Cons.prems(1,2) c1 by (auto simp: kv parse_option option_line_def in_main_def main_section_def)
  moreover have "in_main (ps\<lparr>cfg := c1\<rparr>)" using Cons.prems(2) by (simp add: in_main_def main_section_def)
  ultimately show ?case
    using Cons.IH [of "ps\<lparr>cfg := c1\<rparr>" "n + 1"] Cons.prems(1) c1(2) by (simp add: kv)
qed simp

lemma Itoa_word: "is_word (Itoa n)"
proof -
  have "is_word (nat_string k)" for k
    using nat_string_val [of k] by (auto simp: list_all_iff word_char_def is_digit_def)
  then show ?thesis by (auto simp: Itoa_def word_char_def)
qed

lemma ParseBool_text: "ParseBool (bool_text b) = Some b" "is_word (bool_text b)"
  by (simp_all add: ParseBool_def bool_text_def word_char_def)

definition strings_plain :: "config \<Rightarrow> bool" where
  "strings_plain c \<longleftrightarrow>
     (\<forall>s \<in> {SocketPath c, ListenAddr c, UpstreamSocks5 c, DeviceMAC c, DeviceIPv4 c, DeviceIPv6 c}
        \<union> set (WLocHosts c) \<union> set (DeviceMACs c) \<union> set (DeviceIPs c). is_word s)"

lemma main_options_words: "strings_plain c \<Longrightarrow> \<forall>(k, v) \<in> set (main_options c). is_word k \<and> k \<noteq> [] \<and> is_word v"
  by (simp add: main_options_def strings_plain_def Itoa_word ParseBool_text, simp add: word_char_def)

definition int64_fields :: "config \<Rightarrow> bool" where
  "int64_fields c \<longleftrightarrow> (\<forall>n \<in> {MaxConnections c, MaxBodyBytes c, MaxBufferedBytes c, ListenPort c, ProxyPort c}.
     - (2 ^ 63) \<le> n \<and> n < 2 ^ 63)"

lemma fold_main_options:
  "int64_fields c \<Longrightarrow> fold_options (main_options c) Default =
     Inr (c\<lparr>Profile := zero_profile, ProfileSet := False, profileLatSet := False, profileLonSet := False,
            WLocHosts := [], DeviceMACs := [], DeviceIPs := []\<rparr>)"
  by (simp add: main_options_def main_option_def set_parsed_def ParseBool_text Atoi_Itoa int64_fields_def Default_def)

lemma parse_list_lines:
  assumes "is_word k" and "k \<noteq> []" and "\<forall>v \<in> set vs. is_word v" and "in_main ps"
    and step: "\<And>v ps. is_word v \<Longrightarrow> in_main ps \<Longrightarrow> list_line (list_text k v) ps = ps\<lparr>cfg := add v (cfg ps)\<rparr>"
  shows "parse_lines pf n (map (list_text k) vs) ps = Inr (ps\<lparr>cfg := fold add vs (cfg ps)\<rparr>)"
  using assms(3,4)
proof (induction vs arbitrary: n ps)
  case (Cons v vs)
  have "in_main (ps\<lparr>cfg := add v (cfg ps)\<rparr>)" using Cons.prems(2) by (simp add: in_main_def main_section_def)
  from Cons.IH [OF _ this, of "n + 1"] show ?case
    using Cons.prems assms(1,2) step [of v ps] by (simp add: parse_list)
qed simp

lemma list_line_main:
  assumes "is_word v" and "in_main ps"
  shows "list_line (list_text ''wloc_host'' v) ps = ps\<lparr>cfg := (cfg ps)\<lparr>WLocHosts := WLocHosts (cfg ps) @ [v]\<rparr>\<rparr>"
    and "list_line (list_text ''device_macs'' v) ps = ps\<lparr>cfg := (cfg ps)\<lparr>DeviceMACs := DeviceMACs (cfg ps) @ [v]\<rparr>\<rparr>"
    and "list_line (list_text ''device_ips'' v) ps = ps\<lparr>cfg := (cfg ps)\<lparr>DeviceIPs := DeviceIPs (cfg ps) @ [v]\<rparr>\<rparr>"
  using assms line_words(2) [of "''wloc_host''" v] line_words(2) [of "''device_macs''" v]
    line_words(2) [of "''device_ips''" v]
  by (simp_all add: list_line_def Let_def in_main_def unquote_quoted word_char_def)

lemma fold_lists:
  "fold (\<lambda>v c. c\<lparr>WLocHosts := WLocHosts c @ [v]\<rparr>) vs c = c\<lparr>WLocHosts := WLocHosts c @ vs\<rparr>"
  "fold (\<lambda>v c. c\<lparr>DeviceMACs := DeviceMACs c @ [v]\<rparr>) vs c = c\<lparr>DeviceMACs := DeviceMACs c @ vs\<rparr>"
  "fold (\<lambda>v c. c\<lparr>DeviceIPs := DeviceIPs c @ [v]\<rparr>) vs c = c\<lparr>DeviceIPs := DeviceIPs c @ vs\<rparr>"
  by (induction vs arbitrary: c) simp_all

definition main_lines :: "config \<Rightarrow> string list" where
  "main_lines c = map (\<lambda>(k, v). option_text k v) (main_options c)
     @ map (list_text ''wloc_host'') (WLocHosts c) @ map (list_text ''device_macs'') (DeviceMACs c)
     @ map (list_text ''device_ips'') (DeviceIPs c)"

lemma parse_main_lines:
  assumes "strings_plain c" and "int64_fields c" and "in_main ps" and "cfg ps = Default"
  shows "parse_lines pf n (main_lines c) ps =
    Inr (ps\<lparr>cfg := c\<lparr>Profile := zero_profile, ProfileSet := False, profileLatSet := False, profileLonSet := False\<rparr>\<rparr>)"
proof -
  have w: "\<forall>v \<in> set (WLocHosts c). is_word v" "\<forall>v \<in> set (DeviceMACs c). is_word v" "\<forall>v \<in> set (DeviceIPs c). is_word v"
    using assms(1) by (auto simp: strings_plain_def)
  have k: "is_word ''wloc_host''" "is_word ''device_macs''" "is_word ''device_ips''" by (simp_all add: word_char_def)
  have main: "in_main (ps\<lparr>cfg := x\<rparr>)" for x using assms(3) by (simp add: in_main_def main_section_def)
  note o = parse_main_options [OF main_options_words [OF assms(1)] assms(3)]
  note h = parse_list_lines [OF k(1) _ w(1) main list_line_main(1), simplified fold_lists]
  note m = parse_list_lines [OF k(2) _ w(2) main list_line_main(2), simplified fold_lists]
  note i = parse_list_lines [OF k(3) _ w(3) main list_line_main(3), simplified fold_lists]
  show ?thesis
    using o [unfolded assms(4), OF fold_main_options [OF assms(2)]]
    by (simp add: main_lines_def parse_lines_append h m i)
qed

section \<open>The profile section\<close>

text \<open>What a file can say of a profile, and a printer of numbers that the parser \<open>pf\<close> reads back.\<close>

definition plain_profile :: "(string \<Rightarrow> float64 option) \<Rightarrow> (float64 \<Rightarrow> string) \<Rightarrow> profile \<Rightarrow> bool" where
  "plain_profile pf ff p \<longleftrightarrow> MotionType p = None \<and> MotionConfidence p = None \<and> \<not> InsertMissingLocation p
     \<and> (\<forall>x \<in> {Latitude p, Longitude p, Altitude p, HorizontalAccuracy p, VerticalAccuracy p, RandomRadius p}.
          pf (ff x) = Some x \<and> is_word (ff x) \<and> ff x \<noteq> [])"

definition in_profile :: "parser \<Rightarrow> parsed_profile \<Rightarrow> bool" where
  "in_profile ps p \<longleftrightarrow> uciMode ps \<and> sec_type ps = ''profile'' \<and> currentProfile ps = Some p"

lemma parse_profile_option:
  assumes "in_profile ps p" and "is_word k" and "k \<noteq> []" and "is_word v" and "profile_option pf k v p = Inr p'"
  shows "parse_line pf (option_text k v) ps = Inr (ps\<lparr>currentProfile := Some p'\<rparr>)
    \<and> in_profile (ps\<lparr>currentProfile := Some p'\<rparr>) p'"
  using assms by (simp add: parse_option option_line_def in_profile_def)

lemma parse_profile_options:
  assumes "in_profile ps p" and "\<forall>(k, v) \<in> set kvs. is_word k \<and> k \<noteq> [] \<and> is_word v"
    and "fold (\<lambda>(k, v) q. Option.bind q (\<lambda>p. case profile_option pf k v p of Inl _ \<Rightarrow> None | Inr p \<Rightarrow> Some p)) kvs (Some p) = Some p'"
  shows "parse_lines pf n (map (\<lambda>(k, v). option_text k v) kvs) ps = Inr (ps\<lparr>currentProfile := Some p'\<rparr>)"
  using assms
proof (induction kvs arbitrary: n ps p)
  case Nil
  then show ?case by (simp add: in_profile_def)
next
  case (Cons kv kvs)
  obtain k v where kv: "kv = (k, v)" by (cases kv)
  let ?f = "\<lambda>(k, v) q. Option.bind q (\<lambda>p. case profile_option pf k v p of Inl _ \<Rightarrow> None | Inr p \<Rightarrow> Some p)"
  have none: "fold ?f kvs None = None" by (induction kvs) auto
  obtain p1 where p1: "profile_option pf k v p = Inr p1" "fold ?f kvs (Some p1) = Some p'"
    using Cons.prems(3) none by (cases "profile_option pf k v p") (auto simp: kv)
  have "is_word k" "k \<noteq> []" "is_word v" using Cons.prems(2) by (auto simp: kv)
  from parse_profile_option [OF Cons.prems(1) this p1(1)] Cons.IH [OF _ _ p1(2)] Cons.prems(2) show ?case
    by (simp add: kv)
qed

lemma read_profile:
  assumes "plain_profile pf ff p"
  shows "fold (\<lambda>(k, v) q. Option.bind q (\<lambda>p. case profile_option pf k v p of Inl _ \<Rightarrow> None | Inr p \<Rightarrow> Some p))
      (profile_options ff p) (Some (new_profile s)) =
    Some \<lparr>p_section = s, p_profile = p, p_active = True, latSet = True, lonSet = True\<rparr>"
  using assms
  by (simp add: profile_options_def profile_option_def float_keys_def new_profile_def ParseBool_def
      plain_profile_def zero_profile_def)

section \<open>The round trip\<close>

definition profile_section :: "profile \<Rightarrow> parsed_profile" where
  "profile_section p = \<lparr>p_section = ''location'', p_profile = p, p_active = True, latSet = True, lonSet = True\<rparr>"

lemma parse_profile_lines:
  assumes "ProfileSet c \<longrightarrow> plain_profile pf ff (Profile c)"
  shows "\<exists>ps. parse_lines pf 0 (profile_lines ff c) start_parser = Inr ps \<and> cfg ps = Default \<and> devices ps = []
    \<and> profiles ps = [] \<and> currentDevice ps = None
    \<and> currentProfile ps = (if ProfileSet c then Some (profile_section (Profile c)) else None)"
proof (cases "ProfileSet c")
  case False
  then show ?thesis by (simp add: profile_lines_def start_parser_def)
next
  case True
  let ?ps = "start_parser\<lparr>uciMode := True, sec_type := ''profile'', sec_name := ''location'',
    currentProfile := Some (new_profile ''location'')\<rparr>"
  have w: "is_word ''profile''" "is_word ''location''" by (simp_all add: word_char_def)
  have "config_line (config_text ''profile'' ''location'') start_parser = ?ps"
    using line_words(3) [OF w(1) _ w(2)] unquote_quoted [OF w(2)]
    by (simp add: config_line_def Let_def finishSection_def start_parser_def)
  then have head: "parse_line pf (config_text ''profile'' ''location'') start_parser = Inr ?ps"
    using parse_config [OF w(1) _ w(2)] by simp
  have p: "plain_profile pf ff (Profile c)" using True assms by simp
  then have "\<forall>(k, v) \<in> set (profile_options ff (Profile c)). is_word k \<and> k \<noteq> [] \<and> is_word v"
    by (simp add: profile_options_def plain_profile_def word_char_def)
  moreover have "in_profile ?ps (new_profile ''location'')" by (simp add: in_profile_def)
  ultimately have "parse_lines pf 1 (map (\<lambda>(k, v). option_text k v) (profile_options ff (Profile c))) ?ps
      = Inr (?ps\<lparr>currentProfile := Some (profile_section (Profile c))\<rparr>)"
    using parse_profile_options read_profile [OF p] unfolding profile_section_def by blast
  then show ?thesis
    using head True by (simp add: profile_lines_def start_parser_def)
qed

lemma parse_config_lines:
  assumes "strings_plain c" and "int64_fields c" and "ProfileSet c \<longrightarrow> plain_profile pf ff (Profile c)"
  shows "\<exists>ps. parse_lines pf 0 (config_lines ff c @ ['''']) start_parser = Inr ps \<and> devices ps = []
    \<and> profiles ps = (if ProfileSet c then [profile_section (Profile c)] else [])
    \<and> currentDevice ps = None \<and> currentProfile ps = None
    \<and> cfg ps = c\<lparr>Profile := zero_profile, ProfileSet := False, profileLatSet := False, profileLonSet := False\<rparr>"
proof -
  obtain ps where ps: "parse_lines pf 0 (profile_lines ff c) start_parser = Inr ps" "cfg ps = Default" "devices ps = []"
    "profiles ps = []" "currentDevice ps = None"
    "currentProfile ps = (if ProfileSet c then Some (profile_section (Profile c)) else None)"
    using parse_profile_lines [OF assms(3)] by blast
  have w: "is_word ''ios_location_spoofer''" "is_word ''main''" by (simp_all add: word_char_def)
  let ?ps = "config_line (config_text ''ios_location_spoofer'' ''main'') ps"
  have fields: "in_main ?ps" "cfg ?ps = Default" "devices ?ps = []" "currentDevice ?ps = None" "currentProfile ?ps = None"
    "profiles ?ps = (if ProfileSet c then [profile_section (Profile c)] else [])"
    using ps line_words(3) [OF w(1) _ w(2)] unquote_quoted [OF w(2)]
    by (simp_all add: config_line_def Let_def finishSection_def in_main_def main_section_def)
  have head: "parse_line pf (config_text ''ios_location_spoofer'' ''main'') ps = Inr ?ps"
    using parse_config [OF w(1) _ w(2)] by simp
  have blank: "parse_line pf '''' q = Inr q" for q
    by (simp add: parse_line_def strip_line_def split2_on.simps TrimSpace_plain)
  have lines: "config_lines ff c = profile_lines ff c @ config_text ''ios_location_spoofer'' ''main'' # main_lines c"
    by (simp add: config_lines_def main_lines_def)
  show ?thesis
    using parse_main_lines [OF assms(1,2) fields(1,2)] fields(3-6)
    by (simp add: lines parse_lines_append ps(1) head blank)
qed

lemma lines_clean:
  assumes "strings_plain c" and "ProfileSet c \<longrightarrow> plain_profile pf ff (Profile c)"
  shows "\<forall>l \<in> set (config_lines ff c). CHR 0x0A \<notin> set l"
proof -
  have o: "CHR 0x0A \<notin> set (option_text k v)" if "is_word k \<and> k \<noteq> [] \<and> is_word v" for k v
    using that line_chars(4) by blast
  have "\<forall>(k, v) \<in> set (main_options c). CHR 0x0A \<notin> set (option_text k v)"
    using main_options_words [OF assms(1)] o by blast
  moreover have "\<forall>(k, v) \<in> set (profile_options ff (Profile c)). is_word k \<and> k \<noteq> [] \<and> is_word v" if "ProfileSet c"
    using assms(2) that by (simp add: profile_options_def plain_profile_def word_char_def)
  then have "\<forall>(k, v) \<in> set (profile_options ff (Profile c)). CHR 0x0A \<notin> set (option_text k v)" if "ProfileSet c"
    using that o by blast
  moreover have "CHR 0x0A \<notin> set (list_text k v)"
    if "k \<in> {''wloc_host'', ''device_macs'', ''device_ips''}" "v \<in> set (WLocHosts c) \<union> set (DeviceMACs c) \<union> set (DeviceIPs c)" for k v
    using that assms(1) by (intro line_chars(5)) (auto simp: strings_plain_def word_char_def)
  moreover have "CHR 0x0A \<notin> set (config_text ''profile'' ''location'')" "CHR 0x0A \<notin> set (config_text ''ios_location_spoofer'' ''main'')"
    by (rule line_chars(6); simp add: word_char_def)+
  ultimately show ?thesis unfolding config_lines_def profile_lines_def by auto
qed

lemma config_read_back:
  assumes "valid_config c" and "strings_plain c"
    and "if ProfileSet c then plain_profile pf ff (Profile c)
         else Profile c = zero_profile \<and> \<not> profileLatSet c \<and> \<not> profileLonSet c"
  shows "ParseUCI pf (text_of (config_lines ff c)) = Inr c"
proof -
  have ints: "int64_fields c" using assms(1) by (auto simp: valid_config_def limits_ok_def int64_fields_def)
  have plain: "ProfileSet c \<longrightarrow> plain_profile pf ff (Profile c)" using assms(3) by auto
  let ?c0 = "c\<lparr>Profile := zero_profile, ProfileSet := False, profileLatSet := False, profileLonSet := False\<rparr>"
  obtain ps where ps: "parse_lines pf 0 (config_lines ff c @ ['''']) start_parser = Inr ps" "devices ps = []"
    "profiles ps = (if ProfileSet c then [profile_section (Profile c)] else [])"
    "currentDevice ps = None" "currentProfile ps = None" "cfg ps = ?c0"
    using parse_config_lines [OF assms(2) ints plain] by blast
  have fin: "finishSection ps = ps" using ps(4,5) by (simp add: finishSection_def)
  have ok: "Validate c = None" using assms(1) Validate_None by blast
  have "finish ps = Inr c"
  proof (cases "ProfileSet c")
    case True
    then have "profileLatSet c" "profileLonSet c" "Profile_Validate (Profile c) = None"
      using assms(1) by (auto simp: valid_config_def)
    moreover from this True have "use_profile (Profile c) ?c0 = c" by (simp add: use_profile_def)
    ultimately show ?thesis
      using True ps ok by (simp add: finish_def fin Let_def profile_section_def choose_profile_def)
  next
    case False
    then have "?c0 = c" using assms(3) by simp
    then show ?thesis using False ps ok by (simp add: finish_def fin Let_def choose_profile_def)
  qed
  then show ?thesis
    using ps(1) split_text [OF lines_clean [OF assms(2) plain]] by (simp add: ParseUCI_def)
qed

text \<open>C22: configuration files survive a round trip. A valid configuration with plain strings, printed as an
  OpenWrt file, is parsed back to exactly that configuration, its profile included, for every printer
  of numbers that \<open>strconv.ParseFloat\<close> inverts.\<close>

theorem config_roundtrip:
  assumes "valid_config c" and "strings_plain c"
    and "if ProfileSet c then plain_profile pf ff (Profile c)
         else Profile c = zero_profile \<and> \<not> profileLatSet c \<and> \<not> profileLonSet c"
  shows "ParseUCI pf (text_of (config_lines ff c)) = Inr c"
  by (rule config_read_back [OF assms])

section \<open>Accepted files\<close>

text \<open>C23: an accepted file gives a valid configuration with the profile the documentation promises: at most
  one section is active; the profile is that of the active section, else that of the only section
  with coordinates, else that of the last section called \<open>location\<close>, else none; and every section with
  a coordinate has both and is valid.\<close>

theorem ParseUCI_accepts:
  assumes "ParseUCI pf data = Inr c"
  shows "valid_config c \<and>
    (\<exists>ps. parse_lines pf 0 (split_on CHR 0x0A data) start_parser = Inr ps
      \<and> (let sections = profiles (finishSection ps) in
          length (filter p_active sections) \<le> 1
          \<and> (\<forall>p \<in> set sections. latSet p = lonSet p \<and> (latSet p \<longrightarrow> Profile_Validate (p_profile p) = None))
          \<and> (if selected sections = None then \<not> ProfileSet c
             else ProfileSet c \<and> selected sections = Some (Profile c))))"
proof -
  obtain ps where ps: "parse_lines pf 0 (split_on CHR 0x0A data) start_parser = Inr ps" "finish ps = Inr c"
    using assms by (auto simp: ParseUCI_def split: sum.splits)
  let ?s = "profiles (finishSection ps)"
  let ?c0 = "fold add_device (devices (finishSection ps)) (cfg (finishSection ps))"
  obtain sel c1 where
    scan: "scan_profiles 0 ?s (\<lparr>activeProfiles = 0, validProfiles = 0, legacyProfile = None\<rparr>, ?c0) = Inr (sel, c1)"
    and one: "activeProfiles sel \<le> 1" and c: "c = choose_profile ?s sel c1" "Validate c = None"
    using ps(2) by (auto simp: finish_def Let_def not_less split: sum.splits option.splits if_splits)
  have "\<not> ProfileSet ?c0"
    using parse_lines_keeps [OF ps(1)] by (simp add: add_devices_keep keep_simps start_parser_def Default_def)
  note chosen = selected_profile [OF scan one this]
  have "if selected ?s = None then \<not> ProfileSet c else ProfileSet c \<and> selected ?s = Some (Profile c)"
    using chosen by (auto simp: c(1))
  moreover have "length (filter p_active ?s) \<le> 1" using scan_profiles_Inr(2) [OF scan] one by simp
  moreover have "\<forall>p \<in> set ?s. latSet p = lonSet p \<and> (latSet p \<longrightarrow> Profile_Validate (p_profile p) = None)"
    using scan_profiles_Inr(1) [OF scan] by blast
  moreover have "valid_config c" using c(2) Validate_None by blast
  ultimately show ?thesis using ps(1) by (auto simp: Let_def)
qed

section \<open>A concrete configuration\<close>

definition sample_config :: config where
  "sample_config = Default\<lparr>Enabled := True, DeviceIPv4 := ''10.0.0.2'', WLocHosts := [''gs-loc.apple.com''],
     Profile := zero_profile, ProfileSet := True, profileLatSet := True, profileLonSet := True\<rparr>"

lemma sample_ip: "ParseIP ''10.0.0.2'' = Some (v4_prefix @ [10, 0, 0, 2])"
  by code_simp

lemma sample_config_valid: "valid_config sample_config"
proof -
  have "Profile_Validate zero_profile = None"
    by (simp add: Profile_Validate_def zero_profile_def f_int_def smant_def)
  moreover have "devices_ok sample_config"
    by (simp add: devices_ok_def sample_config_def single_macs_def single_ips_def Default_def sample_ip To4_def v4_prefix_def)
  moreover have "ToLower ''gs-loc.apple.com'' = ''gs-loc.apple.com''"
    by (rule ToLower_plain) (simp add: plain_char_def)
  ultimately show ?thesis
    by (simp add: valid_config_def sample_config_def Default_def limits_ok_def single_ips_def single_macs_def
        compiled_hosts_def TrimSuffix_def HasSuffix_def ContainsAny_def)
qed

lemma sample_config_strings: "strings_plain sample_config"
  by (simp add: strings_plain_def sample_config_def Default_def word_char_def)

lemma sample_config_profile: "plain_profile (\<lambda>s. Some (f_int 0)) (\<lambda>x. ''0'') (Profile sample_config)"
  by (simp add: plain_profile_def sample_config_def zero_profile_def word_char_def)

theorem config_roundtrip_witness:
  "ParseUCI (\<lambda>s. Some (f_int 0)) (text_of (config_lines (\<lambda>x. ''0'') sample_config)) = Inr sample_config"
  by (rule config_roundtrip [OF sample_config_valid sample_config_strings]) (use sample_config_profile in \<open>simp add: sample_config_def\<close>)

theorem ParseUCI_accepts_witness:
  "\<exists>ps. parse_lines (\<lambda>s. Some (f_int 0)) 0 (split_on CHR 0x0A (text_of (config_lines (\<lambda>x. ''0'') sample_config)))
     start_parser = Inr ps \<and> selected (profiles (finishSection ps)) = Some zero_profile"
proof -
  have "ParseUCI (\<lambda>s. Some (f_int 0)) (text_of (config_lines (\<lambda>x. ''0'') sample_config)) = Inr sample_config"
    by (rule config_read_back [OF sample_config_valid sample_config_strings]) (use sample_config_profile in \<open>simp add: sample_config_def\<close>)
  from ParseUCI_accepts [OF this] show ?thesis
    by (auto simp: Let_def sample_config_def split: if_splits)
qed

end
