(* ===== verification/Rewrite.thy ===== *)
theory Rewrite
  imports Location
begin

unbundle bit_operations_syntax

text \<open>
  \<open>rewriteRecord\<close> and \<open>rewriteProto\<close> of \<open>internal/provider/applewloc/wloc.go\<close>: the walk from the
  payload through the record fields (2, 22 and 24) to the location messages.

  Both Go functions run the same loop over the parsed fields, which either copies \<open>f.raw\<close> or writes a
  new length-delimited field with the same number. That loop is \<open>edit_loop\<close>; what differs is the
  step, which returns \<open>None\<close> to copy and \<open>Some (child, n)\<close> to write \<open>child\<close> and add \<open>n\<close> to the count.
\<close>

section \<open>The code\<close>

fun edit_loop ::
  "(field \<Rightarrow> wloc_error + (bytes \<times> nat) option) \<Rightarrow> field list \<Rightarrow> wloc_error + bytes \<times> nat"
where
  "edit_loop step [] = Inr ([], 0)"
| "edit_loop step (f # fs) =
     (case step f of
        Inl e \<Rightarrow> Inl e
      | Inr None \<Rightarrow>
          (case edit_loop step fs of Inl e \<Rightarrow> Inl e | Inr (out, n) \<Rightarrow> Inr (raw f @ out, n))
      | Inr (Some (child, k)) \<Rightarrow>
          (case edit_loop step fs of
             Inl e \<Rightarrow> Inl e
           | Inr (out, n) \<Rightarrow>
               Inr (key (num f) 2 @ encVarint (word_of_nat (length child)) @ child @ out, k + n)))"

definition record_step ::
  "platform \<Rightarrow> profile \<Rightarrow> 32 word \<Rightarrow> nat \<Rightarrow> field \<Rightarrow> wloc_error + (bytes \<times> nat) option"
where
  "record_step P p recordType depth f =
     (let locationField = (if recordType = 2 then 2 else 5)
      in if wire f = 2 \<and> num f = locationField
         then case parse (value f) (depth + 1) of
                Inl e \<Rightarrow> Inl e
              | Inr loc \<Rightarrow> if hasLocation loc then Inr (Some (location P loc p, 1)) else Inr None
         else Inr None)"

definition rewriteRecord ::
  "platform \<Rightarrow> bytes \<Rightarrow> profile \<Rightarrow> 32 word \<Rightarrow> nat \<Rightarrow> wloc_error + bytes \<times> nat"
where
  "rewriteRecord P b p recordType depth =
     (case parse b depth of
        Inl e \<Rightarrow> Inl e
      | Inr fs \<Rightarrow> edit_loop (record_step P p recordType depth) fs)"

definition proto_step ::
  "platform \<Rightarrow> profile \<Rightarrow> nat \<Rightarrow> field \<Rightarrow> wloc_error + (bytes \<times> nat) option"
where
  "proto_step P p depth f =
     (if wire f = 2 \<and> (num f = 2 \<or> num f = 22 \<or> num f = 24)
      then case rewriteRecord P (value f) p (num f) (depth + 1) of
             Inl e \<Rightarrow> Inl e
           | Inr (child, n) \<Rightarrow> if n > 0 then Inr (Some (child, n)) else Inr None
      else Inr None)"

definition rewriteProto ::
  "platform \<Rightarrow> bytes \<Rightarrow> profile \<Rightarrow> nat \<Rightarrow> wloc_error + bytes \<times> nat"
where
  "rewriteProto P b p depth =
     (case parse b depth of
        Inl e \<Rightarrow> Inl e
      | Inr fs \<Rightarrow> edit_loop (proto_step P p depth) fs)"

section \<open>The loop as an edit of the field list\<close>

definition edit :: "(field \<Rightarrow> wloc_error + (bytes \<times> nat) option) \<Rightarrow> field \<Rightarrow> field" where
  "edit step f = (case step f of Inr (Some (c, _)) \<Rightarrow> bytes_field (num f) c | _ \<Rightarrow> f)"

definition hits :: "(field \<Rightarrow> wloc_error + (bytes \<times> nat) option) \<Rightarrow> field \<Rightarrow> nat" where
  "hits step f = (case step f of Inr (Some (_, n)) \<Rightarrow> n | _ \<Rightarrow> 0)"

lemma edit_simps [simp]:
  "step f = Inr None \<Longrightarrow> edit step f = f"
  "step f = Inr (Some (c, n)) \<Longrightarrow> edit step f = bytes_field (num f) c"
  "step f = Inr None \<Longrightarrow> hits step f = 0"
  "step f = Inr (Some (c, n)) \<Longrightarrow> hits step f = n"
  by (simp_all add: edit_def hits_def)

lemma edit_num [simp]: "num (edit step f) = num f"
  by (auto simp: edit_def split: sum.splits option.splits)

lemma edit_loop_Inr:
  "edit_loop step fs = Inr (out, n) \<longleftrightarrow>
   (\<forall>f \<in> set fs. \<not> isl (step f)) \<and> out = concat (map (raw \<circ> edit step) fs)
     \<and> n = sum_list (map (hits step) fs)"
proof (induction fs arbitrary: out n)
  case Nil
  show ?case by auto
next
  case (Cons f fs)
  show ?case
  proof (cases "step f")
    case (Inl e)
    then show ?thesis by simp
  next
    case (Inr r)
    show ?thesis
    proof (cases "edit_loop step fs")
      case (Inl e)
      with Cons [of "concat (map (raw \<circ> edit step) fs)" "sum_list (map (hits step) fs)"] Inr
      show ?thesis by (cases r) (auto simp: comp_def)
    next
      case (Inr q)
      obtain out1 m where q: "q = (out1, m)" by (cases q)
      have "\<forall>f \<in> set fs. \<not> isl (step f)" "out1 = concat (map (raw \<circ> edit step) fs)"
        "m = sum_list (map (hits step) fs)"
        using Cons [of out1 m] Inr q by (simp_all add: comp_def)
      with Inr q \<open>step f = Inr r\<close> show ?thesis by (cases r) (auto simp: comp_def)
    qed
  qed
qed

lemma edit_loop_Inl: "edit_loop step fs = Inl e \<Longrightarrow> \<exists>f \<in> set fs. step f = Inl e"
  by (induction fs) (auto split: sum.splits option.splits)

lemma edit_loop_stuck: "f \<in> set fs \<Longrightarrow> isl (step f) \<Longrightarrow> \<exists>e. edit_loop step fs = Inl e"
  using edit_loop_Inr [of step fs] by (cases "edit_loop step fs") fastforce+

lemma edit_loop_no_hits:
  "edit_loop step fs = Inr (out, 0) \<Longrightarrow> (\<And>f c k. step f = Inr (Some (c, k)) \<Longrightarrow> 0 < k) \<Longrightarrow>
   out = concat (map raw fs)"
proof -
  assume l: "edit_loop step fs = Inr (out, 0)" and pos: "\<And>f c k. step f = Inr (Some (c, k)) \<Longrightarrow> 0 < k"
  have "edit step f = f" if "hits step f = 0" for f
    using that pos by (auto simp: edit_def hits_def split: sum.splits option.splits)
  with l show ?thesis
    by (auto simp: edit_loop_Inr intro!: concat_map_id_cong)
qed

text \<open>
  When the step is stable, that is, runs again on the field it wrote with the same result, the loop
  over the edited fields gives the same bytes and the same count.
\<close>

lemma edit_loop_again:
  assumes "edit_loop step fs = Inr (out, n)"
    and "\<And>f. f \<in> set fs \<Longrightarrow> \<not> isl (step f) \<Longrightarrow> step (edit step f) = step f"
  shows "edit_loop step (map (edit step) fs) = Inr (out, n)"
proof -
  have "edit step (edit step f) = edit step f \<and> hits step (edit step f) = hits step f
      \<and> \<not> isl (step (edit step f))" if "f \<in> set fs" for f
  proof -
    have "\<not> isl (step f)" using assms(1) that by (auto simp: edit_loop_Inr)
    with assms(2) [OF that] have s: "step (edit step f) = step f" by simp
    then show ?thesis using \<open>\<not> isl (step f)\<close> edit_num [of step f]
      by (auto simp: edit_def hits_def split: sum.splits option.splits)
  qed
  then show ?thesis
    using assms(1) by (auto simp: edit_loop_Inr comp_def intro!: arg_cong [where f = concat]
        arg_cong [where f = sum_list])
qed

lemma edit_loop_length:
  assumes "edit_loop step fs = Inr (out, n)"
    and "\<And>f. f \<in> set fs \<Longrightarrow> length (raw (edit step f)) \<le> c * length (raw f)"
  shows "length out \<le> c * length (concat (map raw fs))"
  using assms length_concat_raw_le [of fs "edit step" c] by (auto simp: edit_loop_Inr)

section \<open>The locations of a message\<close>

text \<open>
  The location messages a record and a payload hold, as field lists, in the order of the bytes: the
  abstract content the rewriter works on.
\<close>

definition field_locs :: "32 word \<Rightarrow> nat \<Rightarrow> field \<Rightarrow> field list list" where
  "field_locs t d f =
     (if wire f = 2 \<and> num f = (if t = 2 then 2 else 5)
      then case parse (value f) (d + 1) of
             Inl _ \<Rightarrow> [] | Inr loc \<Rightarrow> if hasLocation loc then [loc] else []
      else [])"

definition record_locs :: "32 word \<Rightarrow> bytes \<Rightarrow> nat \<Rightarrow> field list list" where
  "record_locs t b d = (case parse b d of Inl _ \<Rightarrow> [] | Inr fs \<Rightarrow> concat (map (field_locs t d) fs))"

definition entry_locs :: "nat \<Rightarrow> field \<Rightarrow> field list list" where
  "entry_locs d f =
     (if wire f = 2 \<and> (num f = 2 \<or> num f = 22 \<or> num f = 24)
      then record_locs (num f) (value f) (d + 1) else [])"

definition proto_locs :: "bytes \<Rightarrow> nat \<Rightarrow> field list list" where
  "proto_locs b d = (case parse b d of Inl _ \<Rightarrow> [] | Inr fs \<Rightarrow> concat (map (entry_locs d) fs))"

text \<open>The locations that still have at most \<open>maxFields\<close> fields when the profile is patched in.\<close>

definition room :: "(32 word \<rightharpoonup> 64 word) \<Rightarrow> field list list \<Rightarrow> bool" where
  "room vals locs \<longleftrightarrow> list_all (\<lambda>loc. length (patched vals loc) \<le> maxFields) locs"

lemma room_append [simp]: "room vals (xs @ ys) \<longleftrightarrow> room vals xs \<and> room vals ys"
  and room_Nil [simp]: "room vals []"
  and room_Cons [simp]: "room vals (x # xs) \<longleftrightarrow> length (patched vals x) \<le> maxFields \<and> room vals xs"
  by (simp_all add: room_def)

text \<open>A location of at most 9993 fields always fits.\<close>

lemma room_small: "list_all (\<lambda>loc. length loc + 7 \<le> maxFields) locs \<Longrightarrow> room vals locs"
  using length_patched by (fastforce simp: room_def list_all_iff intro: order_trans)

lemma room_concat: "room vals (concat (map g fs)) \<longleftrightarrow> (\<forall>f \<in> set fs. room vals (g f))"
  by (induction fs) simp_all

lemma small_length: "n \<le> 50 * maxMessage \<Longrightarrow> n < (2 :: nat) ^ 64"
  by (simp add: maxMessage_def)

lemma parse_edited:
  assumes "parse b d = Inr fs" and "edit_loop step fs = Inr (out, n)"
    and "\<And>f c k. f \<in> set fs \<Longrightarrow> step f = Inr (Some (c, k)) \<Longrightarrow> length c < 2 ^ 64"
  shows "parse out d = Inr (map (edit step) fs)"
proof -
  have "wf_field (edit step f)" if "f \<in> set fs" for f
    using that assms wf_field_ranges [of f] wf_bytes_field [of "num f"]
    by (auto simp: parse_iff list_all_iff edit_def split: sum.splits option.splits)
  with assms(1,2) show ?thesis
    by (auto simp: parse_iff edit_loop_Inr list_all_iff comp_def)
qed

lemma count_bytes: "list_all wf_field fs \<Longrightarrow> 2 * length fs \<le> length (concat (map raw fs))"
  by (induction fs) (auto dest: wf_field_size)

section \<open>Records\<close>

lemma record_step_cases:
  assumes "record_step P p t d f = Inr r"
  shows "(r = None \<and> field_locs t d f = []) \<or>
    (\<exists>loc. r = Some (location P loc p, 1) \<and> parse (value f) (d + 1) = Inr loc \<and> hasLocation loc
       \<and> wire f = 2 \<and> num f = (if t = 2 then 2 else 5) \<and> field_locs t d f = [loc])"
  using assms by (auto simp: record_step_def field_locs_def Let_def split: if_splits sum.splits)

lemma record_step_length:
  assumes "wf_field f" and "record_step P p t d f = Inr (Some (c, k))"
  shows "length c + 20 \<le> 50 * length (raw f)"
proof -
  from record_step_cases [OF assms(2)] obtain loc where
    c: "c = location P loc p" and loc: "parse (value f) (d + 1) = Inr loc" "hasLocation loc" by auto
  from loc(1) have wf: "list_all wf_field loc" "value f = concat (map raw loc)"
    by (auto simp: parse_iff)
  from loc(2) obtain f1 f2 where "f1 \<in> set loc" "num f1 = 1" "f2 \<in> set loc" "num f2 = 2"
    by (auto simp: hasLocation_iff has_varint_def)
  then have "f1 \<noteq> f2" "f1 \<in> set loc" "f2 \<in> set loc" by auto
  then have "2 \<le> length loc" by (cases loc rule: list.exhaust; auto simp: Suc_le_eq)
  then have "4 \<le> length (value f)" using count_bytes [OF wf(1)] wf(2) by simp
  moreover have "length c \<le> 10 * length (value f) + 140"
    unfolding c wf(2) by (rule length_location [OF wf(1)])
  moreover have "length (value f) < length (raw f)" by (rule wf_field_size [OF assms(1)])
  ultimately show ?thesis by linarith
qed

lemma record_edit_length:
  assumes "wf_field f"
  shows "length (raw (edit (record_step P p t d) f)) \<le> 50 * length (raw f)"
proof (cases "record_step P p t d f")
  case (Inr r)
  show ?thesis
  proof (cases r)
    case None
    with Inr show ?thesis by simp
  next
    case (Some ck)
    obtain c k where "ck = (c, k)" by (cases ck)
    with Inr Some have s: "record_step P p t d f = Inr (Some (c, k))" by simp
    from record_step_length [OF assms s] length_bytes_field [of "num f" c] show ?thesis
      by (simp only: edit_simps(2) [of "record_step P p t d", OF s])
  qed
qed (simp add: edit_def)

lemma rewriteRecord_Inr:
  "rewriteRecord P b p t d = Inr (out, n) \<longleftrightarrow>
   (\<exists>fs. parse b d = Inr fs \<and> edit_loop (record_step P p t d) fs = Inr (out, n))"
  by (auto simp: rewriteRecord_def split: sum.splits)

lemma rewriteRecord_length:
  "rewriteRecord P b p t d = Inr (out, n) \<Longrightarrow> length out \<le> 50 * length b"
  by (auto simp: rewriteRecord_Inr parse_iff list_all_iff
      intro!: edit_loop_length [where step = "record_step P p t d"] record_edit_length)

lemma rewriteRecord_count:
  assumes "rewriteRecord P b p t d = Inr (out, n)"
  shows "n = length (record_locs t b d)"
proof -
  from assms obtain fs where fs: "parse b d = Inr fs"
    and e: "edit_loop (record_step P p t d) fs = Inr (out, n)" by (auto simp: rewriteRecord_Inr)
  have "hits (record_step P p t d) f = length (field_locs t d f)" if "f \<in> set fs" for f
    using that e record_step_cases [of P p t d f]
    by (cases "record_step P p t d f") (auto simp: edit_loop_Inr)
  then have "map (hits (record_step P p t d)) fs = map (length \<circ> field_locs t d) fs" by simp
  with e fs show ?thesis
    by (simp add: edit_loop_Inr record_locs_def length_concat)
qed

lemma raw_le: "f \<in> set fs \<Longrightarrow> length (raw f) \<le> length (concat (map raw fs))"
  by (induction fs) auto

lemma location_patched: "location P (patched (loc_vals P p) loc) p = location P loc p"
  by (simp add: location_eq patched_idem)

lemma record_step_again:
  assumes "record_step P p t d f = Inr r" and "room (loc_vals P p) (field_locs t d f)"
  shows "record_step P p t d (edit (record_step P p t d) f) = record_step P p t d f"
    and "field_locs t d (edit (record_step P p t d) f) = map (patched (loc_vals P p)) (field_locs t d f)"
proof -
  consider (keep) "r = None" "field_locs t d f = []"
    | (loc) loc where "r = Some (location P loc p, 1)" "parse (value f) (d + 1) = Inr loc"
        "hasLocation loc" "wire f = 2" "num f = (if t = 2 then 2 else 5)" "field_locs t d f = [loc]"
    using record_step_cases [OF assms(1)] by blast
  then have "record_step P p t d (edit (record_step P p t d) f) = record_step P p t d f
    \<and> field_locs t d (edit (record_step P p t d) f) = map (patched (loc_vals P p)) (field_locs t d f)"
  proof cases
    case keep
    with assms(1) show ?thesis by simp
  next
    case loc
    then have e: "edit (record_step P p t d) f = bytes_field (num f) (location P loc p)"
      using assms(1) by simp
    have "parse (location P loc p) (d + 1) = Inr (patched (loc_vals P p) loc)"
      using loc assms(2) parse_location [of loc "d + 1"] by (auto simp: parse_iff)
    with loc assms(1) show ?thesis
      unfolding e by (simp add: record_step_def field_locs_def hasLocation_patched location_patched)
  qed
  then show "record_step P p t d (edit (record_step P p t d) f) = record_step P p t d f"
    and "field_locs t d (edit (record_step P p t d) f) = map (patched (loc_vals P p)) (field_locs t d f)"
    by simp_all
qed

lemma rewriteRecord_parse:
  assumes "rewriteRecord P b p t d = Inr (out, n)" and "length b \<le> maxMessage"
  shows "\<exists>fs. parse b d = Inr fs \<and> parse out d = Inr (map (edit (record_step P p t d)) fs)
    \<and> edit_loop (record_step P p t d) fs = Inr (out, n)"
proof -
  let ?step = "record_step P p t d"
  from assms(1) obtain fs where fs: "parse b d = Inr fs" and e: "edit_loop ?step fs = Inr (out, n)"
    by (auto simp: rewriteRecord_Inr)
  then have wf: "list_all wf_field fs" "b = concat (map raw fs)" by (auto simp: parse_iff)
  have "parse out d = Inr (map (edit ?step) fs)"
  proof (rule parse_edited [OF fs e])
    fix f c k
    assume "f \<in> set fs" and s: "?step f = Inr (Some (c, k))"
    then have "wf_field f" "length (raw f) \<le> length b" using wf raw_le by (auto simp: list_all_iff)
    with record_step_length [OF _ s] assms(2) show "length c < 2 ^ 64"
      by (intro small_length) linarith
  qed
  with fs e show ?thesis by blast
qed

lemma rewriteRecord_again:
  assumes "rewriteRecord P b p t d = Inr (out, n)" and "length b \<le> maxMessage"
    and "room (loc_vals P p) (record_locs t b d)"
  shows "rewriteRecord P out p t d = Inr (out, n)"
    and "record_locs t out d = map (patched (loc_vals P p)) (record_locs t b d)"
proof -
  let ?step = "record_step P p t d"
  from rewriteRecord_parse [OF assms(1,2)] obtain fs where fs: "parse b d = Inr fs"
    and out: "parse out d = Inr (map (edit ?step) fs)" and e: "edit_loop ?step fs = Inr (out, n)" by blast
  have rm: "room (loc_vals P p) (field_locs t d f)" if "f \<in> set fs" for f
    using assms(3) that by (simp add: record_locs_def fs room_concat)
  have again: "?step (edit ?step f) = ?step f \<and>
      field_locs t d (edit ?step f) = map (patched (loc_vals P p)) (field_locs t d f)" if "f \<in> set fs" for f
  proof -
    from e that obtain r where "?step f = Inr r" by (cases "?step f") (auto simp: edit_loop_Inr)
    with record_step_again rm [OF that] show ?thesis by blast
  qed
  then show "rewriteRecord P out p t d = Inr (out, n)"
    using edit_loop_again [OF e] out by (simp add: rewriteRecord_def)
  show "record_locs t out d = map (patched (loc_vals P p)) (record_locs t b d)"
    using again by (simp add: record_locs_def out fs map_concat comp_def cong: map_cong)
qed

section \<open>Payloads\<close>

lemma proto_step_cases:
  assumes "proto_step P p d f = Inr r"
  shows "(r = None \<and> entry_locs d f = []) \<or>
    (\<exists>c n. r = Some (c, n) \<and> 0 < n \<and> rewriteRecord P (value f) p (num f) (d + 1) = Inr (c, n)
       \<and> wire f = 2 \<and> (num f = 2 \<or> num f = 22 \<or> num f = 24)
       \<and> entry_locs d f = record_locs (num f) (value f) (d + 1))"
  using assms rewriteRecord_count [of P "value f" p "num f" "d + 1"]
  by (auto simp: proto_step_def entry_locs_def split: if_splits sum.splits)

lemma proto_edit_length:
  assumes "wf_field f"
  shows "length (raw (edit (proto_step P p d) f)) \<le> 50 * length (raw f)"
proof (cases "\<exists>c k. proto_step P p d f = Inr (Some (c, k))")
  case True
  then obtain c k where s: "proto_step P p d f = Inr (Some (c, k))" by blast
  from proto_step_cases [OF s] rewriteRecord_length have "length c \<le> 50 * length (value f)" by auto
  with wf_field_size [OF assms] length_bytes_field [of "num f" c] show ?thesis
    by (simp only: edit_simps(2) [of "proto_step P p d", OF s])
next
  case False
  then have "edit (proto_step P p d) f = f" by (auto simp: edit_def split: sum.splits option.splits)
  then show ?thesis by simp
qed

lemma rewriteProto_Inr:
  "rewriteProto P b p d = Inr (out, n) \<longleftrightarrow>
   (\<exists>fs. parse b d = Inr fs \<and> edit_loop (proto_step P p d) fs = Inr (out, n))"
  by (auto simp: rewriteProto_def split: sum.splits)

lemma rewriteProto_length:
  "rewriteProto P b p d = Inr (out, n) \<Longrightarrow> length out \<le> 50 * length b"
  by (auto simp: rewriteProto_Inr parse_iff list_all_iff
      intro!: edit_loop_length [where step = "proto_step P p d"] proto_edit_length)

lemma rewriteProto_count:
  assumes "rewriteProto P b p d = Inr (out, n)"
  shows "n = length (proto_locs b d)"
proof -
  from assms obtain fs where fs: "parse b d = Inr fs"
    and e: "edit_loop (proto_step P p d) fs = Inr (out, n)" by (auto simp: rewriteProto_Inr)
  have "hits (proto_step P p d) f = length (entry_locs d f)" if "f \<in> set fs" for f
    using that e proto_step_cases [of P p d f] rewriteRecord_count
    by (cases "proto_step P p d f") (auto simp: edit_loop_Inr)
  then have "map (hits (proto_step P p d)) fs = map (length \<circ> entry_locs d) fs" by simp
  with e fs show ?thesis
    by (simp add: edit_loop_Inr proto_locs_def length_concat)
qed

lemma rewriteProto_unchanged:
  assumes "rewriteProto P b p d = Inr (out, 0)"
  shows "out = b"
proof -
  from assms obtain fs where fs: "parse b d = Inr fs"
    and e: "edit_loop (proto_step P p d) fs = Inr (out, 0)" by (auto simp: rewriteProto_Inr)
  have "out = concat (map raw fs)"
    by (rule edit_loop_no_hits [OF e]) (use proto_step_cases in blast)
  with fs show ?thesis by (simp add: parse_iff)
qed

text \<open>The output parses again, field for field.\<close>

lemma rewriteProto_parse:
  assumes "rewriteProto P b p d = Inr (out, n)" and "length b \<le> maxMessage"
  shows "\<exists>fs. parse b d = Inr fs \<and> parse out d = Inr (map (edit (proto_step P p d)) fs)"
proof -
  from assms(1) obtain fs where fs: "parse b d = Inr fs"
    and e: "edit_loop (proto_step P p d) fs = Inr (out, n)" by (auto simp: rewriteProto_Inr)
  then have wf: "list_all wf_field fs" "b = concat (map raw fs)" by (auto simp: parse_iff)
  have "parse out d = Inr (map (edit (proto_step P p d)) fs)"
  proof (rule parse_edited [OF fs e])
    fix f c k
    assume f: "f \<in> set fs" and s: "proto_step P p d f = Inr (Some (c, k))"
    from proto_step_cases [OF s] rewriteRecord_length have "length c \<le> 50 * length (value f)" by auto
    moreover have "length (value f) < length (raw f)" "length (raw f) \<le> length b"
      using f wf raw_le wf_field_size by (auto simp: list_all_iff)
    ultimately show "length c < 2 ^ 64" using assms(2) by (intro small_length) linarith
  qed
  with fs show ?thesis by blast
qed

lemma proto_step_again:
  assumes "proto_step P p d f = Inr r" and "room (loc_vals P p) (entry_locs d f)" and "length (value f) \<le> maxMessage"
  shows "proto_step P p d (edit (proto_step P p d) f) = proto_step P p d f"
    and "entry_locs d (edit (proto_step P p d) f) = map (patched (loc_vals P p)) (entry_locs d f)"
proof -
  consider (keep) "r = None" "entry_locs d f = []"
    | (hit) c n where "r = Some (c, n)" "0 < n"
        "rewriteRecord P (value f) p (num f) (d + 1) = Inr (c, n)" "wire f = 2"
        "num f = 2 \<or> num f = 22 \<or> num f = 24"
        "entry_locs d f = record_locs (num f) (value f) (d + 1)"
    using proto_step_cases [OF assms(1)] by blast
  then have "proto_step P p d (edit (proto_step P p d) f) = proto_step P p d f
    \<and> entry_locs d (edit (proto_step P p d) f) = map (patched (loc_vals P p)) (entry_locs d f)"
  proof cases
    case keep
    with assms(1) show ?thesis by simp
  next
    case hit
    then have e: "edit (proto_step P p d) f = bytes_field (num f) c"
      using assms(1) by simp
    have "room (loc_vals P p) (record_locs (num f) (value f) (d + 1))" using hit assms(2) by simp
    from rewriteRecord_again [OF hit(3) assms(3) this] hit assms(1) show ?thesis
      unfolding e by (simp add: proto_step_def entry_locs_def)
  qed
  then show "proto_step P p d (edit (proto_step P p d) f) = proto_step P p d f"
    and "entry_locs d (edit (proto_step P p d) f) = map (patched (loc_vals P p)) (entry_locs d f)"
    by simp_all
qed

lemma rewriteProto_again:
  assumes "rewriteProto P b p d = Inr (out, n)" and "length b \<le> maxMessage"
    and "room (loc_vals P p) (proto_locs b d)"
  shows "rewriteProto P out p d = Inr (out, n)"
    and "proto_locs out d = map (patched (loc_vals P p)) (proto_locs b d)"
proof -
  let ?step = "proto_step P p d"
  from rewriteProto_parse [OF assms(1,2)] assms(1) obtain fs where fs: "parse b d = Inr fs"
    and out: "parse out d = Inr (map (edit ?step) fs)" and e: "edit_loop ?step fs = Inr (out, n)"
    by (auto simp: rewriteProto_Inr)
  then have wf: "list_all wf_field fs" "b = concat (map raw fs)" by (auto simp: parse_iff)
  have again: "?step (edit ?step f) = ?step f \<and>
      entry_locs d (edit ?step f) = map (patched (loc_vals P p)) (entry_locs d f)" if f: "f \<in> set fs" for f
  proof -
    from e f obtain r where r: "?step f = Inr r" by (cases "?step f") (auto simp: edit_loop_Inr)
    have "room (loc_vals P p) (entry_locs d f)" using assms(3) f by (simp add: proto_locs_def fs room_concat)
    moreover have "length (value f) \<le> maxMessage"
      using f wf raw_le [OF f] wf_field_size(2) [of f] assms(2) by (auto simp: list_all_iff)
    ultimately show ?thesis using proto_step_again [OF r] by blast
  qed
  then show "rewriteProto P out p d = Inr (out, n)"
    using edit_loop_again [OF e] out by (simp add: rewriteProto_def)
  show "proto_locs out d = map (patched (loc_vals P p)) (proto_locs b d)"
    using again by (simp add: proto_locs_def out fs map_concat comp_def cong: map_cong)
qed

section \<open>Errors\<close>

lemma parse_errors: "parse b d = Inl e \<Longrightarrow> d \<le> maxDepth \<Longrightarrow> e = Malformed"
proof -
  have loop: "read_varint_loop i v r = Inl e \<Longrightarrow> e = Malformed" for i v r
    by (induction i v r rule: read_varint_loop.induct) (auto simp: Let_def split: if_splits)
  then have "readVarint r = Inl e \<Longrightarrow> e = Malformed" for r by (simp add: readVarint_def)
  then have "parse_field r = Inl e \<Longrightarrow> e = Malformed" for r
    by (auto simp: parse_field_def parse_value_def Let_def split: sum.splits if_splits)
  then have "parse_fields k r = Inl e \<Longrightarrow> e = Malformed" for k r
  proof (induction k r rule: parse_fields.induct)
    case (1 k r)
    then show ?case by (subst (asm) (2) parse_fields.simps) (auto split: if_splits sum.splits)
  qed
  then show "parse b d = Inl e \<Longrightarrow> d \<le> maxDepth \<Longrightarrow> e = Malformed"
    by (simp add: parse_def)
qed

lemma record_step_errors:
  "record_step P p t d f = Inl e \<Longrightarrow> d + 1 \<le> maxDepth \<Longrightarrow> e = Malformed"
  using parse_errors [of "value f" "d + 1"]
  by (auto simp: record_step_def Let_def split: if_splits sum.splits)

lemma rewriteRecord_errors:
  "rewriteRecord P b p t d = Inl e \<Longrightarrow> d + 1 \<le> maxDepth \<Longrightarrow> e = Malformed"
  using parse_errors [of b d e]
  by (auto simp: rewriteRecord_def split: sum.splits dest!: edit_loop_Inl intro: record_step_errors)

lemma proto_step_errors:
  "proto_step P p d f = Inl e \<Longrightarrow> d + 2 \<le> maxDepth \<Longrightarrow> e = Malformed"
  by (auto simp: proto_step_def split: if_splits sum.splits intro: rewriteRecord_errors)

lemma rewriteProto_errors:
  "rewriteProto P b p d = Inl e \<Longrightarrow> d + 2 \<le> maxDepth \<Longrightarrow> e = Malformed"
  using parse_errors [of b d e]
  by (auto simp: rewriteProto_def split: sum.splits dest!: edit_loop_Inl intro: proto_step_errors)

section \<open>A rewritten location with too many fields\<close>

text \<open>
  The rewriter checks that its output parses at the top level only: a location that the profile's values
  push over \<open>maxFields\<close> is written, and a second rewrite refuses the message.
\<close>

lemma record_step_full:
  assumes "record_step P p t d f = Inr r" and "\<not> room (loc_vals P p) (field_locs t d f)" and "d + 1 \<le> maxDepth"
  shows "isl (record_step P p t d (edit (record_step P p t d) f))"
proof -
  from record_step_cases [OF assms(1)] assms(2) obtain loc where
    loc: "r = Some (location P loc p, 1)" "parse (value f) (d + 1) = Inr loc" "wire f = 2"
      "num f = (if t = 2 then 2 else 5)" "maxFields < length (patched (loc_vals P p) loc)"
    by (auto simp: not_le)
  have "parse (location P loc p) (d + 1) = Inl Malformed"
    using loc(2,5) assms(3) parse_location [of loc "d + 1" P p] by (auto simp: parse_iff)
  with loc assms(1) show ?thesis by (simp add: record_step_def)
qed

lemma rewriteRecord_full:
  assumes "rewriteRecord P b p t d = Inr (out, n)" and "length b \<le> maxMessage"
    and "\<not> room (loc_vals P p) (record_locs t b d)" and "d + 1 \<le> maxDepth"
  shows "rewriteRecord P out p t d = Inl Malformed"
proof -
  let ?step = "record_step P p t d"
  from rewriteRecord_parse [OF assms(1,2)] obtain fs where fs: "parse b d = Inr fs"
    and out: "parse out d = Inr (map (edit ?step) fs)" and e: "edit_loop ?step fs = Inr (out, n)" by blast
  from assms(3) obtain f where f: "f \<in> set fs" "\<not> room (loc_vals P p) (field_locs t d f)"
    by (auto simp: record_locs_def fs room_concat)
  from e f(1) obtain r where "?step f = Inr r" by (cases "?step f") (auto simp: edit_loop_Inr)
  from record_step_full [OF this f(2) assms(4)] f(1) obtain err where
    "edit_loop ?step (map (edit ?step) fs) = Inl err"
    using edit_loop_stuck [of "edit ?step f" "map (edit ?step) fs" ?step] by auto
  then have "rewriteRecord P out p t d = Inl err" by (simp add: rewriteRecord_def out)
  with rewriteRecord_errors [OF this assms(4)] show ?thesis by simp
qed

lemma proto_step_full:
  assumes "proto_step P p d f = Inr r" and "\<not> room (loc_vals P p) (entry_locs d f)"
    and "length (value f) \<le> maxMessage" and "d + 2 \<le> maxDepth"
  shows "isl (proto_step P p d (edit (proto_step P p d) f))"
proof -
  from proto_step_cases [OF assms(1)] assms(2) obtain c n where
    hit: "r = Some (c, n)" "rewriteRecord P (value f) p (num f) (d + 1) = Inr (c, n)" "wire f = 2"
      "num f = 2 \<or> num f = 22 \<or> num f = 24" "\<not> room (loc_vals P p) (record_locs (num f) (value f) (d + 1))"
    by auto
  have "rewriteRecord P c p (num f) (d + 1) = Inl Malformed"
    by (rule rewriteRecord_full [OF hit(2) assms(3) hit(5)]) (use assms(4) in simp)
  with hit assms(1) show ?thesis by (simp add: proto_step_def)
qed

lemma rewriteProto_full:
  assumes "rewriteProto P b p d = Inr (out, n)" and "length b \<le> maxMessage"
    and "\<not> room (loc_vals P p) (proto_locs b d)" and "d + 2 \<le> maxDepth"
  shows "rewriteProto P out p d = Inl Malformed"
proof -
  let ?step = "proto_step P p d"
  from rewriteProto_parse [OF assms(1,2)] assms(1) obtain fs where fs: "parse b d = Inr fs"
    and out: "parse out d = Inr (map (edit ?step) fs)" and e: "edit_loop ?step fs = Inr (out, n)"
    by (auto simp: rewriteProto_Inr)
  then have wf: "list_all wf_field fs" "b = concat (map raw fs)" by (auto simp: parse_iff)
  from assms(3) obtain f where f: "f \<in> set fs" "\<not> room (loc_vals P p) (entry_locs d f)"
    by (auto simp: proto_locs_def fs room_concat)
  from e f(1) obtain r where r: "?step f = Inr r" by (cases "?step f") (auto simp: edit_loop_Inr)
  have "length (value f) \<le> maxMessage"
    using f wf raw_le [OF f(1)] wf_field_size(2) [of f] assms(2) by (auto simp: list_all_iff)
  from proto_step_full [OF r f(2) this assms(4)] f(1) obtain err where
    "edit_loop ?step (map (edit ?step) fs) = Inl err"
    using edit_loop_stuck [of "edit ?step f" "map (edit ?step) fs" ?step] by auto
  then have "rewriteProto P out p d = Inl err" by (simp add: rewriteProto_def out)
  with rewriteProto_errors [OF this assms(4)] show ?thesis by simp
qed

end
