(* ===== verification/Envelope.thy ===== *)
theory Envelope
  imports Rewrite
begin

unbundle bit_operations_syntax

text \<open>
  The envelopes around a WLoc payload and \<open>RewriteBody\<close>, from
  \<open>internal/provider/applewloc/wloc.go\<close>.

  \<open>unwrap\<close> returns \<open>Inr None\<close> where the Go code returns \<open>ok = false\<close>, and the payload with the wrapping
  closure where it returns \<open>ok = true\<close>. The contract proved here is \<open>framed\<close>: an envelope is a prefix, a
  length and a suffix, and a rewrite replaces the payload and the length and nothing else.
\<close>

datatype kind = FixedPrefix | Arpc | Marker | Bare

fun kind_name :: "kind \<Rightarrow> string" where
  "kind_name FixedPrefix = ''fixed-prefix''"
| "kind_name Arpc = ''arpc''"
| "kind_name Marker = ''marker''"
| "kind_name Bare = ''bare''"

record result =
  Envelope :: kind
  Locations :: nat

section \<open>The code\<close>

type_synonym unwrapped = "(bytes \<times> (bytes \<Rightarrow> bytes)) option"

definition looksLikeFixedPrefix :: "bytes \<Rightarrow> bool" where
  "looksLikeFixedPrefix p \<longleftrightarrow>
     length p = 8 \<and> p ! 0 = 0 \<and> p ! 1 = 1 \<and> p ! 2 = 0 \<and> p ! 3 = 0 \<and> p ! 4 = 0 \<and> p ! 6 = 0 \<and> p ! 7 = 0"

definition unwrap_fixed :: "bytes \<Rightarrow> unwrapped" where
  "unwrap_fixed b =
     (if length b < 10 \<or> \<not> looksLikeFixedPrefix (take 8 b) then None
      else let l = be16_at b 8 in
        if l > length b - 10 then None
        else let p = gslice 10 (10 + l) b in
          case parse p 0 of
            Inl _ \<Rightarrow> None
          | Inr _ \<Rightarrow> Some (p, \<lambda>x. (take 8 b @ put16 (length x)) @ x @ drop (10 + l) b))"

fun arpc_skip :: "nat \<Rightarrow> bytes \<Rightarrow> nat \<Rightarrow> nat option" where
  "arpc_skip 0 b i = Some i"
| "arpc_skip (Suc j) b i =
     (if length b - i < 2 then None
      else let l = be16_at b i
           in if l > length b - (i + 2) then None else arpc_skip j b (i + 2 + l))"

definition unwrap_arpc :: "bytes \<Rightarrow> unwrapped" where
  "unwrap_arpc b =
     (case arpc_skip 3 b 2 of
        None \<Rightarrow> None
      | Some i0 \<Rightarrow>
          if length b - i0 < 8 then None
          else let l = be32_at b (i0 + 4); i = i0 + 8 in
            if l > length b - i then None
            else let p = gslice i (i + l) b in
              case parse p 0 of
                Inl _ \<Rightarrow> None
              | Inr _ \<Rightarrow> Some (p, \<lambda>x. take (i - 4) b @ put32 (length x) @ x @ drop (i + l) b))"

definition marker_bytes :: bytes where "marker_bytes = [0, 0, 0, 1, 0, 0]"

text \<open>The scan for the marker, with \<open>idx\<close> as an option for the Go code's \<open>-1\<close>.\<close>

function marker_scan :: "bytes \<Rightarrow> nat \<Rightarrow> nat option \<Rightarrow> wloc_error + nat option" where
  "marker_scan b i idx =
     (if i + 6 + 2 \<le> length b then
        (if gslice i (i + 6) b = marker_bytes then
           let l = be16_at b (i + 6) in
           if l \<le> length b - i - 6 - 2 then
             (case parse (gslice (i + 8) (i + 8 + l) b) 0 of
                Inl _ \<Rightarrow> marker_scan b (i + 1) idx
              | Inr _ \<Rightarrow> (case idx of Some _ \<Rightarrow> Inl Ambiguous
                                   | None \<Rightarrow> marker_scan b (i + 1) (Some i)))
           else marker_scan b (i + 1) idx
         else marker_scan b (i + 1) idx)
      else Inr idx)"
  by pat_completeness auto
termination
  by (relation "measure (\<lambda>(b, i, idx). length b - i)") auto

declare marker_scan.simps [simp del]

definition unwrap_marker :: "bytes \<Rightarrow> wloc_error + unwrapped" where
  "unwrap_marker b =
     (case marker_scan b 0 None of
        Inl e \<Rightarrow> Inl e
      | Inr None \<Rightarrow> Inr None
      | Inr (Some idx) \<Rightarrow>
          let l = be16_at b (idx + 6); start = idx + 8
          in Inr (Some (gslice start (start + l) b,
               \<lambda>x. take (idx + 6) b @ put16 (length x) @ x @ drop (start + l) b)))"

fun unwrap :: "bytes \<Rightarrow> kind \<Rightarrow> wloc_error + unwrapped" where
  "unwrap b FixedPrefix = Inr (unwrap_fixed b)"
| "unwrap b Arpc = Inr (unwrap_arpc b)"
| "unwrap b Marker = unwrap_marker b"
| "unwrap b Bare = (case parse b 0 of Inl _ \<Rightarrow> Inr None | Inr _ \<Rightarrow> Inr (Some (b, \<lambda>x. x)))"

fun try_kinds :: "platform \<Rightarrow> bytes \<Rightarrow> profile \<Rightarrow> kind list \<Rightarrow> wloc_error + bytes \<times> result" where
  "try_kinds P body p [] = Inl Unsupported"
| "try_kinds P body p (k # ks) =
     (case unwrap body k of
        Inl e \<Rightarrow> if is_ErrAmbiguous e then Inl e else try_kinds P body p ks
      | Inr None \<Rightarrow> try_kinds P body p ks
      | Inr (Some (payload, wrap)) \<Rightarrow>
          (case rewriteProto P payload p 0 of
             Inl e \<Rightarrow> Inl e
           | Inr (out, n) \<Rightarrow>
               if n = 0 then try_kinds P body p ks
               else (case parse out 0 of
                  Inl e \<Rightarrow> Inl e
                | Inr _ \<Rightarrow>
                    if (k = FixedPrefix \<or> k = Marker) \<and> length out > 65535 then Inl PayloadLimit
                    else Inr (wrap out, \<lparr>Envelope = k, Locations = n\<rparr>))))"

definition kinds :: "kind list" where
  "kinds = [FixedPrefix, Arpc, Marker, Bare]"

definition RewriteBody ::
  "platform \<Rightarrow> bytes option \<Rightarrow> bytes \<Rightarrow> profile \<Rightarrow> wloc_error + bytes \<times> result"
where
  "RewriteBody P entropy body p =
     (case Profile_Validate p of
        Some e \<Rightarrow> Inl e
      | None \<Rightarrow>
          if length body > maxMessage then Inl BodyLimit
          else try_kinds P body (jitterProfile P entropy p) kinds)"

section \<open>Envelopes are a prefix, a length and a suffix\<close>

fun framed :: "kind \<Rightarrow> bytes \<Rightarrow> bytes \<Rightarrow> bytes \<Rightarrow> bytes" where
  "framed FixedPrefix pre x suf = pre @ put16 (length x) @ x @ suf"
| "framed Arpc pre x suf = pre @ put32 (length x) @ x @ suf"
| "framed Marker pre x suf = pre @ put16 (length x) @ x @ suf"
| "framed Bare pre x suf = x"

lemma two_bytes: "i + 2 \<le> length b \<Longrightarrow> put16 (be16_at b i) = gslice i (i + 2) b"
  by (simp add: be16_at_def put16_be16 gslice_def take_Suc_conv_app_nth Cons_nth_drop_Suc [symmetric]
      numeral_2_eq_2)

lemma four_bytes: "i + 4 \<le> length b \<Longrightarrow> put32 (be32_at b i) = gslice i (i + 4) b"
  by (simp add: be32_at_def put32_be32 gslice_def Cons_nth_drop_Suc [symmetric] eval_nat_numeral)

lemma frame_split:
  assumes "j = i + w" and "k = j + l"
  shows "b = take i b @ gslice i j b @ gslice j k b @ drop k b"
proof -
  have "gslice j k b @ drop k b = drop j b"
    using assms by (simp add: gslice_def) (metis append_take_drop_id drop_drop add.commute)
  moreover have "gslice i j b @ drop j b = drop i b"
    using assms by (simp add: gslice_def) (metis append_take_drop_id drop_drop add.commute)
  ultimately show ?thesis by simp
qed

text \<open>Where a length was read and its payload cut out, the input is framed.\<close>

lemma framed16:
  assumes "j = i + 2" and "j \<le> length b" and "l = be16_at b i" and "l \<le> length b - j"
  shows "b = take i b @ put16 (length (gslice j (j + l) b)) @ gslice j (j + l) b @ drop (j + l) b"
proof -
  have "length (gslice j (j + l) b) = l" using assms by simp
  with two_bytes [of i b] frame_split [of j i 2 "j + l" l b] assms(1,2,3) show ?thesis
    by simp
qed

lemma framed32:
  assumes "j = i + 4" and "j \<le> length b" and "l = be32_at b i" and "l \<le> length b - j"
  shows "b = take i b @ put32 (length (gslice j (j + l) b)) @ gslice j (j + l) b @ drop (j + l) b"
proof -
  have "length (gslice j (j + l) b) = l" using assms by simp
  with four_bytes [of i b] frame_split [of j i 4 "j + l" l b] assms(1,2,3) show ?thesis
    by simp
qed

section \<open>The marker envelope is taken only when it is unique\<close>

definition marker_at :: "bytes \<Rightarrow> nat \<Rightarrow> bool" where
  "marker_at b i \<longleftrightarrow> i + 6 + 2 \<le> length b \<and> gslice i (i + 6) b = marker_bytes
     \<and> be16_at b (i + 6) \<le> length b - i - 6 - 2
     \<and> \<not> isl (parse (gslice (i + 8) (i + 8 + be16_at b (i + 6)) b) 0)"

fun scan_result :: "nat option \<Rightarrow> nat list \<Rightarrow> wloc_error + nat option" where
  "scan_result idx [] = Inr idx"
| "scan_result None [j] = Inr (Some j)"
| "scan_result _ _ = Inl Ambiguous"

lemma scan_result_step:
  "scan_result (Some i) js = scan_result None (i # js)" "scan_result (Some j) (i # js) = Inl Ambiguous"
  by (cases js; simp)+

lemma marker_scan_step:
  "marker_scan b i idx =
     (if i + 6 + 2 \<le> length b then
        if marker_at b i then
          (case idx of Some _ \<Rightarrow> Inl Ambiguous | None \<Rightarrow> marker_scan b (i + 1) (Some i))
        else marker_scan b (i + 1) idx
      else Inr idx)"
  by (subst marker_scan.simps)
     (cases "parse (gslice (i + 8) (i + 8 + be16_at b (i + 6)) b) 0"; simp add: marker_at_def Let_def)

lemma marker_scan_eq:
  "marker_scan b i idx = scan_result idx (filter (marker_at b) [i..<length b])"
proof (induction "length b - i" arbitrary: i idx)
  case 0
  then show ?case by (subst marker_scan_step) simp
next
  case (Suc k)
  then have IH: "marker_scan b (i + 1) idx' = scan_result idx' (filter (marker_at b) [i + 1..<length b])"
    for idx' by (intro Suc.hyps) simp
  show ?case
  proof (cases "i + 6 + 2 \<le> length b")
    case False
    then have "filter (marker_at b) [i..<length b] = []" by (auto simp: marker_at_def filter_empty_conv)
    with False show ?thesis by (subst marker_scan_step) (simp only: if_False scan_result.simps)
  next
    case True
    then have up: "[i..<length b] = i # [i + 1..<length b]" by (simp add: upt_conv_Cons)
    show ?thesis
      by (subst marker_scan_step) (simp add: True [simplified] IH [simplified] up scan_result_step split: option.split)
  qed
qed

lemma marker_scan_Some:
  "marker_scan b 0 None = Inr (Some j) \<longleftrightarrow> filter (marker_at b) [0..<length b] = [j]"
  unfolding marker_scan_eq by (cases "filter (marker_at b) [0..<length b]" rule: list.exhaust)
    (auto simp: neq_Nil_conv elim: scan_result.elims)

section \<open>Unwrapping is framing\<close>

lemma unwrap_fixed_framed:
  assumes "unwrap_fixed b = Some (p, wrap)"
  shows "b = framed FixedPrefix (take 8 b) p (drop (10 + length p) b)"
    and "wrap = (\<lambda>x. framed FixedPrefix (take 8 b) x (drop (10 + length p) b))"
    and "length b \<ge> 10" and "looksLikeFixedPrefix (take 8 b)" and "\<exists>fs. parse p 0 = Inr fs"
proof -
  let ?l = "be16_at b 8"
  from assms have l: "length b \<ge> 10" "looksLikeFixedPrefix (take 8 b)" "?l \<le> length b - 10"
    and p: "p = gslice 10 (10 + ?l) b" "\<exists>fs. parse p 0 = Inr fs"
    and w: "wrap = (\<lambda>x. (take 8 b @ put16 (length x)) @ x @ drop (10 + ?l) b)"
    by (auto simp: unwrap_fixed_def Let_def split: if_splits sum.splits)
  from l p(1) have len: "length p = ?l" by simp
  show "b = framed FixedPrefix (take 8 b) p (drop (10 + length p) b)"
    using framed16 [of 10 8 b ?l] l len by (simp add: p(1))
  show "wrap = (\<lambda>x. framed FixedPrefix (take 8 b) x (drop (10 + length p) b))"
    using w len by simp
  show "length b \<ge> 10" "looksLikeFixedPrefix (take 8 b)" "\<exists>fs. parse p 0 = Inr fs" by (fact l p)+
qed

lemma arpc_skip_bounds: "arpc_skip j b i = Some i' \<Longrightarrow> i + 2 * j \<le> i' \<and> (0 < j \<longrightarrow> i' \<le> length b)"
  by (induction j b i rule: arpc_skip.induct) (force simp: Let_def split: if_splits)+

lemma be16_at_prefix: "i + 2 \<le> m \<Longrightarrow> m \<le> length b \<Longrightarrow> be16_at (take m b @ s) i = be16_at b i"
  by (simp add: be16_at_def nth_append)

lemma arpc_skip_prefix:
  "arpc_skip j b i = Some i' \<Longrightarrow> i' \<le> m \<Longrightarrow> m \<le> length b \<Longrightarrow> arpc_skip j (take m b @ s) i = Some i'"
proof (induction j b i rule: arpc_skip.induct)
  case (2 j b i)
  let ?l = "be16_at b i"
  from "2.prems"(1) have c: "\<not> length b - i < 2" "\<not> ?l > length b - (i + 2)"
    and r: "arpc_skip j b (i + 2 + ?l) = Some i'"
    by (auto simp: Let_def split: if_splits)
  from arpc_skip_bounds [OF r] "2.prems"(2) have le: "i + 2 + ?l \<le> m" by linarith
  have "arpc_skip j (take m b @ s) (i + 2 + ?l) = Some i'"
    using "2.IH" [OF c(1) refl c(2) r] "2.prems" by simp
  moreover have "be16_at (take m b @ s) i = ?l"
    using le "2.prems"(3) by (intro be16_at_prefix) simp_all
  moreover have "\<not> length (take m b @ s) - i < 2" "\<not> ?l > length (take m b @ s) - (i + 2)"
    using le "2.prems"(3) by auto
  ultimately show ?case by (simp only: arpc_skip.simps Let_def if_False)
qed simp

lemma unwrap_arpc_framed:
  assumes "unwrap_arpc b = Some (p, wrap)"
  obtains i where "arpc_skip 3 b 2 = Some i" and "i + 8 + length p \<le> length b"
    and "b = framed Arpc (take (i + 4) b) p (drop (i + 8 + length p) b)"
    and "wrap = (\<lambda>x. framed Arpc (take (i + 4) b) x (drop (i + 8 + length p) b))"
    and "\<exists>fs. parse p 0 = Inr fs"
proof -
  from assms obtain i where i: "arpc_skip 3 b 2 = Some i" and l: "length b - i \<ge> 8"
    "be32_at b (i + 4) \<le> length b - (i + 8)"
    and p: "p = gslice (i + 8) (i + 8 + be32_at b (i + 4)) b" "\<exists>fs. parse p 0 = Inr fs"
    and w: "wrap = (\<lambda>x. take (i + 8 - 4) b @ put32 (length x) @ x @ drop (i + 8 + be32_at b (i + 4)) b)"
    by (auto simp: unwrap_arpc_def Let_def not_less split: option.splits if_splits sum.splits)
  from l p(1) have len: "length p = be32_at b (i + 4)" by simp
  show thesis
  proof (rule that [OF i])
    show "i + 8 + length p \<le> length b" using len l by linarith
    show "b = framed Arpc (take (i + 4) b) p (drop (i + 8 + length p) b)"
      using framed32 [of "i + 8" "i + 4" b "be32_at b (i + 4)"] l len by (simp add: p(1))
    show "wrap = (\<lambda>x. framed Arpc (take (i + 4) b) x (drop (i + 8 + length p) b))"
      using w len by (simp add: add.commute)
  qed (rule p(2))
qed

lemma unwrap_marker_framed:
  assumes "unwrap_marker b = Inr (Some (p, wrap))"
  obtains i where "filter (marker_at b) [0..<length b] = [i]"
    and "b = framed Marker (take (i + 6) b) p (drop (i + 8 + length p) b)"
    and "wrap = (\<lambda>x. framed Marker (take (i + 6) b) x (drop (i + 8 + length p) b))"
    and "\<exists>fs. parse p 0 = Inr fs"
proof -
  from assms obtain i where s: "marker_scan b 0 None = Inr (Some i)"
    and p: "p = gslice (i + 8) (i + 8 + be16_at b (i + 6)) b"
    and w: "wrap = (\<lambda>x. take (i + 6) b @ put16 (length x) @ x @ drop (i + 8 + be16_at b (i + 6)) b)"
    by (auto simp: unwrap_marker_def Let_def split: sum.splits option.splits)
  from s have f: "filter (marker_at b) [0..<length b] = [i]" by (simp add: marker_scan_Some)
  then have "i \<in> set (filter (marker_at b) [0..<length b])" by simp
  then have m: "marker_at b i" by simp
  then have l: "i + 8 \<le> length b" "be16_at b (i + 6) \<le> length b - (i + 8)"
    by (auto simp: marker_at_def)
  from l p have len: "length p = be16_at b (i + 6)" by simp
  show thesis
  proof (rule that [OF f])
    show "b = framed Marker (take (i + 6) b) p (drop (i + 8 + length p) b)"
      using framed16 [of "i + 8" "i + 6" b "be16_at b (i + 6)"] l len by (simp add: p)
    show "wrap = (\<lambda>x. framed Marker (take (i + 6) b) x (drop (i + 8 + length p) b))"
      using w len by simp
    show "\<exists>fs. parse p 0 = Inr fs"
      using m unfolding p marker_at_def isl_def by (meson sum.exhaust)
  qed
qed

lemma unwrap_framed:
  assumes "unwrap b k = Inr (Some (p, wrap))"
  shows "\<exists>pre suf. b = framed k pre p suf \<and> wrap = (\<lambda>x. framed k pre x suf)"
    and "\<exists>fs. parse p 0 = Inr fs" and "length p \<le> length b"
proof -
  have "(\<exists>pre suf. b = framed k pre p suf \<and> wrap = (\<lambda>x. framed k pre x suf)) \<and> (\<exists>fs. parse p 0 = Inr fs)"
  proof (cases k)
    case FixedPrefix
    with assms have "unwrap_fixed b = Some (p, wrap)" by simp
    from unwrap_fixed_framed [OF this] FixedPrefix show ?thesis by blast
  next
    case Arpc
    with assms have "unwrap_arpc b = Some (p, wrap)" by simp
    then show ?thesis by (rule unwrap_arpc_framed) (use Arpc in blast)
  next
    case Marker
    with assms have "unwrap_marker b = Inr (Some (p, wrap))" by simp
    then show ?thesis by (rule unwrap_marker_framed) (use Marker in blast)
  next
    case Bare
    with assms show ?thesis by (auto split: sum.splits)
  qed
  then show "\<exists>pre suf. b = framed k pre p suf \<and> wrap = (\<lambda>x. framed k pre x suf)"
    and "\<exists>fs. parse p 0 = Inr fs" by blast+
  then obtain pre suf where "b = framed k pre p suf" by blast
  then have "length b = length (framed k pre p suf)" by simp
  then show "length p \<le> length b" by (cases k) auto
qed

lemma unwrap_errors: "unwrap b k = Inl e \<Longrightarrow> e = Ambiguous \<and> k = Marker"
proof -
  have "scan_result idx js = Inl e \<Longrightarrow> e = Ambiguous" for idx js
    by (induction idx js rule: scan_result.induct) auto
  then show "unwrap b k = Inl e \<Longrightarrow> e = Ambiguous \<and> k = Marker"
    by (cases k) (auto simp: unwrap_marker_def marker_scan_eq Let_def split: sum.splits option.splits)
qed

section \<open>Unwrapping a rewritten body again\<close>

lemma unwrap_fixed_again:
  assumes "unwrap_fixed b = Some (p, wrap)" and "length x < 65536" and "parse x 0 = Inr fs"
  shows "unwrap_fixed (wrap x) = Some (x, wrap)"
proof -
  note u = unwrap_fixed_framed [OF assms(1)]
  let ?suf = "drop (10 + length p) b"
  have w: "wrap x = take 8 b @ put16 (length x) @ x @ ?suf" using u(2) by simp
  have pre: "length (take 8 b) = 8" using u(3) by simp
  have l: "be16_at (wrap x) 8 = length x"
    unfolding w using pre assms(2) by (intro be16_at_put16) simp_all
  have g: "gslice 10 (10 + length x) (wrap x) = x" "drop (10 + length x) (wrap x) = ?suf"
    "take 8 (wrap x) = take 8 b" "length (wrap x) \<ge> 10 + length x"
    unfolding w using pre by (simp_all add: gslice_def)
  show ?thesis
    unfolding unwrap_fixed_def using g l u(2,4) assms(3) by (simp add: Let_def del: gslice_0)
qed

lemma unwrap_arpc_again:
  assumes "unwrap_arpc b = Some (p, wrap)" and "length x < 4294967296" and "parse x 0 = Inr fs"
  shows "unwrap_arpc (wrap x) = Some (x, wrap)"
proof -
  from assms(1) obtain i where i: "arpc_skip 3 b 2 = Some i" "i + 8 + length p \<le> length b"
    and wrap: "wrap = (\<lambda>x. framed Arpc (take (i + 4) b) x (drop (i + 8 + length p) b))"
    by (rule unwrap_arpc_framed)
  let ?suf = "drop (i + 8 + length p) b"
  have w: "wrap x = take (i + 4) b @ put32 (length x) @ x @ ?suf" using wrap by simp
  have pre: "length (take (i + 4) b) = i + 4" using i(2) by simp
  have skip: "arpc_skip 3 (wrap x) 2 = Some i"
    unfolding w using arpc_skip_prefix [OF i(1), of "i + 4"] i(2) by simp
  have l: "be32_at (wrap x) (i + 4) = length x"
    unfolding w using pre assms(2) by (intro be32_at_put32) simp_all
  have g: "gslice (i + 8) (i + 8 + length x) (wrap x) = x" "drop (i + 8 + length x) (wrap x) = ?suf"
    "take (i + 4) (wrap x) = take (i + 4) b" "length (wrap x) \<ge> i + 8 + length x"
    unfolding w using pre by (simp_all add: gslice_def)
  have "i + 8 - 4 = i + 4" by simp
  with g l skip assms(3) show ?thesis
    by (simp add: unwrap_arpc_def Let_def) (simp add: wrap add.commute)
qed

section \<open>RewriteBody\<close>

lemma try_kinds_Inr:
  "try_kinds P b p ks = Inr (out, r) \<Longrightarrow>
   \<exists>payload wrap x. Envelope r \<in> set ks \<and> unwrap b (Envelope r) = Inr (Some (payload, wrap))
     \<and> rewriteProto P payload p 0 = Inr (x, Locations r) \<and> 0 < Locations r \<and> out = wrap x
     \<and> (Envelope r \<in> {FixedPrefix, Marker} \<longrightarrow> length x \<le> 65535)"
  by (induction ks) (auto split: sum.splits option.splits if_splits)

text \<open>
  A kind declines a body that it does not recognise or that holds no location, and the next kind is tried;
  it refuses a body with the error \<open>e\<close>, and the search ends.
\<close>

definition declines :: "platform \<Rightarrow> bytes \<Rightarrow> profile \<Rightarrow> kind \<Rightarrow> bool" where
  "declines P b p k \<longleftrightarrow>
     (case unwrap b k of
        Inl e \<Rightarrow> False
      | Inr None \<Rightarrow> True
      | Inr (Some (payload, wrap)) \<Rightarrow>
          (case rewriteProto P payload p 0 of Inl e \<Rightarrow> False | Inr (x, n) \<Rightarrow> n = 0))"

definition refuses :: "platform \<Rightarrow> bytes \<Rightarrow> profile \<Rightarrow> kind \<Rightarrow> wloc_error \<Rightarrow> bool" where
  "refuses P b p k e \<longleftrightarrow>
     (e = Ambiguous \<and> k = Marker \<and> 2 \<le> length (filter (marker_at b) [0..<length b]))
     \<or> (\<exists>payload wrap. unwrap b k = Inr (Some (payload, wrap)) \<and>
          ((e = Malformed \<and> rewriteProto P payload p 0 = Inl Malformed)
           \<or> (e = PayloadLimit \<and> k \<in> {FixedPrefix, Marker}
              \<and> (\<exists>x n. rewriteProto P payload p 0 = Inr (x, n) \<and> 0 < n \<and> 65535 < length x))))"

lemma unwrap_ambiguous:
  "unwrap b k = Inl e \<longleftrightarrow> e = Ambiguous \<and> k = Marker \<and> 2 \<le> length (filter (marker_at b) [0..<length b])"
proof -
  have scan: "scan_result None js = Inl e \<longleftrightarrow> e = Ambiguous \<and> 2 \<le> length js" for js
    by (cases "(None :: nat option, js)" rule: scan_result.cases) auto
  have "unwrap b Marker = Inl e \<longleftrightarrow> scan_result None (filter (marker_at b) [0..<length b]) = Inl e"
    by (auto simp: unwrap_marker_def marker_scan_eq Let_def split: sum.splits option.splits)
  then show ?thesis
    by (cases k) (auto simp: scan split: sum.splits)
qed

lemma try_kinds_declined: "declines P b p k \<Longrightarrow> try_kinds P b p (k # ks) = try_kinds P b p ks \<and> \<not> refuses P b p k e"
  using unwrap_ambiguous [of b k Ambiguous]
  by (auto simp: declines_def refuses_def split: sum.splits option.splits)

lemma try_kinds_refused:
  assumes "length b \<le> maxMessage" and "\<not> declines P b p k"
  shows "try_kinds P b p (k # ks) = Inl e \<longleftrightarrow> refuses P b p k e"
proof (cases "unwrap b k")
  case (Inl e')
  then show ?thesis using unwrap_ambiguous [of b k e'] by (auto simp: refuses_def)
next
  case (Inr u)
  with assms(2) obtain payload wrap where u: "unwrap b k = Inr (Some (payload, wrap))"
    by (cases u) (auto simp: declines_def)
  then have na: "\<not> (k = Marker \<and> 2 \<le> length (filter (marker_at b) [0..<length b]))"
    using unwrap_ambiguous [of b k Ambiguous] by auto
  show ?thesis
  proof (cases "rewriteProto P payload p 0")
    case (Inl e')
    then have "e' = Malformed" by (rule rewriteProto_errors) (simp add: maxDepth_def)
    with Inl u na show ?thesis by (auto simp: refuses_def)
  next
    case (Inr xn)
    obtain x n where x: "rewriteProto P payload p 0 = Inr (x, n)" using Inr by (cases xn) simp
    have "\<exists>fs. parse x 0 = Inr fs"
      using rewriteProto_parse [OF x] unwrap_framed(3) [OF u] assms(1) by auto
    moreover have "n \<noteq> 0" using assms(2) u x by (simp add: declines_def)
    ultimately show ?thesis using u x na by (auto simp: refuses_def)
  qed
qed

lemma try_kinds_Inl:
  assumes "length b \<le> maxMessage"
  shows "try_kinds P b p ks = Inl e \<longleftrightarrow>
    (e = Unsupported \<and> list_all (declines P b p) ks)
    \<or> (\<exists>k \<in> set ks. list_all (declines P b p) (takeWhile (\<lambda>j. j \<noteq> k) ks) \<and> refuses P b p k e)"
proof (induction ks)
  case (Cons k ks)
  show ?case
  proof (cases "declines P b p k")
    case True
    with try_kinds_declined [OF True, of _ e] Cons show ?thesis by auto
  next
    case False
    have "refuses P b p k e \<longleftrightarrow> try_kinds P b p (k # ks) = Inl e"
      by (rule try_kinds_refused [OF assms False, symmetric])
    with False show ?thesis by auto
  qed
qed auto

lemma RewriteBody_Inr:
  "RewriteBody P ent body p = Inr (out, r) \<longleftrightarrow>
   Profile_Validate p = None \<and> length body \<le> maxMessage
     \<and> try_kinds P body (jitterProfile P ent p) kinds = Inr (out, r)"
  by (auto simp: RewriteBody_def split: option.splits)

lemma jitterProfile_none: "f_le (RandomRadius p) (f_int 0) \<Longrightarrow> jitterProfile P ent p = p"
  by (simp add: jitterProfile_def)

lemma put32_exact:
  "length b \<le> maxMessage \<Longrightarrow> rewriteProto P b p d = Inr (x, n) \<Longrightarrow> length x < 4294967296"
  using rewriteProto_length [of P b p d x n] by (simp add: maxMessage_def)

end
