(* ===== verification/Wloc_Correct.thy ===== *)
theory Wloc_Correct
  imports Envelope
begin

unbundle bit_operations_syntax

text \<open>
  What \<open>internal/provider/applewloc/wloc.go\<close> guarantees: the properties of the decoder, of the location
  rewriter and of \<open>RewriteBody\<close>, each with an instance at a concrete input.
\<close>

section \<open>Concrete inputs\<close>

definition sample_platform :: platform where
  "sample_platform = \<lparr>oor_int64 = \<lambda>_. 0, m_add = \<lambda>x y. x, m_sub = \<lambda>x y. x, m_mul = f_mul,
     m_div = \<lambda>x y. x, m_sqrt = \<lambda>x. x, m_sin = \<lambda>x. x, m_cos = \<lambda>x. x, m_asin = \<lambda>x. x,
     m_atan2 = \<lambda>x y. x, m_mod = \<lambda>x y. x\<rparr>"

definition sample_profile :: profile where
  "sample_profile = \<lparr>Latitude = f_int 1, Longitude = f_int (- 2), Altitude = f_int 7,
     HorizontalAccuracy = f_int 25, VerticalAccuracy = f_int 10, RandomRadius = f_int 0,
     MotionType = Some 5, MotionConfidence = None, InsertMissingLocation = False\<rparr>"

text \<open>A payload with one record of type 2 that holds one location, after a field the rewriter ignores.\<close>

definition sample_payload :: bytes where
  "sample_payload = [0x08, 1, 0x12, 6, 0x12, 4, 0x08, 1, 0x10, 1]"

definition sample_body :: bytes where
  "sample_body = [0, 1, 0, 0, 0, 1, 0, 0, 0, 10] @ sample_payload @ [0xAA]"

definition sample_location :: bytes where
  "sample_location = [0x08, 0x80, 0xC2, 0xD7, 0x2F, 0x10, 0x80, 0xFC, 0xD0, 0xA0, 0xFF, 0xFF, 0xFF, 0xFF, 0xFF, 0x01,
     0x18, 25, 0x28, 7, 0x30, 10, 0x58, 5]"

definition sample_out :: bytes where
  "sample_out = [0, 1, 0, 0, 0, 1, 0, 0, 0, 30, 0x08, 1, 0x12, 26, 0x12, 24] @ sample_location @ [0xAA]"

lemma sample_convert:
  "f_to_int64 oor (f_nearest (f_mul (f_int 1) (f_int 100000000))) = 100000000"
  "f_to_int64 oor (f_nearest (f_mul (f_int (- 2)) (f_int 100000000))) = 18446744073509551616"
  "f_to_int64 oor (f_nearest (f_int 25)) = 25"
  "f_to_int64 oor (f_nearest (f_int 7)) = 7"
  "f_to_int64 oor (f_nearest (f_int 10)) = 10"
  by (simp_all add: f_to_int64_def f_int_def smant_def in_int64_def f_round_def bitlen.simps
      Let_def rne_def)

lemma sample_vals:
  "loc_vals sample_platform sample_profile =
     [1 \<mapsto> 100000000, 2 \<mapsto> 18446744073509551616, 3 \<mapsto> 25, 5 \<mapsto> 7, 6 \<mapsto> 10, 11 \<mapsto> 5]"
  by (simp add: loc_vals_def sample_platform_def sample_profile_def sample_convert)

lemma sample_motion: "MotionType sample_profile = Some 5" "MotionConfidence sample_profile = None"
  by (simp_all add: sample_profile_def)

lemma sample_valid: "Profile_Validate sample_profile = None"
  by (simp add: Profile_Validate_def sample_profile_def f_int_def smant_def)

lemma sample_jitter: "jitterProfile P ent sample_profile = sample_profile"
  by (rule jitterProfile_none) (simp add: sample_profile_def f_int_def smant_def f_le_def)

lemma small_words: "\<not> (128 :: u64) \<le> 1" "\<not> (536870912 :: 32 word) \<le> 1"
  by (simp_all add: word_le_nat_alt)

lemmas parse_eval = parse_def parse_fields.simps maxDepth_def maxFields_def parse_field_def
  readVarint_def parse_value_def Let_def small_words

lemmas rewrite_eval = rewriteProto_def rewriteRecord_def proto_step_def record_step_def
  location_def loc_nums_def hasLocation_def i64_def key_def encVarint.simps
  sample_vals sample_motion

lemma sample_parsed:
  "parse sample_payload 0 =
     Inr [\<lparr>num = 1, wire = 0, raw = [0x08, 1], value = [1]\<rparr>,
          \<lparr>num = 2, wire = 2, raw = [0x12, 6, 0x12, 4, 0x08, 1, 0x10, 1], value = [0x12, 4, 0x08, 1, 0x10, 1]\<rparr>]"
  by (simp add: sample_payload_def parse_eval)

lemma sample_proto:
  "rewriteProto sample_platform sample_payload sample_profile 0 =
     Inr ([0x08, 1, 0x12, 26, 0x12, 24] @ sample_location, 1)"
  by (simp add: parse_eval rewrite_eval sample_payload_def sample_location_def)

lemma sample_unwrap: "unwrap_fixed sample_body = Some (sample_payload,
    \<lambda>x. (take 8 sample_body @ put16 (length x)) @ x @ [0xAA])"
proof -
  have p: "gslice 10 20 sample_body = sample_payload" "be16_at sample_body 8 = 10"
    "looksLikeFixedPrefix (take 8 sample_body)" "length sample_body = 21" "drop 20 sample_body = [0xAA]"
    by (simp_all add: sample_body_def sample_payload_def gslice_def be16_at_def be16_def
        looksLikeFixedPrefix_def)
  then show ?thesis by (simp add: unwrap_fixed_def sample_parsed)
qed

lemma sample_rewrite:
  "RewriteBody sample_platform None sample_body sample_profile
     = Inr (sample_out, \<lparr>Envelope = FixedPrefix, Locations = 1\<rparr>)"
proof -
  have p: "\<exists>fs. parse ([0x08, 1, 0x12, 26, 0x12, 24] @ sample_location) 0 = Inr fs"
    by (simp add: sample_location_def parse_eval)
  have "length sample_body \<le> maxMessage"
    by (simp add: sample_body_def sample_payload_def maxMessage_def)
  with p show ?thesis
    by (auto simp: RewriteBody_def sample_valid sample_jitter kinds_def sample_unwrap sample_proto)
      (simp_all add: sample_location_def sample_out_def sample_body_def put16_def)
qed

section \<open>Properties of \<open>RewriteBody\<close>\<close>

text \<open>C2: a successful rewrite replaces the payload inside its envelope and the length in front of it,
  and leaves every other byte of the response alone. The new payload is what \<open>rewriteProto\<close> makes of
  the old one, at least one location was written, and the length field holds the new length (it did
  not wrap).\<close>

theorem RewriteBody_framed:
  assumes "RewriteBody P ent body p = Inr (out, r)"
  shows "\<exists>pre payload suf x.
    body = framed (Envelope r) pre payload suf \<and> out = framed (Envelope r) pre x suf
    \<and> rewriteProto P payload (jitterProfile P ent p) 0 = Inr (x, Locations r) \<and> 0 < Locations r
    \<and> (Envelope r \<in> {FixedPrefix, Marker} \<longrightarrow> length x < 2 ^ 16) \<and> length x < 2 ^ 32"
proof -
  from assms have small: "length body \<le> maxMessage"
    and t: "try_kinds P body (jitterProfile P ent p) kinds = Inr (out, r)" by (auto simp: RewriteBody_Inr)
  from try_kinds_Inr [OF t] obtain payload wrap x where
    u: "unwrap body (Envelope r) = Inr (Some (payload, wrap))"
    and x: "rewriteProto P payload (jitterProfile P ent p) 0 = Inr (x, Locations r)"
    and r: "0 < Locations r" "out = wrap x" "Envelope r \<in> {FixedPrefix, Marker} \<longrightarrow> length x \<le> 65535"
    by auto
  from unwrap_framed [OF u] obtain pre suf where f: "body = framed (Envelope r) pre payload suf"
    "wrap = (\<lambda>x. framed (Envelope r) pre x suf)" and len: "length payload \<le> length body" by auto
  have "length x < 4294967296" by (rule put32_exact [OF _ x]) (use small len in simp)
  have "Envelope r \<in> {FixedPrefix, Marker} \<longrightarrow> length x < 2 ^ 16"
  proof -
    have "length x \<le> 65535 \<Longrightarrow> length x < 2 ^ 16" by simp
    with r(3) show ?thesis by blast
  qed
  moreover have "out = framed (Envelope r) pre x suf" by (simp add: r(2) f(2))
  moreover have "length x < 2 ^ 32" using \<open>length x < 4294967296\<close> by simp
  ultimately show ?thesis using f(1) x r(1) by blast
qed

theorem RewriteBody_framed_witness:
  "\<exists>pre payload suf x. sample_body = framed FixedPrefix pre payload suf
    \<and> sample_out = framed FixedPrefix pre x suf \<and> length x < 2 ^ 16"
  using RewriteBody_framed [OF sample_rewrite] by auto

text \<open>C3: the locations that a successful rewrite reports are exactly the location messages of the
  payload, and, in the rewritten payload, each of them is the old one with the profile's values patched
  in and its other fields kept, in the same order. The second part is read back with the parser, so it
  is stated where every patched location keeps to the parser's limit of 10000 fields.\<close>

theorem RewriteBody_locations:
  assumes "RewriteBody P ent body p = Inr (out, r)"
  shows "\<exists>payload wrap x. unwrap body (Envelope r) = Inr (Some (payload, wrap)) \<and> out = wrap x
    \<and> Locations r = length (proto_locs payload 0)
    \<and> (room (loc_vals P (jitterProfile P ent p)) (proto_locs payload 0) \<longrightarrow>
         proto_locs x 0 = map (patched (loc_vals P (jitterProfile P ent p))) (proto_locs payload 0))"
proof -
  from assms have small: "length body \<le> maxMessage"
    and t: "try_kinds P body (jitterProfile P ent p) kinds = Inr (out, r)" by (auto simp: RewriteBody_Inr)
  from try_kinds_Inr [OF t] obtain payload wrap x where
    u: "unwrap body (Envelope r) = Inr (Some (payload, wrap))" and o: "out = wrap x"
    and x: "rewriteProto P payload (jitterProfile P ent p) 0 = Inr (x, Locations r)" by auto
  have "length payload \<le> maxMessage" using unwrap_framed(3) [OF u] small by simp
  with u o rewriteProto_count [OF x] rewriteProto_again(2) [OF x] show ?thesis
    by blast
qed

theorem RewriteBody_locations_witness:
  "\<exists>payload wrap x. unwrap sample_body FixedPrefix = Inr (Some (payload, wrap)) \<and> sample_out = wrap x
    \<and> 1 = length (proto_locs payload 0)"
  using RewriteBody_locations [OF sample_rewrite] by auto

text \<open>C19: rewriting is stable. With no random radius, a second rewrite of what a first one made of a
  fixed-prefix body returns it byte for byte with the same count, unless the first one's output is itself no
  longer a message the rewriter takes: one over the 4 MiB ceiling is refused with \<open>BodyLimit\<close>, and one in
  which the profile's values pushed a location over 10000 fields with \<open>Malformed\<close>.\<close>

theorem RewriteBody_idempotent:
  assumes "RewriteBody P ent body p = Inr (out, r)" and "Envelope r = FixedPrefix"
    and "f_le (RandomRadius p) (f_int 0)"
  shows "\<exists>payload wrap. unwrap_fixed body = Some (payload, wrap) \<and>
    RewriteBody P ent' out p =
      (if length out > maxMessage then Inl BodyLimit
       else if room (loc_vals P p) (proto_locs payload 0) then Inr (out, r) else Inl Malformed)"
proof -
  have j: "jitterProfile P e p = p" for e by (rule jitterProfile_none [OF assms(3)])
  from assms(1) have v: "Profile_Validate p = None" and small: "length body \<le> maxMessage"
    and t: "try_kinds P body p kinds = Inr (out, r)" by (auto simp: RewriteBody_Inr j)
  from try_kinds_Inr [OF t] assms(2) obtain payload wrap x where
    u: "unwrap_fixed body = Some (payload, wrap)" and o: "out = wrap x"
    and x: "rewriteProto P payload p 0 = Inr (x, Locations r)" "0 < Locations r" "length x \<le> 65535"
    by auto
  have ps: "length payload \<le> maxMessage"
    using unwrap_framed(3) [of body FixedPrefix payload wrap] u small by simp
  obtain fs where fs: "parse x 0 = Inr fs" using rewriteProto_parse [OF x(1) ps] by auto
  have u2: "unwrap_fixed out = Some (x, wrap)" using unwrap_fixed_again [OF u _ fs] x(3) by (simp add: o)
  have "rewriteProto P x p 0 =
      (if room (loc_vals P p) (proto_locs payload 0) then Inr (x, Locations r) else Inl Malformed)"
    using rewriteProto_again(1) [OF x(1) ps] rewriteProto_full [OF x(1) ps] by (simp add: maxDepth_def)
  then have "try_kinds P out p kinds =
      (if room (loc_vals P p) (proto_locs payload 0) then Inr (out, r) else Inl Malformed)"
    using u2 x(2,3) fs assms(2) by (cases r) (simp add: kinds_def o)
  then have "RewriteBody P ent' out p =
      (if length out > maxMessage then Inl BodyLimit
       else if room (loc_vals P p) (proto_locs payload 0) then Inr (out, r) else Inl Malformed)"
    using v by (simp add: RewriteBody_def j)
  with u show ?thesis by blast
qed

theorem RewriteBody_idempotent_witness:
  "RewriteBody sample_platform None sample_out sample_profile
     = Inr (sample_out, \<lparr>Envelope = FixedPrefix, Locations = 1\<rparr>)"
proof -
  have "f_le (RandomRadius sample_profile) (f_int 0)"
    by (simp add: sample_profile_def f_int_def smant_def f_le_def)
  from RewriteBody_idempotent [OF sample_rewrite _ this, of None] obtain payload wrap where
    u: "unwrap_fixed sample_body = Some (payload, wrap)"
    and r: "RewriteBody sample_platform None sample_out sample_profile =
      (if length sample_out > maxMessage then Inl BodyLimit
       else if room (loc_vals sample_platform sample_profile) (proto_locs payload 0)
         then Inr (sample_out, \<lparr>Envelope = FixedPrefix, Locations = 1\<rparr>) else Inl Malformed)"
    by auto
  have "payload = sample_payload" using u by (simp add: sample_unwrap)
  moreover have "room (loc_vals sample_platform sample_profile) (proto_locs sample_payload 0)"
    by (rule room_small) (simp add: sample_payload_def proto_locs_def entry_locs_def record_locs_def
        field_locs_def hasLocation_def parse_eval)
  moreover have "length sample_out \<le> maxMessage"
    by (simp add: sample_out_def sample_location_def maxMessage_def)
  ultimately show ?thesis using r by simp
qed

text \<open>C20: the envelopes that are decoded by position come out decodable. What \<open>RewriteBody\<close> produced from
  a fixed-prefix or an arpc body unwraps again, in the same way, to the rewritten payload.\<close>

theorem RewriteBody_decodes:
  assumes "RewriteBody P ent body p = Inr (out, r)" and "Envelope r = FixedPrefix \<or> Envelope r = Arpc"
  shows "\<exists>payload wrap x. unwrap body (Envelope r) = Inr (Some (payload, wrap))
    \<and> rewriteProto P payload (jitterProfile P ent p) 0 = Inr (x, Locations r)
    \<and> unwrap out (Envelope r) = Inr (Some (x, wrap))"
proof -
  from assms(1) have small: "length body \<le> maxMessage"
    and t: "try_kinds P body (jitterProfile P ent p) kinds = Inr (out, r)" by (auto simp: RewriteBody_Inr)
  from try_kinds_Inr [OF t] obtain payload wrap x where
    u: "unwrap body (Envelope r) = Inr (Some (payload, wrap))" and o: "out = wrap x"
    and x: "rewriteProto P payload (jitterProfile P ent p) 0 = Inr (x, Locations r)"
    and le: "Envelope r \<in> {FixedPrefix, Marker} \<longrightarrow> length x \<le> 65535" by auto
  have ps: "length payload \<le> maxMessage" using unwrap_framed(3) [OF u] small by simp
  obtain fs where fs: "parse x 0 = Inr fs" using rewriteProto_parse [OF x ps] by auto
  have "unwrap out (Envelope r) = Inr (Some (x, wrap))"
    using assms(2) u o le unwrap_fixed_again [OF _ _ fs] unwrap_arpc_again [OF _ put32_exact [OF ps x] fs]
    by auto
  with u x show ?thesis by blast
qed

theorem RewriteBody_decodes_witness:
  "\<exists>payload wrap x. unwrap sample_body FixedPrefix = Inr (Some (payload, wrap))
    \<and> unwrap sample_out FixedPrefix = Inr (Some (x, wrap))"
  using RewriteBody_decodes [OF sample_rewrite] by auto

text \<open>C21: every error of \<open>RewriteBody\<close>, with exactly the condition that causes it. A profile that does not
  validate gives its own error, before the body is looked at; a body over 4 MiB gives \<open>BodyLimit\<close>. After
  that the kinds of envelope are tried in order, and one that does not recognise the body or finds no
  location declines it. All four decline: \<open>Unsupported\<close>. Otherwise the first that does not decline gives the
  error: two or more complete marker frames whose payload parses \<open>Ambiguous\<close>, a recognised payload whose
  nested messages are malformed \<open>Malformed\<close>, and a payload of a 16-bit envelope with a location that is
  longer than 65535 bytes once rewritten \<open>PayloadLimit\<close>. There is no other error: the depth limit of the
  parser is never what stops it.\<close>

theorem RewriteBody_errors:
  "RewriteBody P ent body p = Inl e \<longleftrightarrow>
   (case Profile_Validate p of
      Some invalid \<Rightarrow> e = invalid
    | None \<Rightarrow>
        if length body > maxMessage then e = BodyLimit
        else (e = Unsupported \<and> list_all (declines P body (jitterProfile P ent p)) [FixedPrefix, Arpc, Marker, Bare])
          \<or> (\<exists>k. list_all (declines P body (jitterProfile P ent p))
                 (takeWhile (\<lambda>j. j \<noteq> k) [FixedPrefix, Arpc, Marker, Bare]) \<and>
               ((e = Ambiguous \<and> k = Marker \<and> 2 \<le> length (filter (marker_at body) [0..<length body]))
                \<or> (\<exists>payload wrap. unwrap body k = Inr (Some (payload, wrap)) \<and>
                     ((e = Malformed \<and> rewriteProto P payload (jitterProfile P ent p) 0 = Inl Malformed)
                      \<or> (e = PayloadLimit \<and> k \<in> {FixedPrefix, Marker}
                         \<and> (\<exists>x n. rewriteProto P payload (jitterProfile P ent p) 0 = Inr (x, n)
                               \<and> 0 < n \<and> 65535 < length x)))))))"
proof -
  have all: "set kinds = UNIV" using kind.exhaust by (auto simp: kinds_def)
  note t = try_kinds_Inl [of body P "jitterProfile P ent p" kinds e, unfolded all refuses_def bex_UNIV, unfolded kinds_def]
  show ?thesis
  proof (cases "Profile_Validate p")
    case None
    show ?thesis
    proof (cases "length body > maxMessage")
      case False
      then have l: "length body \<le> maxMessage" by simp
      show ?thesis by (simp only: RewriteBody_def None option.case False if_False t [OF l] kinds_def)
    qed (auto simp: RewriteBody_def None)
  qed (auto simp: RewriteBody_def)
qed

definition two_markers :: bytes where
  "two_markers = marker_bytes @ [0, 0] @ marker_bytes @ [0, 0]"

theorem RewriteBody_errors_witness:
  "RewriteBody sample_platform None two_markers sample_profile = Inl Ambiguous
   \<and> RewriteBody sample_platform None [] sample_profile = Inl Unsupported"
proof
  have d: "declines sample_platform two_markers sample_profile FixedPrefix"
    "declines sample_platform two_markers sample_profile Arpc"
    by (simp_all add: declines_def unwrap_fixed_def unwrap_arpc_def looksLikeFixedPrefix_def two_markers_def
        marker_bytes_def be16_at_def be16_def numeral_3_eq_3)
  have "length (filter (marker_at two_markers) [0..<length two_markers]) = 2"
    by (simp add: two_markers_def marker_bytes_def marker_at_def upt_rec gslice_def be16_at_def be16_def parse_eval)
  with d show "RewriteBody sample_platform None two_markers sample_profile = Inl Ambiguous"
    unfolding RewriteBody_errors
    by (simp add: sample_valid sample_jitter) (simp add: two_markers_def marker_bytes_def maxMessage_def)
  have "list_all (declines sample_platform [] sample_profile) [FixedPrefix, Arpc, Marker, Bare]"
    by (simp add: declines_def unwrap_fixed_def unwrap_arpc_def unwrap_marker_def marker_scan.simps
        numeral_3_eq_3 rewriteProto_def parse_eval)
  then show "RewriteBody sample_platform None [] sample_profile = Inl Unsupported"
    unfolding RewriteBody_errors by (simp add: sample_valid sample_jitter)
qed

section \<open>Properties of the payload rewriter\<close>

text \<open>a payload in which nothing was rewritten is returned byte for byte, and that happens exactly
  when it holds no location message; in every case the output is at most fifty times the input.\<close>

theorem rewriteProto_identity:
  assumes "rewriteProto P b p d = Inr (out, n)"
  shows "n = length (proto_locs b d) \<and> (n = 0 \<longrightarrow> out = b) \<and> length out \<le> 50 * length b"
  using assms rewriteProto_count rewriteProto_unchanged rewriteProto_length by blast

theorem rewriteProto_identity_witness:
  "(1::nat) = length (proto_locs sample_payload 0)"
  using rewriteProto_identity [OF sample_proto] by simp

text \<open>C18: \<open>location\<close> writes the profile and only the profile. Its output is the concatenation of well-formed
  fields, at most seven more than before; every varint field among them that has a profile value holds that
  value, every profile value is present, and the fields without a profile value are the input's, unchanged
  and in order. The output parses back to exactly these fields when there are at most 10000 of them, and is
  refused as malformed when the values added to a location of 9994 fields or more push it over that limit.\<close>

theorem location_writes_profile:
  assumes "list_all wf_field fs" and "d \<le> maxDepth"
  shows "\<exists>gs. location P fs p = concat (map raw gs) \<and> list_all wf_field gs \<and> length gs \<le> length fs + 7
    \<and> parse (location P fs p) d = (if length gs \<le> maxFields then Inr gs else Inl Malformed)
    \<and> (\<forall>f v. f \<in> set gs \<longrightarrow> wire f = 0 \<longrightarrow> loc_vals P p (num f) = Some v \<longrightarrow> value f = i64 v)
    \<and> (\<forall>n v. loc_vals P p n = Some v \<longrightarrow> has_varint n gs)
    \<and> filter (\<lambda>f. wire f \<noteq> 0 \<or> loc_vals P p (num f) = None) gs
        = filter (\<lambda>f. wire f \<noteq> 0 \<or> loc_vals P p (num f) = None) fs"
proof (intro exI conjI allI impI)
  let ?gs = "patched (loc_vals P p) fs"
  show "location P fs p = concat (map raw ?gs)" by (rule location_eq)
  show "list_all wf_field ?gs" by (rule wf_patched [OF assms(1)])
  show "length ?gs \<le> length fs + 7" by (rule length_patched)
  show "parse (location P fs p) d = (if length ?gs \<le> maxFields then Inr ?gs else Inl Malformed)"
    by (rule parse_location [OF assms])
  show "filter (\<lambda>f. wire f \<noteq> 0 \<or> loc_vals P p (num f) = None) ?gs
      = filter (\<lambda>f. wire f \<noteq> 0 \<or> loc_vals P p (num f) = None) fs" by (rule patched_others)
qed (auto intro: patched_values patched_present dom_loc_vals)

theorem location_writes_profile_witness:
  "\<exists>gs. parse sample_location 0 = Inr gs \<and> has_varint 11 gs"
proof -
  let ?fs = "[\<lparr>num = 1, wire = 0, raw = [0x08, 1], value = [1]\<rparr>,
    \<lparr>num = 2, wire = 0, raw = [0x10, 1], value = [1]\<rparr>]"
  have "location sample_platform ?fs sample_profile = sample_location"
    by (simp add: rewrite_eval parse_eval sample_location_def)
  moreover have "list_all wf_field ?fs"
    by (simp add: wf_field_def parse_eval)
  ultimately obtain gs where "length gs \<le> 9"
    "parse sample_location 0 = (if length gs \<le> maxFields then Inr gs else Inl Malformed)"
    "\<forall>n v. loc_vals sample_platform sample_profile n = Some v \<longrightarrow> has_varint n gs"
    using location_writes_profile [of ?fs 0 sample_platform sample_profile] by auto
  then show ?thesis by (auto simp: maxFields_def sample_vals)
qed

section \<open>Properties of the decoder\<close>

text \<open>the parser accepts exactly the concatenations of at most \<open>maxFields\<close> well-formed fields, and
  returns those fields: nothing is lost, reordered or invented, so copying \<open>raw\<close> copies the message.\<close>

theorem parse_exact:
  "parse b d = Inr fs \<longleftrightarrow>
   d \<le> maxDepth \<and> list_all wf_field fs \<and> length fs \<le> maxFields \<and> b = concat (map raw fs)"
  by (rule parse_iff)

text \<open>a varint that was written is read back, whatever follows it, and takes one to ten bytes.\<close>

theorem varint_roundtrip:
  "readVarint (encVarint v @ rest) = Inr (v, length (encVarint v))
   \<and> 0 < length (encVarint v) \<and> length (encVarint v) \<le> 10"
  by (simp add: codec_simps length_encVarint_le)

text \<open>the marker envelope is taken only where it is unambiguous: \<open>unwrap\<close> reports an ambiguous body
  exactly when two positions hold the marker, a length that fits and a payload that parses, and returns
  a payload exactly when one position does.\<close>

theorem marker_unique:
  "(unwrap b Marker = Inl Ambiguous \<longleftrightarrow> 2 \<le> length (filter (marker_at b) [0..<length b]))
   \<and> ((\<exists>q. unwrap b Marker = Inr (Some q)) \<longleftrightarrow> length (filter (marker_at b) [0..<length b]) = 1)"
proof -
  consider (none) "filter (marker_at b) [0..<length b] = []"
    | (one) i where "filter (marker_at b) [0..<length b] = [i]"
    | (more) i j js where "filter (marker_at b) [0..<length b] = i # j # js"
    by (metis remdups_adj.cases)
  then show ?thesis
    by cases (simp_all add: unwrap_marker_def marker_scan_eq Let_def)
qed

text \<open>a valid profile's coordinates are written as whole 1e-8 degrees, to the nearest, and never leave
  the range of a WGS 84 position: the conversion to \<open>int64\<close> is in range for them on every platform.\<close>

theorem coordinates_exact:
  assumes "Profile_Validate p = None"
  shows "\<exists>lat lon. loc_vals P p 1 = Some lat \<and> loc_vals P p 2 = Some lon
    \<and> \<bar>sint lat\<bar> \<le> 9000000000 \<and> \<bar>sint lon\<bar> \<le> 18000000000
    \<and> \<bar>real_of_int (sint lat) - rval (f_mul (Latitude p) (f_int 100000000))\<bar> \<le> 1 / 2
    \<and> \<bar>real_of_int (sint lon) - rval (f_mul (Longitude p) (f_int 100000000))\<bar> \<le> 1 / 2"
proof -
  have conv: "\<bar>sint (f_to_int64 oor (f_nearest (f_mul x (f_int 100000000))))\<bar> \<le> int (100000000 * N)"
    "\<bar>real_of_int (sint (f_to_int64 oor (f_nearest (f_mul x (f_int 100000000)))))
      - rval (f_mul x (f_int 100000000))\<bar> \<le> 1 / 2"
    if "is_finite x" "\<not> f_less x (f_int (- int N))" "\<not> f_less (f_int (int N)) x" "N \<le> 180" for oor x N
  proof -
    have "\<bar>rval x\<bar> \<le> real N" using that(1-3) by (simp add: f_less_rval)
    then have "\<bar>rval x * rval (f_int 100000000)\<bar> \<le> real (100000000 * N)" by (simp add: abs_mult)
    moreover have N: "100000000 * N < 2 ^ 53" using that(4) by simp
    ultimately have m: "is_finite (f_mul x (f_int 100000000))"
      "\<bar>rval (f_mul x (f_int 100000000))\<bar> \<le> real (100000000 * N)"
      using f_mul_bounded [OF that(1) is_finite_f_int] by blast+
    show "\<bar>sint (f_to_int64 oor (f_nearest (f_mul x (f_int 100000000))))\<bar> \<le> int (100000000 * N)"
      by (rule int64_nearest(2) [OF m N])
    show "\<bar>real_of_int (sint (f_to_int64 oor (f_nearest (f_mul x (f_int 100000000)))))
      - rval (f_mul x (f_int 100000000))\<bar> \<le> 1 / 2"
      by (rule int64_nearest(1) [OF m N])
  qed
  have lat: "is_finite (Latitude p)" "\<not> f_less (Latitude p) (f_int (- int 90))"
    "\<not> f_less (f_int (int 90)) (Latitude p)"
    and lon: "is_finite (Longitude p)" "\<not> f_less (Longitude p) (f_int (- int 180))"
    "\<not> f_less (f_int (int 180)) (Longitude p)"
    using assms by (auto simp: Profile_Validate_def is_finite_iff split: if_splits)
  have vals: "loc_vals P p 1 = Some (f_to_int64 (oor_int64 P) (f_nearest (f_mul (Latitude p) (f_int 100000000))))"
    "loc_vals P p 2 = Some (f_to_int64 (oor_int64 P) (f_nearest (f_mul (Longitude p) (f_int 100000000))))"
    by (auto simp: loc_vals_def Let_def split: option.splits)
  show ?thesis
    using conv [OF lat] conv [OF lon] by (simp add: vals)
qed

theorem coordinates_exact_witness:
  "\<exists>lat lon. loc_vals sample_platform sample_profile 1 = Some lat
    \<and> loc_vals sample_platform sample_profile 2 = Some lon
    \<and> \<bar>sint lat\<bar> \<le> 9000000000 \<and> \<bar>sint lon\<bar> \<le> 18000000000"
  using coordinates_exact [OF sample_valid, of sample_platform] by blast

text \<open>a profile the validation accepts has finite values, coordinates on the globe, non-negative
  accuracies and a radius of at most 100 km; and every such profile is accepted.\<close>

theorem Profile_Validate_exact:
  "Profile_Validate p = None \<longleftrightarrow>
   list_all is_finite [Latitude p, Longitude p, Altitude p, HorizontalAccuracy p, VerticalAccuracy p, RandomRadius p]
   \<and> - 90 \<le> rval (Latitude p) \<and> rval (Latitude p) \<le> 90
   \<and> - 180 \<le> rval (Longitude p) \<and> rval (Longitude p) \<le> 180
   \<and> 0 \<le> rval (HorizontalAccuracy p) \<and> 0 \<le> rval (VerticalAccuracy p)
   \<and> 0 \<le> rval (RandomRadius p) \<and> rval (RandomRadius p) \<le> 100000"
proof (cases "list_all is_finite [Latitude p, Longitude p, Altitude p, HorizontalAccuracy p, VerticalAccuracy p, RandomRadius p]")
  case True
  then have fin: "is_finite (Latitude p)" "is_finite (Longitude p)" "is_finite (HorizontalAccuracy p)"
    "is_finite (VerticalAccuracy p)" "is_finite (RandomRadius p)" by simp_all
  have "\<not> list_ex (\<lambda>v. IsNaN v \<or> IsInf0 v)
      [Latitude p, Longitude p, Altitude p, HorizontalAccuracy p, VerticalAccuracy p, RandomRadius p]"
    using True by (simp add: is_finite_iff)
  with True fin show ?thesis
    by (auto simp: Profile_Validate_def f_less_rval)
next
  case False
  then have "list_ex (\<lambda>v. IsNaN v \<or> IsInf0 v)
      [Latitude p, Longitude p, Altitude p, HorizontalAccuracy p, VerticalAccuracy p, RandomRadius p]"
    by (auto simp: is_finite_iff)
  with False show ?thesis by (auto simp: Profile_Validate_def)
qed

text \<open>the field number is cut to 32 bits before its range is checked: a key whose number is
  \<open>2^32 + n\<close> is taken for field \<open>n\<close>, for every legal \<open>n\<close>.\<close>

theorem parse_truncates_field_number:
  assumes "n \<noteq> 0" and "n < 536870912"
  shows "\<exists>k. unat (drop_bit 3 k :: u64) = 2 ^ 32 + unat n
    \<and> map_sum id (map num) (parse (encVarint k @ i64 v) 0) = Inr [n]"
proof -
  define m where "m = (2 ^ 32 :: u64)"
  have m: "bit m i \<longleftrightarrow> i = 32" for i
    unfolding m_def by (subst bit_exp_iff) auto
  have short: "i < 32" if "bit n i" for i using bit_imp_le_length [OF that] by simp
  then have high: "\<not> bit n 32" by auto
  let ?q = "m OR ucast n :: u64"
  let ?k = "push_bit 3 ?q"
  have "?q = m + ucast n"
    by (rule disjunctive_add [symmetric]) (auto simp: bit_simps m high dest: short)
  moreover have lt: "unat n < 2 ^ 29" using assms(2) by (simp add: word_less_nat_alt)
  moreover have "unat (ucast n :: u64) = unat n"
    using lt by (simp add: unsigned_ucast_eq take_bit_nat_eq_self)
  ultimately have "unat ?q = 2 ^ 32 + unat n"
    by (simp add: unat_word_ariths m_def)
  moreover have "drop_bit 3 ?k = ?q"
    by (rule bit_word_eqI) (auto simp: bit_simps m high dest: short)
  moreover have "(ucast ?q :: 32 word) = n"
    by (rule bit_word_eqI) (auto simp: bit_simps m high dest: short)
  moreover have seven: "(7 :: u64) = mask 3" by (simp add: mask_eq_exp_minus_1)
  have "(ucast (?k AND 7) :: byte) = 0"
    unfolding seven by (rule bit_word_eqI) (auto simp: bit_simps m high dest: short)
  moreover have "map_sum id (map num) (parse (encVarint k @ i64 v) 0) = Inr [n]"
    if "ucast (drop_bit 3 k) = n" "(ucast (k AND 7) :: byte) = 0" for k
    using that assms readVarint_encVarint [of v "[]"]
    by (simp add: parse_def parse_fields.simps parse_field_def parse_value_def codec_simps Let_def
        maxDepth_def maxFields_def i64_def)
  ultimately show ?thesis by (intro exI [of _ ?k]) simp
qed

theorem parse_truncates_field_number_witness:
  "\<exists>k. unat (drop_bit 3 k :: u64) = 2 ^ 32 + 2
    \<and> map_sum id (map num) (parse (encVarint k @ i64 0) 0) = Inr [2 :: 32 word]"
  using parse_truncates_field_number [of 2 0] by (simp add: word_less_nat_alt)

end
