(* ===== verification/Resource_Pool.thy ===== *)
theory Resource_Pool
  imports Prelude "HOL-Library.Multiset"
begin

text \<open>
  The contract of a bounded resource: the work slots, the connection slots and the byte budget of the
  proxy are all taken before a piece of work and given back after it. The locale states what taking and
  giving back promise; its lemmas are what the request handler and the router rely on.
\<close>

section \<open>Runs of takes and gives\<close>

datatype 'n pool_op = Take 'n | Give 'n

text \<open>
  One holder's \<open>Take\<close> or \<open>Give\<close> at a time, in any interleaving: a failed take changes nothing, and only
  what is held can be given back.
\<close>

fun pool_step ::
  "('n \<Rightarrow> 's \<Rightarrow> 's option) \<Rightarrow> ('n \<Rightarrow> 's \<Rightarrow> 's) \<Rightarrow> 's \<times> 'n multiset \<Rightarrow> 'n pool_op \<Rightarrow> 's \<times> 'n multiset"
where
  "pool_step acq rel (s, held) (Take n) =
     (case acq n s of None \<Rightarrow> (s, held) | Some s' \<Rightarrow> (s', add_mset n held))"
| "pool_step acq rel (s, held) (Give n) =
     (if n \<in># held then (rel n s, held - {#n#}) else (s, held))"

definition pool_run ::
  "('n \<Rightarrow> 's \<Rightarrow> 's option) \<Rightarrow> ('n \<Rightarrow> 's \<Rightarrow> 's) \<Rightarrow> 's \<times> 'n multiset \<Rightarrow> 'n pool_op list \<Rightarrow> 's \<times> 'n multiset"
where
  "pool_run acq rel = foldl (pool_step acq rel)"

section \<open>The contract\<close>

locale resource_pool =
  fixes acquire :: "'n \<Rightarrow> 's \<Rightarrow> 's option" and release :: "'n \<Rightarrow> 's \<Rightarrow> 's"
    and amount :: "'n \<Rightarrow> int" and free :: "'s \<Rightarrow> int" and total :: "'s \<Rightarrow> int"
    and valid :: "'s \<Rightarrow> bool"
  assumes valid_range: "valid s \<Longrightarrow> 0 \<le> free s \<and> free s \<le> total s"
    and acquire_takes: "valid s \<Longrightarrow> acquire n s = Some s' \<Longrightarrow>
      valid s' \<and> 0 < amount n \<and> free s' = free s - amount n \<and> total s' = total s"
    and acquire_fails: "valid s \<Longrightarrow> acquire n s = None \<Longrightarrow> 0 < amount n \<Longrightarrow> free s < amount n"
    and release_gives: "valid s \<Longrightarrow> 0 < amount n \<Longrightarrow> free s + amount n \<le> total s \<Longrightarrow>
      valid (release n s) \<and> free (release n s) = free s + amount n \<and> total (release n s) = total s"
    and state_eq: "free s = free s' \<Longrightarrow> total s = total s' \<Longrightarrow> s = s'"
begin

text \<open>What is held adds up: nothing is lost and nothing is created, whatever the interleaving.\<close>

definition balanced :: "'s \<times> 'n multiset \<Rightarrow> bool" where
  "balanced q \<longleftrightarrow> (case q of (s, held) \<Rightarrow>
     valid s \<and> free s + sum_mset (image_mset amount held) = total s \<and> (\<forall>n \<in># held. 0 < amount n))"

lemma held_nonneg: "(\<forall>n \<in># held. 0 < amount n) \<Longrightarrow> 0 \<le> sum_mset (image_mset amount held)"
  by (induction held) (auto intro!: add_nonneg_nonneg less_imp_le)

lemma balanced_step: "balanced q \<Longrightarrow> balanced (pool_step acquire release q op) \<and>
    total (fst (pool_step acquire release q op)) = total (fst q)"
proof (cases op)
  case (Take n)
  assume "balanced q"
  then show ?thesis
    using acquire_takes [of "fst q" n] by (cases q) (auto simp: Take balanced_def split: option.splits)
next
  case (Give n)
  assume b: "balanced q"
  obtain s held where q: "q = (s, held)" by (cases q)
  show ?thesis
  proof (cases "n \<in># held")
    case True
    then obtain rest where h: "held = add_mset n rest" by (metis insert_DiffM)
    have "0 \<le> sum_mset (image_mset amount rest)" "0 < amount n"
      using b by (auto simp: balanced_def q h intro: held_nonneg)
    then show ?thesis
      using b release_gives [of s n] by (auto simp: Give balanced_def q h)
  next
    case False
    then show ?thesis using b by (simp add: Give q)
  qed
qed

lemma balanced_run: "balanced q \<Longrightarrow> balanced (pool_run acquire release q ops) \<and>
    total (fst (pool_run acquire release q ops)) = total (fst q)"
  unfolding pool_run_def by (induction ops rule: rev_induct) (use balanced_step in auto)

lemma run_from_full:
  assumes "valid s" and "free s = total s" and "pool_run acquire release (s, {#}) ops = (s', held)"
  shows "0 \<le> free s'" and "free s' + sum_mset (image_mset amount held) = total s"
    and "held = {#} \<Longrightarrow> s' = s"
proof -
  have "balanced (s, {#})" using assms by (simp add: balanced_def)
  with balanced_run [of "(s, {#})" ops] assms(3) have b: "balanced (s', held)" "total s' = total s" by auto
  then show "free s' + sum_mset (image_mset amount held) = total s" by (simp add: balanced_def)
  from b show "0 \<le> free s'" using valid_range by (auto simp: balanced_def)
  assume "held = {#}"
  then show "s' = s" using b assms by (intro state_eq) (auto simp: balanced_def)
qed

text \<open>Taking and giving back is the identity, so work done in between leaves the pool as it was.\<close>

lemma bracket:
  assumes "valid s" and "acquire n s = Some s'"
  shows "release n s' = s"
proof -
  have t: "valid s'" "0 < amount n" "free s' = free s - amount n" "total s' = total s"
    using acquire_takes [OF assms] by auto
  moreover have "free s' + amount n \<le> total s'" using t valid_range [OF assms(1)] by linarith
  ultimately show ?thesis using release_gives [of s' n] by (intro state_eq) auto
qed

end

end
