(* ===== verification/Budget.thy ===== *)
theory Budget
  imports Resource_Pool
begin

text \<open>
  The bounded resources of the proxy, \<open>internal/proxy/mitm.go\<close>: the semaphore channels \<open>workSlots\<close> and
  \<open>connSlots\<close>, the \<open>byteBudget\<close> with its condition variable, \<open>bufferReservation\<close>, \<open>SetLimits\<close> and
  \<open>getBudget\<close>. An \<open>int64\<close> is an \<open>int\<close> whose sums are wrapped by \<open>wrap64\<close>.
\<close>

definition maxInt64 :: int where "maxInt64 = 9223372036854775807"

definition wrap64 :: "int \<Rightarrow> int" where
  "wrap64 n = (n + 2 ^ 63) mod 2 ^ 64 - 2 ^ 63"

lemma wrap64_id: "- (2 ^ 63) \<le> n \<Longrightarrow> n < 2 ^ 63 \<Longrightarrow> wrap64 n = n"
  by (simp add: wrap64_def)

section \<open>Semaphore channels\<close>

text \<open>\<open>chan struct{}\<close> with a capacity: a non-blocking send takes a slot, a receive gives it back.\<close>

record slots =
  in_use :: nat
  slot_cap :: nat

definition try_send :: "slots \<Rightarrow> slots option" where
  "try_send c = (if in_use c < slot_cap c then Some (c\<lparr>in_use := in_use c + 1\<rparr>) else None)"

definition receive :: "slots \<Rightarrow> slots" where
  "receive c = c\<lparr>in_use := in_use c - 1\<rparr>"

definition make_slots :: "nat \<Rightarrow> slots" where
  "make_slots n = \<lparr>in_use = 0, slot_cap = n\<rparr>"

definition slots_free :: "slots \<Rightarrow> int" where
  "slots_free c = int (slot_cap c) - int (in_use c)"

interpretation slots: resource_pool "\<lambda>_::unit. try_send" "\<lambda>_. receive" "\<lambda>_. 1" slots_free "\<lambda>c. int (slot_cap c)"
  "\<lambda>c. in_use c \<le> slot_cap c"
  by unfold_locales (auto simp: try_send_def receive_def slots_free_def split: if_splits)

section \<open>The byte budget\<close>

record byteBudget =
  available :: int
  capacity :: int

definition newByteBudget :: "int \<Rightarrow> byteBudget" where
  "newByteBudget n = \<lparr>available = n, capacity = n\<rparr>"

text \<open>The guard of \<open>acquire\<close>, the exit of its loop, and both at once for a caller that need not wait.\<close>

definition admissible :: "int \<Rightarrow> byteBudget \<Rightarrow> bool" where
  "admissible n b \<longleftrightarrow> \<not> (n \<le> 0 \<or> n > capacity b)"

definition take_bytes :: "int \<Rightarrow> byteBudget \<Rightarrow> byteBudget" where
  "take_bytes n b = b\<lparr>available := available b - n\<rparr>"

definition try_acquire :: "int \<Rightarrow> byteBudget \<Rightarrow> byteBudget option" where
  "try_acquire n b = (if admissible n b \<and> \<not> available b < n then Some (take_bytes n b) else None)"

definition release :: "int \<Rightarrow> byteBudget \<Rightarrow> byteBudget" where
  "release n b =
     (if n \<le> 0 then b
      else let a = wrap64 (available b + n) in b\<lparr>available := (if a > capacity b then capacity b else a)\<rparr>)"

definition budget_ok :: "byteBudget \<Rightarrow> bool" where
  "budget_ok b \<longleftrightarrow> 0 \<le> available b \<and> available b \<le> capacity b \<and> capacity b \<le> maxInt64"

interpretation budget: resource_pool try_acquire release "\<lambda>n. n" available capacity budget_ok
  by unfold_locales
    (auto simp: try_acquire_def release_def take_bytes_def admissible_def budget_ok_def maxInt64_def
      wrap64_def split: if_splits)

section \<open>Waiting\<close>

text \<open>
  \<open>acquire\<close> under contention. The state holds the budget, the clock, the callers parked in
  \<open>cond.Wait\<close>, the callers that a broadcast has woken and that have not run yet, and the amounts held.
  A caller is its amount and its deadline. Each step is one critical section of the mutex.
\<close>

type_synonym caller = "int \<times> int"

record monitor =
  bud :: byteBudget
  clock :: int
  parked :: "caller multiset"
  woken :: "caller multiset"
  held :: "int multiset"

definition acquire_wait :: int where "acquire_wait = 5000000000"

text \<open>One pass of the loop of \<open>acquire\<close> by a caller that holds the mutex.\<close>

datatype outcome = Acquired | Expired | Waits

definition loop_pass :: "caller \<Rightarrow> monitor \<Rightarrow> monitor \<times> outcome" where
  "loop_pass c m =
     (let (n, deadline) = c in
      if \<not> available (bud m) < n
      then (m\<lparr>bud := take_bytes n (bud m), held := add_mset n (held m)\<rparr>, Acquired)
      else if deadline - clock m \<le> 0 then (m, Expired)
      else (m\<lparr>parked := add_mset c (parked m)\<rparr>, Waits))"

definition enter :: "int \<Rightarrow> monitor \<Rightarrow> monitor \<times> outcome" where
  "enter n m =
     (if admissible n (bud m) then loop_pass (n, clock m + acquire_wait) m else (m, Expired))"

definition broadcast :: "monitor \<Rightarrow> monitor" where
  "broadcast m = m\<lparr>woken := woken m + parked m, parked := {#}\<rparr>"

inductive mstep :: "monitor \<Rightarrow> monitor \<Rightarrow> bool" where
  call: "mstep m (fst (enter n m))"
| wake: "c \<in># woken m \<Longrightarrow> mstep m (fst (loop_pass c (m\<lparr>woken := woken m - {#c#}\<rparr>)))"
| give: "n \<in># held m \<Longrightarrow>
    mstep m (broadcast (m\<lparr>bud := release n (bud m), held := held m - {#n#}\<rparr>))"
| timer: "(n, d) \<in># parked m + woken m \<Longrightarrow> d \<le> clock m \<Longrightarrow> mstep m (broadcast m)"
| tick: "t \<ge> clock m \<Longrightarrow> mstep m (m\<lparr>clock := t\<rparr>)"

definition start_monitor :: "int \<Rightarrow> monitor" where
  "start_monitor n =
     \<lparr>bud = newByteBudget n, clock = 0, parked = {#}, woken = {#}, held = {#}\<rparr>"

inductive reachable :: "int \<Rightarrow> monitor \<Rightarrow> bool" for cap where
  start: "reachable cap (start_monitor cap)"
| step: "reachable cap m \<Longrightarrow> mstep m m' \<Longrightarrow> reachable cap m'"

definition monitor_ok :: "int \<Rightarrow> monitor \<Rightarrow> bool" where
  "monitor_ok cap m \<longleftrightarrow>
     budget.balanced (bud m, held m) \<and> capacity (bud m) = cap
     \<and> (\<forall>c \<in># parked m + woken m. 0 < fst c \<and> fst c \<le> cap)
     \<and> (\<forall>c \<in># parked m. available (bud m) < fst c)"

lemma loop_pass_ok:
  assumes "monitor_ok cap m" and "0 < fst c" and "fst c \<le> cap"
  shows "monitor_ok cap (fst (loop_pass c m))"
proof -
  obtain n d where c: "c = (n, d)" by (cases c)
  have bal: "budget_ok (bud m)" "available (bud m) + sum_mset (held m) = cap" "\<forall>n \<in># held m. 0 < n"
    "capacity (bud m) = cap"
    using assms(1) by (auto simp: monitor_ok_def budget.balanced_def)
  show ?thesis
  proof (cases "available (bud m) < n")
    case True
    then show ?thesis using assms by (auto simp: loop_pass_def c monitor_ok_def)
  next
    case False
    then have "budget.balanced (take_bytes n (bud m), add_mset n (held m))"
      using bal assms(2) by (auto simp: budget.balanced_def take_bytes_def budget_ok_def c)
    then show ?thesis
      using False assms by (auto simp: loop_pass_def c monitor_ok_def take_bytes_def)
  qed
qed

lemma mstep_ok: "mstep m m' \<Longrightarrow> monitor_ok cap m \<Longrightarrow> monitor_ok cap m'"
proof (induction rule: mstep.induct)
  case (call m n)
  then show ?case
    using loop_pass_ok [OF call, of "(n, clock m + acquire_wait)"]
    by (auto simp: enter_def admissible_def monitor_ok_def [of cap m])
next
  case (wake c m)
  then obtain rest where rest: "woken m = add_mset c rest" by (metis insert_DiffM)
  with wake have "monitor_ok cap (m\<lparr>woken := woken m - {#c#}\<rparr>)"
    by (auto simp: monitor_ok_def)
  then show ?case using wake by (intro loop_pass_ok) (auto simp: monitor_ok_def)
next
  case (give n m)
  then have "budget.balanced (release n (bud m), held m - {#n#}) \<and> capacity (release n (bud m)) = cap"
    using budget.balanced_step [of "(bud m, held m)" "Give n"] by (auto simp: monitor_ok_def)
  then show ?case using give by (auto simp: broadcast_def monitor_ok_def)
next
  case (timer n d m)
  then show ?case by (auto simp: broadcast_def monitor_ok_def)
next
  case (tick m t)
  then show ?case by (auto simp: monitor_ok_def)
qed

lemma reachable_ok: "reachable cap m \<Longrightarrow> 0 \<le> cap \<Longrightarrow> cap \<le> maxInt64 \<Longrightarrow> monitor_ok cap m"
proof (induction rule: reachable.induct)
  case start
  then show ?case
    by (simp add: monitor_ok_def start_monitor_def newByteBudget_def budget.balanced_def budget_ok_def)
next
  case (step m m')
  then show ?case by (blast intro: mstep_ok)
qed

text \<open>C26: in every interleaving of callers, the bytes available and the bytes held add up to the capacity,
  neither is ever negative, and no sum wraps. A caller sleeps only while its request does not fit: a
  release or an expired timer wakes every sleeper, so no wake-up is lost.\<close>

theorem budget_conserved:
  assumes "reachable cap m" and "0 \<le> cap" and "cap \<le> maxInt64"
  shows "available (bud m) + sum_mset (held m) = cap \<and> 0 \<le> available (bud m)
    \<and> (\<forall>n \<in># held m. 0 < n) \<and> (\<forall>(n, d) \<in># parked m. available (bud m) < n \<and> n \<le> cap)"
proof -
  have ok: "monitor_ok cap m" by (rule reachable_ok [OF assms])
  then have "n \<le> cap" if "(n, d) \<in># parked m" for n d using that by (force simp: monitor_ok_def)
  then show ?thesis
    using ok by (auto simp: monitor_ok_def budget.balanced_def budget_ok_def)
qed

theorem budget_conserved_witness:
  "available (bud (fst (enter 7 (start_monitor 10)))) + sum_mset (held (fst (enter 7 (start_monitor 10)))) = 10"
proof -
  have "reachable 10 (fst (enter 7 (start_monitor 10)))"
    by (rule reachable.step [OF reachable.start mstep.call])
  from budget_conserved [OF this] show ?thesis by (simp add: maxInt64_def)
qed

text \<open>no caller waits for ever. Once the clock has passed its deadline, a parked caller is woken by its
  timer, and the pass of the loop it then makes ends its wait: it takes its bytes or gives up.\<close>

theorem acquire_returns:
  assumes "(n, d) \<in># parked m" and "d \<le> t" and "clock m \<le> t"
  shows "\<exists>m'. mstep\<^sup>*\<^sup>* m m' \<and> (n, d) \<in># woken m' \<and> clock m' = t
    \<and> snd (loop_pass (n, d) (m'\<lparr>woken := woken m' - {#(n, d)#}\<rparr>)) \<noteq> Waits"
proof -
  let ?m1 = "m\<lparr>clock := t\<rparr>"
  have "mstep m ?m1" by (rule tick) (rule assms(3))
  moreover have "mstep ?m1 (broadcast ?m1)"
    by (rule timer [of n d]) (use assms in auto)
  ultimately have "mstep\<^sup>*\<^sup>* m (broadcast ?m1)" by (meson converse_rtranclp_into_rtranclp r_into_rtranclp)
  then show ?thesis
    using assms by (intro exI [of _ "broadcast ?m1"]) (simp add: broadcast_def loop_pass_def)
qed

theorem acquire_returns_witness:
  "\<exists>m'. mstep\<^sup>*\<^sup>* (fst (enter 7 (fst (enter 7 (start_monitor 10))))) m' \<and> (7, acquire_wait) \<in># woken m'"
proof -
  have "(7, acquire_wait) \<in># parked (fst (enter 7 (fst (enter 7 (start_monitor 10)))))"
    by (simp add: enter_def loop_pass_def start_monitor_def newByteBudget_def admissible_def take_bytes_def
        acquire_wait_def)
  from acquire_returns [OF this, of acquire_wait] show ?thesis
    by (auto simp: enter_def loop_pass_def start_monitor_def newByteBudget_def admissible_def take_bytes_def
        acquire_wait_def)
qed

section \<open>Limits of the server\<close>

definition maxProxyBody :: int where "maxProxyBody = 4194304"

definition bufferReservation :: "int \<Rightarrow> int option" where
  "bufferReservation limit =
     (if limit < 0 \<or> limit > (maxInt64 - 4) div 4 then None else Some (wrap64 (4 * wrap64 (limit + 1))))"

record server =
  workSlots :: slots
  connSlots :: slots
  bodyLimit :: int
  byte_budget :: "byteBudget option"

text \<open>The limits of \<open>newServerWithLeafLoader\<close>.\<close>

definition new_limits :: server where
  "new_limits =
     \<lparr>workSlots = make_slots 32, connSlots = make_slots 32, bodyLimit = maxProxyBody,
      byte_budget = Some (newByteBudget (32 * maxProxyBody * 4))\<rparr>"

definition SetLimits :: "int \<Rightarrow> int \<Rightarrow> int \<Rightarrow> server \<Rightarrow> server" where
  "SetLimits maxConnections maxBodyBytes maxBufferedBytes s =
     (let s = (if maxConnections > 0
               then s\<lparr>workSlots := make_slots (nat maxConnections), connSlots := make_slots (nat maxConnections)\<rparr>
               else s);
          s = (if maxBodyBytes > 0 then s\<lparr>bodyLimit := maxBodyBytes\<rparr> else s);
          s = (if maxBufferedBytes > 0 \<and> bodyLimit s > 0
                  \<and> wrap64 (int (slot_cap (workSlots s)) * bodyLimit s) > maxBufferedBytes
               then let n = maxBufferedBytes div bodyLimit s
                    in s\<lparr>workSlots := make_slots (nat (if n < 1 then 1 else n))\<rparr>
               else s)
      in if maxBufferedBytes > 0 then s\<lparr>byte_budget := Some (newByteBudget maxBufferedBytes)\<rparr> else s)"

definition getBudget :: "server \<Rightarrow> server \<times> byteBudget" where
  "getBudget s =
     (let s = (if bodyLimit s \<le> 0 then s\<lparr>bodyLimit := maxProxyBody\<rparr> else s)
      in case byte_budget s of
        Some b \<Rightarrow> (s, b)
      | None \<Rightarrow>
          let b = newByteBudget (case bufferReservation (bodyLimit s) of Some r \<Rightarrow> r | None \<Rightarrow> 0)
          in (s\<lparr>byte_budget := Some b\<rparr>, b))"

text \<open>the reservation of a request is exactly four times the body limit plus the probe byte, and it is
  refused exactly where that would not fit an \<open>int64\<close>: the multiplication never wraps.\<close>

theorem bufferReservation_exact:
  "bufferReservation limit =
     (if 0 \<le> limit \<and> 4 * (limit + 1) \<le> maxInt64 then Some (4 * (limit + 1)) else None)"
  by (auto simp: bufferReservation_def maxInt64_def wrap64_def)

lemma SetLimits_simps:
  assumes "0 < mc" and "0 < mb" and "0 < mbuf"
  shows "bodyLimit (SetLimits mc mb mbuf s) = mb"
    and "byte_budget (SetLimits mc mb mbuf s) = Some (newByteBudget mbuf)"
    and "connSlots (SetLimits mc mb mbuf s) = make_slots (nat mc)"
    and "workSlots (SetLimits mc mb mbuf s) =
      make_slots (nat (if wrap64 (mc * mb) > mbuf then max 1 (mbuf div mb) else mc))"
  using assms by (auto simp: SetLimits_def Let_def make_slots_def max_def)

text \<open>C27: with the limits set, the memory of the requests in flight stays within the configured bound: in
  every interleaving, the reservations held add up to at most \<open>maxBufferedBytes\<close>, at least one request
  can run, and the work slots times the body limit are within the bound too.\<close>

theorem SetLimits_bounds_memory:
  assumes "0 < mc" and "mc \<le> 1024" and "0 < mb" and "4 * (mb + 1) \<le> mbuf" and "mbuf \<le> maxInt64"
    and "mb * 1024 \<le> maxInt64"
    and "pool_run try_acquire release (newByteBudget mbuf, {#}) ops = (b, holding)"
  shows "byte_budget (SetLimits mc mb mbuf s) = Some (newByteBudget mbuf)
    \<and> sum_mset holding \<le> mbuf
    \<and> try_acquire (4 * (mb + 1)) (newByteBudget mbuf) \<noteq> None
    \<and> 1 \<le> slot_cap (workSlots (SetLimits mc mb mbuf s))
    \<and> int (slot_cap (workSlots (SetLimits mc mb mbuf s))) * mb \<le> mbuf"
proof -
  have mbuf: "0 < mbuf" using assms(3,4) by simp
  have ok: "budget_ok (newByteBudget mbuf)" using mbuf assms(5) by (simp add: newByteBudget_def budget_ok_def)
  have "0 \<le> available b \<and> available b + sum_mset holding = mbuf"
    using budget.run_from_full(1,2) [OF ok _ assms(7)] by (simp add: newByteBudget_def)
  moreover have prod: "0 \<le> mc * mb" "mc * mb \<le> maxInt64"
    using assms(1,3) order_trans [OF mult_left_mono [OF assms(2), of mb] assms(6)]
    by (auto simp: mult.commute)
  then have "wrap64 (mc * mb) = mc * mb" by (intro wrap64_id) (auto simp: maxInt64_def)
  moreover have "1 \<le> mbuf div mb" using assms(3,4) by (simp add: pos_imp_zdiv_pos_iff zdiv_mono1 int_one_le_iff_zero_less)
  moreover have "mbuf div mb * mb \<le> mbuf" using assms(3) by (simp add: minus_mod_eq_div_mult [symmetric])
  ultimately show ?thesis
    using assms(1,3,4) mbuf
    by (auto simp: SetLimits_simps make_slots_def max_def try_acquire_def admissible_def newByteBudget_def)
qed

theorem SetLimits_bounds_memory_witness:
  "1 \<le> slot_cap (workSlots (SetLimits 32 1048576 16777216 new_limits))"
proof -
  have "pool_run try_acquire release (newByteBudget 16777216, {#}) [Take 4194308] =
      (take_bytes 4194308 (newByteBudget 16777216), {#4194308#})"
    by (simp add: pool_run_def try_acquire_def admissible_def newByteBudget_def)
  then show ?thesis
    using SetLimits_bounds_memory [of 32 1048576 16777216 "[Take 4194308]" _ _ new_limits]
    by (simp add: maxInt64_def)
qed

end
