(* ===== verification/Body_IO.thy ===== *)
theory Body_IO
  imports Budget
begin

text \<open>
  Bounded body handling of \<open>internal/proxy/mitm.go\<close>: \<open>readBounded\<close>, \<open>boundedBuffer.Write\<close>,
  \<open>gzipBounded\<close> and \<open>gunzipBounded\<close>.

  The reader behind an \<open>io.Reader\<close> is an argument \<open>rd\<close>; the locale \<open>io_reader\<close> states what the documentation
  of \<open>io.Reader\<close> promises of it, and \<open>read_stream\<close>, the reader of a response body that arrives in
  chunks, satisfies it. The DEFLATE codec of \<open>compress/gzip\<close> is the record \<open>gzip_codec\<close>: what its writer
  hands to the underlying writer, and what its reader delivers.
\<close>

datatype io_error = EOF | ErrNoProgress | InvalidLimit | ReadError

section \<open>Readers\<close>

text \<open>
  A body as the chunks its reads will return, each with the error that comes with it. An error is
  sticky, and the end of the list is the end of the file.
\<close>

type_synonym stream = "(bytes \<times> io_error option) list"

fun read_stream :: "nat \<Rightarrow> stream \<Rightarrow> (bytes \<times> io_error option) \<times> stream" where
  "read_stream k [] = (([], Some EOF), [])"
| "read_stream k ((c, e) # cs) =
     (if length c \<le> k then ((c, e), case e of None \<Rightarrow> cs | Some err \<Rightarrow> [([], Some err)])
      else ((take k c, None), (drop k c, e) # cs))"

text \<open>All the bytes a stream delivers, and the error that ends it.\<close>

fun content :: "stream \<Rightarrow> bytes \<times> io_error" where
  "content [] = ([], EOF)"
| "content ((c, None) # cs) = (c @ fst (content cs), snd (content cs))"
| "content ((c, Some e) # cs) = (c, e)"

datatype body_read = Complete bytes | OverLimit bytes | Failed io_error

function read_loop ::
  "(nat \<Rightarrow> 'r \<Rightarrow> (bytes \<times> io_error option) \<times> 'r) \<Rightarrow> nat \<Rightarrow> bytes \<Rightarrow> 'r \<Rightarrow> body_read \<times> 'r"
where
  "read_loop rd cap buf r =
     (if length buf < cap then
        (let ((p, err), r') = rd (cap - length buf) r; buf' = buf @ p in
         if p \<noteq> [] \<and> length buf' = cap then (OverLimit buf', r')
         else case err of
           Some e \<Rightarrow> ((if e = EOF then Complete buf' else Failed e), r')
         | None \<Rightarrow> if p = [] then (Failed ErrNoProgress, r') else read_loop rd cap buf' r')
      else (OverLimit buf, r))"
  by pat_completeness auto
termination
  by (relation "measure (\<lambda>(rd, cap, buf, r). cap - length buf)") (auto intro!: diff_less_mono2)

declare read_loop.simps [simp del]

definition readBounded ::
  "(nat \<Rightarrow> 'r \<Rightarrow> (bytes \<times> io_error option) \<times> 'r) \<Rightarrow> int \<Rightarrow> 'r \<Rightarrow> body_read \<times> 'r"
where
  "readBounded rd limit r =
     (if limit < 0 \<or> limit \<ge> maxInt64 then (Failed InvalidLimit, r)
      else read_loop rd (nat limit + 1) [] r)"

section \<open>The contract of a reader\<close>

text \<open>
  \<open>delivers r\<close> is what is still to come from \<open>r\<close>: a read takes at most what it was asked for from the
  front, and reports the final error only with the last bytes.
\<close>

locale io_reader =
  fixes rd :: "nat \<Rightarrow> 'r \<Rightarrow> (bytes \<times> io_error option) \<times> 'r"
    and delivers :: "'r \<Rightarrow> bytes \<times> io_error"
  assumes read_bounded: "rd k r = ((p, e), r') \<Longrightarrow> length p \<le> k"
    and read_front: "rd k r = ((p, e), r') \<Longrightarrow>
      fst (delivers r) = p @ fst (delivers r') \<and> snd (delivers r') = snd (delivers r)"
    and read_last: "rd k r = ((p, Some err), r') \<Longrightarrow> delivers r = (p, err)"
begin

lemma read_loop_spec:
  "read_loop rd cap buf r = (res, r') \<Longrightarrow> length buf \<le> cap \<Longrightarrow>
   (case res of
      Complete b \<Rightarrow> length b < cap \<and> b = buf @ fst (delivers r) \<and> snd (delivers r) = EOF
    | OverLimit b \<Rightarrow> length b = cap \<and> b @ fst (delivers r') = buf @ fst (delivers r)
                     \<and> snd (delivers r') = snd (delivers r)
    | Failed e \<Rightarrow> e = ErrNoProgress \<or> (e = snd (delivers r) \<and> e \<noteq> EOF))"
proof (induction "cap - length buf" arbitrary: buf r rule: less_induct)
  case less
  show ?case
  proof (cases "length buf < cap")
    case False
    with less.prems show ?thesis by (subst (asm) read_loop.simps) auto
  next
    case True
    obtain p e r1 where rd: "rd (cap - length buf) r = ((p, e), r1)"
      by (metis surj_pair)
    note facts = read_bounded [OF rd] read_front [OF rd]
    consider (full) "p \<noteq> []" "length (buf @ p) = cap"
      | (error) err where "\<not> (p \<noteq> [] \<and> length (buf @ p) = cap)" "e = Some err"
      | (stuck) "p = []" "e = None"
      | (more) "p \<noteq> []" "length (buf @ p) \<noteq> cap" "e = None"
      by (cases e) auto
    then show ?thesis
    proof cases
      case full
      then have "res = OverLimit (buf @ p)" "r' = r1"
        using less.prems(1) True rd by (subst (asm) read_loop.simps; simp)+
      with full facts show ?thesis by simp
    next
      case error
      then have "res = (if err = EOF then Complete (buf @ p) else Failed err)"
        using less.prems(1) True rd by (subst (asm) read_loop.simps) auto
      moreover have "delivers r = (p, err)" using read_last rd error(2) by simp
      moreover have "length (buf @ p) < cap" using error(1) facts(1) True by (cases "p = []") auto
      ultimately show ?thesis by simp
    next
      case stuck
      then have "res = Failed ErrNoProgress"
        using less.prems(1) True rd by (subst (asm) read_loop.simps) simp
      then show ?thesis by simp
    next
      case more
      then have "read_loop rd cap (buf @ p) r1 = (res, r')"
        using less.prems(1) True rd by (subst (asm) read_loop.simps) simp
      moreover have "length buf < length (buf @ p)" using more(1) by simp
      moreover have "length (buf @ p) \<le> cap" using facts(1) True by simp
      ultimately have IH: "case res of
          Complete b \<Rightarrow> length b < cap \<and> b = (buf @ p) @ fst (delivers r1) \<and> snd (delivers r1) = EOF
        | OverLimit b \<Rightarrow> length b = cap \<and> b @ fst (delivers r') = (buf @ p) @ fst (delivers r1)
                         \<and> snd (delivers r') = snd (delivers r1)
        | Failed e \<Rightarrow> e = ErrNoProgress \<or> (e = snd (delivers r1) \<and> e \<noteq> EOF)"
        using True by (intro less.hyps diff_less_mono2)
      have d: "fst (delivers r) = p @ fst (delivers r1)" "snd (delivers r) = snd (delivers r1)"
        using facts(2) by simp_all
      from IH show ?thesis by (cases res) (simp_all add: d)
    qed
  qed
qed

text \<open>
  What \<open>readBounded\<close> makes of a reader: the whole body when it ends within the limit; one byte more than
  the limit, with the rest still in the reader, when it does not; an error otherwise.
\<close>

lemma readBounded_spec:
  assumes "readBounded rd limit r = (res, r')"
  shows "case res of
      Complete b \<Rightarrow> int (length b) \<le> limit \<and> delivers r = (b, EOF)
    | OverLimit b \<Rightarrow> int (length b) = limit + 1 \<and> delivers r = (b @ fst (delivers r'), snd (delivers r'))
    | Failed e \<Rightarrow> e = ErrNoProgress \<or> e = InvalidLimit \<or> (e = snd (delivers r) \<and> e \<noteq> EOF)"
proof (cases "limit < 0 \<or> limit \<ge> maxInt64")
  case True
  with assms show ?thesis by (auto simp: readBounded_def)
next
  case False
  then have "read_loop rd (nat limit + 1) [] r = (res, r')"
    using assms by (simp add: readBounded_def)
  from read_loop_spec [OF this] False show ?thesis
    by (cases res) (auto intro: prod_eqI)
qed

end

section \<open>The reader of a chunked body\<close>

lemma read_stream_front:
  "read_stream k s = ((p, e), s') \<Longrightarrow>
   length p \<le> k \<and> fst (content s) = p @ fst (content s') \<and> snd (content s') = snd (content s)
   \<and> (\<forall>err. e = Some err \<longrightarrow> content s = (p, err))"
proof (cases s)
  case (Cons q cs)
  assume r: "read_stream k s = ((p, e), s')"
  obtain c err where q: "q = (c, err)" by (cases q)
  show ?thesis
  proof (cases err)
    case None
    with r show ?thesis by (auto simp: Cons q split: if_splits)
  next
    case (Some x)
    with r show ?thesis by (auto simp: Cons q split: if_splits)
  qed
qed auto

interpretation body: io_reader read_stream content
  by unfold_locales (use read_stream_front in blast)+

section \<open>Compression\<close>

text \<open>
  The writes that \<open>gzip.Writer\<close> makes to its destination during \<open>Write\<close> and \<open>Close\<close>, and the stream
  \<open>gzip.NewReader\<close> reads, \<open>None\<close> for a bad header.
\<close>

record gzip_codec =
  gz_write :: "bytes \<Rightarrow> bytes list"
  gz_close :: "bytes \<Rightarrow> bytes list"
  gz_reader :: "bytes \<Rightarrow> stream option"

record boundedBuffer =
  buf :: bytes
  limit :: int

definition bb_Write :: "bytes \<Rightarrow> boundedBuffer \<Rightarrow> boundedBuffer option" where
  "bb_Write p b =
     (if int (length (buf b)) + int (length p) > limit b then None else Some (b\<lparr>buf := buf b @ p\<rparr>))"

fun bb_writes :: "bytes list \<Rightarrow> boundedBuffer \<Rightarrow> boundedBuffer option" where
  "bb_writes [] b = Some b"
| "bb_writes (p # ps) b = (case bb_Write p b of None \<Rightarrow> None | Some b' \<Rightarrow> bb_writes ps b')"

definition gzipBounded :: "gzip_codec \<Rightarrow> bytes \<Rightarrow> int \<Rightarrow> bytes option" where
  "gzipBounded z body lim =
     (if lim \<le> 0 \<or> lim > maxInt64 \<or> int (length body) > lim then None
      else case bb_writes (gz_write z body) \<lparr>buf = [], limit = lim\<rparr> of
        None \<Rightarrow> None
      | Some b1 \<Rightarrow>
          (case bb_writes (gz_close z body) b1 of
             None \<Rightarrow> None
           | Some b2 \<Rightarrow> if int (length (buf b2)) > lim then None else Some (buf b2)))"

definition gunzipBounded :: "gzip_codec \<Rightarrow> bytes \<Rightarrow> int \<Rightarrow> bytes option" where
  "gunzipBounded z body lim =
     (case gz_reader z body of
        None \<Rightarrow> None
      | Some s \<Rightarrow> (case fst (readBounded read_stream lim s) of Complete d \<Rightarrow> Some d | _ \<Rightarrow> None))"

definition gz_all :: "gzip_codec \<Rightarrow> bytes \<Rightarrow> bytes" where
  "gz_all z body = concat (gz_write z body) @ concat (gz_close z body)"

lemma bb_writes_eq:
  "int (length (buf b)) \<le> limit b \<Longrightarrow>
   bb_writes ps b =
     (if int (length (buf b @ concat ps)) \<le> limit b then Some (b\<lparr>buf := buf b @ concat ps\<rparr>) else None)"
proof (induction ps arbitrary: b)
  case (Cons p ps)
  show ?case
  proof (cases "int (length (buf b)) + int (length p) > limit b")
    case False
    with Cons.IH [of "b\<lparr>buf := buf b @ p\<rparr>"] show ?thesis by (simp add: bb_Write_def)
  qed (simp add: bb_Write_def)
qed simp

lemma gzipBounded_eq:
  "gzipBounded z b lim =
     (if 0 < lim \<and> lim \<le> maxInt64 \<and> int (length b) \<le> lim \<and> int (length (gz_all z b)) \<le> lim
      then Some (gz_all z b) else None)"
  by (auto simp: gzipBounded_def bb_writes_eq gz_all_def not_less not_le)

text \<open>compression is all or nothing. \<open>gzipBounded\<close> succeeds exactly when the body and its whole
  compressed form fit the limit, and then returns that whole form: no truncated gzip is ever produced.\<close>

theorem gzipBounded_exact:
  "gzipBounded z body lim =
     (if 0 < lim \<and> lim \<le> maxInt64 \<and> int (length body) \<le> lim \<and> int (length (gz_all z body)) \<le> lim
      then Some (gz_all z body) else None)"
  by (rule gzipBounded_eq)

text \<open>a response body is read whole or not at all. When \<open>readBounded\<close> reports completion, it returns
  every byte of the body and the body is within the limit; when it reports the limit, what it returns and
  what is left in the reader are together the whole body, so streaming the rest loses nothing.\<close>

theorem readBounded_lossless:
  assumes "readBounded read_stream lim s = (res, s')"
  shows "case res of
      Complete b \<Rightarrow> int (length b) \<le> lim \<and> content s = (b, EOF)
    | OverLimit b \<Rightarrow> int (length b) = lim + 1 \<and> content s = (b @ fst (content s'), snd (content s'))
    | Failed e \<Rightarrow> e = ErrNoProgress \<or> e = InvalidLimit \<or> (e = snd (content s) \<and> e \<noteq> EOF)"
  by (rule body.readBounded_spec [OF assms])

theorem readBounded_lossless_witness:
  "content [([1, 2], None), ([3, 4, 5], None)] = ([1, 2, 3, 4] @ [5], EOF)"
proof -
  have "readBounded read_stream 3 [([1, 2], None), ([3, 4, 5], None)] = (OverLimit [1, 2, 3, 4], [([5], None)])"
    by (simp add: readBounded_def read_loop.simps maxInt64_def)
  from readBounded_lossless [OF this] show ?thesis by simp
qed

lemma gunzipBounded_Some:
  "gunzipBounded z body lim = Some d \<Longrightarrow>
   int (length d) \<le> lim \<and> (\<exists>s. gz_reader z body = Some s \<and> content s = (d, EOF))"
proof -
  assume g: "gunzipBounded z body lim = Some d"
  then obtain s where s: "gz_reader z body = Some s" by (auto simp: gunzipBounded_def split: option.splits)
  with g obtain s' where "readBounded read_stream lim s = (Complete d, s')"
    by (cases "readBounded read_stream lim s") (auto simp: gunzipBounded_def split: body_read.splits)
  from body.readBounded_spec [OF this] s show ?thesis by simp
qed

section \<open>Bodies that make progress\<close>

text \<open>No read of the body returns nothing without an error, as for the bodies of \<open>net/http\<close>.\<close>

definition lively :: "stream \<Rightarrow> bool" where
  "lively s \<longleftrightarrow> list_all (\<lambda>(c, e). c \<noteq> [] \<or> e \<noteq> None) s"

lemma read_stream_lively:
  "lively s \<Longrightarrow> 0 < k \<Longrightarrow> read_stream k s = ((p, e), s') \<Longrightarrow> lively s' \<and> (p \<noteq> [] \<or> e \<noteq> None)"
proof (cases s)
  case (Cons q cs)
  obtain c err where q: "q = (c, err)" by (cases q)
  assume "lively s" "0 < k" "read_stream k s = ((p, e), s')"
  then show ?thesis
    by (cases err) (auto simp: Cons q lively_def split: if_splits)
qed (auto simp: lively_def)

lemma read_loop_lively:
  "lively s \<Longrightarrow> length acc \<le> cap \<Longrightarrow> snd (content s) = EOF \<Longrightarrow>
   fst (read_loop read_stream cap acc s) \<noteq> Failed ErrNoProgress"
proof (induction "cap - length acc" arbitrary: acc s rule: less_induct)
  case less
  show ?case
  proof (cases "length acc < cap")
    case True
    obtain p e s1 where rd: "read_stream (cap - length acc) s = ((p, e), s1)"
      by (metis surj_pair)
    note l = read_stream_lively [OF less.prems(1) _ rd] and f = read_stream_front [OF rd]
    have "fst (read_loop read_stream cap (acc @ p) s1) \<noteq> Failed ErrNoProgress" if "p \<noteq> []"
      using that l f True less.prems(3) by (intro less.hyps diff_less_mono2) auto
    with l f True less.prems(3) show ?thesis
      by (subst read_loop.simps) (auto simp: rd Let_def split: option.splits)
  qed (simp add: read_loop.simps)
qed

lemma readBounded_lively:
  assumes "lively s" and "content s = (b, EOF)" and "0 \<le> lim" and "lim < maxInt64"
  shows "if int (length b) \<le> lim then \<exists>s'. readBounded read_stream lim s = (Complete b, s')
    else \<exists>s'. readBounded read_stream lim s = (OverLimit (take (nat lim + 1) b), s')
      \<and> content s' = (drop (nat lim + 1) b, EOF)"
proof -
  obtain res s' where r: "readBounded read_stream lim s = (res, s')" by (metis surj_pair)
  with assms have l: "read_loop read_stream (nat lim + 1) [] s = (res, s')"
    by (simp add: readBounded_def)
  note spec = body.read_loop_spec [OF l] body.readBounded_spec [OF r]
  show ?thesis
  proof (cases res)
    case (Complete b')
    then show ?thesis using spec r assms(2) by auto
  next
    case (OverLimit b')
    then have "length b' = nat lim + 1" "b = b' @ fst (content s')" "snd (content s') = EOF"
      using spec assms(2,3) by auto
    then show ?thesis using r OverLimit by (auto intro!: prod_eqI)
  next
    case (Failed e)
    have "fst (read_loop read_stream (nat lim + 1) [] s) \<noteq> Failed ErrNoProgress"
      by (rule read_loop_lively) (use assms(1,2) in simp_all)
    with l Failed have "e \<noteq> ErrNoProgress" by simp
    with Failed spec(1) assms(2) show ?thesis by auto
  qed
qed

end
