(* ===== verification/Http.thy ===== *)
theory Http
  imports Body_IO Net_Addr
begin

text \<open>
  The part of \<open>net/http\<close> the proxy uses: header maps with canonical keys, requests and responses, and the
  response writer with \<open>http.Error\<close>. Standard library, not code of the repository.

  A header is a list of (key, values) pairs with distinct keys. The response writer remembers what it
  was given; \<open>accepts\<close> is the number of body bytes the client's connection will still take
  (\<open>None\<close> when it takes everything), so that failing and short writes are values.
\<close>

section \<open>Headers\<close>

type_synonym header = "(string \<times> string list) list"

definition ascii_lower :: "char \<Rightarrow> char" where
  "ascii_lower c = (if 65 \<le> cb c \<and> cb c \<le> 90 then char_of (cb c + 32) else c)"

definition ascii_upper :: "char \<Rightarrow> char" where
  "ascii_upper c = (if 97 \<le> cb c \<and> cb c \<le> 122 then char_of (cb c - 32) else c)"

definition token_char :: "char \<Rightarrow> bool" where
  "token_char c \<longleftrightarrow> is_digit c \<or> (65 \<le> cb c \<and> cb c \<le> 90) \<or> (97 \<le> cb c \<and> cb c \<le> 122)
     \<or> c \<in> set ''!#$%&*+-.^_`|~'' \<or> cb c = 39"

fun canonical_loop :: "bool \<Rightarrow> string \<Rightarrow> string" where
  "canonical_loop upper [] = []"
| "canonical_loop upper (c # cs) =
     (if upper then ascii_upper c else ascii_lower c) # canonical_loop (c = CHR ''-'') cs"

definition CanonicalKey :: "string \<Rightarrow> string" where
  "CanonicalKey s = (if list_all token_char s then canonical_loop True s else s)"

text \<open>\<open>strings.EqualFold\<close> against an ASCII constant without k and s, the letters with other foldings.\<close>

definition EqualFold :: "string \<Rightarrow> string \<Rightarrow> bool" where
  "EqualFold s t \<longleftrightarrow> map ascii_lower s = map ascii_lower t"

definition h_values :: "string \<Rightarrow> header \<Rightarrow> string list" where
  "h_values k h = (case map_of h (CanonicalKey k) of Some vs \<Rightarrow> vs | None \<Rightarrow> [])"

definition h_Get :: "string \<Rightarrow> header \<Rightarrow> string" where
  "h_Get k h = (case h_values k h of [] \<Rightarrow> '''' | v # _ \<Rightarrow> v)"

definition h_Del :: "string \<Rightarrow> header \<Rightarrow> header" where
  "h_Del k h = filter (\<lambda>(k', _). k' \<noteq> CanonicalKey k) h"

definition h_Set :: "string \<Rightarrow> string \<Rightarrow> header \<Rightarrow> header" where
  "h_Set k v h = h_Del k h @ [(CanonicalKey k, [v])]"

definition h_Add :: "string \<Rightarrow> string \<Rightarrow> header \<Rightarrow> header" where
  "h_Add k v h = h_Del k h @ [(CanonicalKey k, h_values k h @ [v])]"

lemma map_of_h_Del: "map_of (h_Del k h) k' = (if k' = CanonicalKey k then None else map_of h k')"
  by (induction h) (auto simp: h_Del_def)

lemma h_values_Del: "h_values k' (h_Del k h) = (if CanonicalKey k' = CanonicalKey k then [] else h_values k' h)"
  by (simp add: h_values_def map_of_h_Del)

lemma h_values_Set:
  "h_values k' (h_Set k v h) = (if CanonicalKey k' = CanonicalKey k then [v] else h_values k' h)"
  by (auto simp: h_values_def h_Set_def map_of_h_Del map_add_def split: option.splits)

lemma h_values_Add:
  "h_values k' (h_Add k v h) =
   (if CanonicalKey k' = CanonicalKey k then h_values k h @ [v] else h_values k' h)"
  by (auto simp: h_values_def [of k'] h_Add_def map_of_h_Del map_add_def split: option.splits)

lemmas header_simps = h_values_Del h_values_Set h_values_Add

section \<open>Requests and responses\<close>

text \<open>\<open>TLS\<close> is the server name of the TLS connection, \<open>None\<close> where Go has a nil \<open>r.TLS\<close>.\<close>

record request =
  TLS :: "string option"
  Host :: string
  Path :: string
  RemoteAddr :: string
  Scheme :: string
  URLHost :: string
  RequestURI :: string
  ReqHeader :: header

record response =
  StatusCode :: nat
  RespHeader :: header
  RespBody :: stream

record response_writer =
  w_header :: header
  w_status :: "nat option"
  w_body :: bytes
  accepts :: "nat option"

definition WriteHeader :: "nat \<Rightarrow> response_writer \<Rightarrow> response_writer" where
  "WriteHeader code w = (case w_status w of None \<Rightarrow> w\<lparr>w_status := Some code\<rparr> | Some _ \<Rightarrow> w)"

text \<open>\<open>Write\<close>: the writer afterwards, the bytes written and whether there was no error.\<close>

definition Write :: "bytes \<Rightarrow> response_writer \<Rightarrow> response_writer \<times> nat \<times> bool" where
  "Write b w =
     (case accepts w of
        None \<Rightarrow> (w\<lparr>w_body := w_body w @ b\<rparr>, length b, True)
      | Some k \<Rightarrow>
          let n = min k (length b)
          in (w\<lparr>w_body := w_body w @ take n b, accepts := Some (k - n)\<rparr>, n, n = length b))"

text \<open>\<open>io.Copy(w, body)\<close>, with whether it returned no error.\<close>

definition Copy :: "stream \<Rightarrow> response_writer \<Rightarrow> response_writer \<times> bool" where
  "Copy s w = (let (w', n, ok) = Write (fst (content s)) w in (w', ok \<and> snd (content s) = EOF))"

definition http_Error :: "string \<Rightarrow> nat \<Rightarrow> response_writer \<Rightarrow> response_writer" where
  "http_Error msg code w =
     fst (Write (go_bytes (msg @ [char_of (10::nat)]))
       (WriteHeader code
         (w\<lparr>w_header := h_Set ''X-Content-Type-Options'' ''nosniff''
                         (h_Set ''Content-Type'' ''text/plain; charset=utf-8'' (w_header w))\<rparr>)))"

definition new_writer :: "nat option \<Rightarrow> response_writer" where
  "new_writer k = \<lparr>w_header = [], w_status = None, w_body = [], accepts = k\<rparr>"

lemma Write_all: "accepts w = None \<Longrightarrow> Write b w = (w\<lparr>w_body := w_body w @ b\<rparr>, length b, True)"
  by (simp add: Write_def)

lemma Write_keeps [keep_simps]:
  "w_status (fst (Write b w)) = w_status w" "w_header (fst (Write b w)) = w_header w"
  by (auto simp: Write_def Let_def split: option.splits)

lemma Copy_keeps [keep_simps]:
  "w_status (fst (Copy s w)) = w_status w" "w_header (fst (Copy s w)) = w_header w"
  using Write_keeps [of "fst (content s)" w] by (auto simp: Copy_def split: prod.splits)

lemma WriteHeader_keeps [keep_simps]:
  "w_header (WriteHeader c w) = w_header w" "w_body (WriteHeader c w) = w_body w"
  "accepts (WriteHeader c w) = accepts w"
  by (auto simp: WriteHeader_def split: option.splits)

lemma Write_prefix: "\<exists>t. w_body (fst (Write b w)) = w_body w @ t \<and> t = take (length t) b"
  by (auto simp: Write_def Let_def split: option.splits)

section \<open>Keys up to case\<close>

lemma cb_shift: "65 \<le> cb c \<Longrightarrow> cb c \<le> 122 \<Longrightarrow> cb (char_of (cb c + 32)) = cb c + 32"
  "97 \<le> cb c \<Longrightarrow> cb (char_of (cb c - 32)) = cb c - 32"
  using cb_less [of c] by (simp_all add: less_imp_diff_less)

lemma ascii_lower_fold: "ascii_lower (ascii_upper c) = ascii_lower c" "ascii_lower (ascii_lower c) = ascii_lower c"
  by (auto simp: ascii_lower_def ascii_upper_def cb_shift)

lemma canonical_loop_fold: "map ascii_lower (canonical_loop u s) = map ascii_lower s"
  by (induction u s rule: canonical_loop.induct) (auto simp: ascii_lower_fold)

lemma CanonicalKey_fold: "map ascii_lower (CanonicalKey s) = map ascii_lower s"
  by (simp add: CanonicalKey_def canonical_loop_fold)

lemma canonical_EqualFold: "CanonicalKey s = CanonicalKey t \<Longrightarrow> EqualFold s t"
  unfolding EqualFold_def by (metis CanonicalKey_fold)

lemma ascii_lower_ascii: "cb (ascii_lower c) < 128 \<Longrightarrow> cb c < 128 \<and> lower_char c = ascii_lower c"
  by (auto simp: ascii_lower_def lower_char_def lower_rune_def cb_shift split: if_splits)

lemma ToLower_fold: "is_ascii t \<Longrightarrow> map ascii_lower s = t \<Longrightarrow> ToLower s = t"
proof -
  assume t: "is_ascii t" "map ascii_lower s = t"
  then have "\<forall>c \<in> set s. cb c < 128 \<and> lower_char c = ascii_lower c"
    using ascii_lower_ascii by (auto simp: is_ascii_def list_all_iff)
  then show ?thesis using t by (auto simp: ToLower_ascii is_ascii_def list_all_iff cong: map_cong)
qed

end
