(* ===== verification/Classifier.thy ===== *)
theory Classifier
  imports Net_Addr "HOL-Library.Monad_Syntax"
begin

text \<open>
  The ClientHello classifier, \<open>internal/proxy/classifier.go\<close>: \<open>NormalizeSNI\<close>, \<open>parseSNI\<close> and \<open>Classify\<close>.

  The Go code indexes and slices the bytes a peer sent. Every index expression is checked here: an
  access past the end is the value \<open>None\<close>, Go's run-time panic, so that the absence of panics is a
  theorem (\<open>parseSNI_total\<close>) and not a modelling choice. A slice past the length is taken for a panic
  even where the capacity of the underlying array would let it through.
\<close>

datatype decision = Passthrough | MITM

text \<open>A Go \<open>map[string]bool\<close>: reading a key that is absent gives \<open>false\<close>.\<close>

type_synonym string_set = "string \<rightharpoonup> bool"

definition enabled :: "string_set \<Rightarrow> string \<Rightarrow> bool" where
  "enabled m k = (case m k of Some b \<Rightarrow> b | None \<Rightarrow> False)"

record policy =
  MaxHello :: int
  AllowSNI :: "(string \<times> bool) list"
  AllowDestination :: "(string \<times> bool) list"

datatype reason =
    NonTlsPort | DestinationAllowlistEmpty | HelloTooLarge | NoSni | SniNotAllowed
  | DestinationNotAllowed | AllowlistMatch

record classified =
  Decision :: decision
  SNI :: string
  Destination :: string
  Reason :: reason

section \<open>Checked access\<close>

definition byte_at :: "bytes \<Rightarrow> nat \<Rightarrow> nat option" where
  "byte_at b i = (if i < length b then Some (unat (b ! i)) else None)"

definition u16_at :: "bytes \<Rightarrow> nat \<Rightarrow> nat option" where
  "u16_at b i = (if i + 2 \<le> length b then Some (be16_at b i) else None)"

definition sub_slice :: "bytes \<Rightarrow> nat \<Rightarrow> nat \<Rightarrow> bytes option" where
  "sub_slice b i j = (if i \<le> j \<and> j \<le> length b then Some (gslice i j b) else None)"

section \<open>The code\<close>

definition NormalizeSNI :: "string \<Rightarrow> string" where
  "NormalizeSNI s = ToLower (TrimSuffix (TrimSpace s) ''.'')"

text \<open>The result \<open>Some None\<close> is Go's \<open>"", false\<close>. \<open>sni_name\<close> is the body of the \<open>server_name\<close> extension.\<close>

definition sni_name :: "bytes \<Rightarrow> nat \<Rightarrow> nat \<Rightarrow> string option option" where
  "sni_name body p len = do {
     outerLen \<leftarrow> u16_at body p;
     let q = p + 2;
     (listLen, q) \<leftarrow> (if outerLen \<noteq> len - 2 \<and> q + 2 \<le> p + len
                       then do { l \<leftarrow> u16_at body q; Some (l, q + 2) } else Some (outerLen, q));
     if listLen > len - 2 \<or> listLen < 3 \<or> q + listLen > p + len then Some None
     else do {
       t \<leftarrow> byte_at body q;
       if t \<noteq> 0 \<or> q + 3 > p + len then Some None
       else do {
         nameLen \<leftarrow> u16_at body (q + 1);
         let q = q + 3;
         if nameLen = 0 \<or> nameLen > listLen - 3 \<or> q + nameLen > p + len then Some None
         else do { name \<leftarrow> sub_slice body q (q + nameLen); Some (Some (go_string name)) }
       }
     }
   }"

function ext_loop :: "bytes \<Rightarrow> nat \<Rightarrow> nat \<Rightarrow> string option option" where
  "ext_loop body stop p =
     (if p + 4 \<le> stop then
        (case u16_at body p of
           None \<Rightarrow> None
         | Some typ \<Rightarrow>
             (case u16_at body (p + 2) of
                None \<Rightarrow> None
              | Some len \<Rightarrow>
                  if p + 4 + len > stop then Some None
                  else if typ = 0 \<and> len \<ge> 5 then sni_name body (p + 4) len
                  else ext_loop body stop (p + 4 + len)))
      else Some None)"
  by pat_completeness auto
termination by (relation "measure (\<lambda>(body, e, p). e - p)") auto

declare ext_loop.simps [simp del]

definition hello_body :: "bytes \<Rightarrow> string option option" where
  "hello_body body =
     (let p = 0 in
      if p + 2 + 32 + 1 > length body then Some None
      else let p = p + 2 + 32 in do {
        sessionLen \<leftarrow> byte_at body p;
        let p = p + 1;
        if p + sessionLen + 2 > length body then Some None
        else let p = p + sessionLen in do {
          cipherLen \<leftarrow> u16_at body p;
          let p = p + 2;
          if p + cipherLen + 1 > length body then Some None
          else let p = p + cipherLen in do {
            compressionLen \<leftarrow> byte_at body p;
            let p = p + 1;
            if p + compressionLen + 2 > length body then Some None
            else let p = p + compressionLen in do {
              extLen \<leftarrow> u16_at body p;
              let p = p + 2;
              let stop = p + extLen;
              if stop > length body then Some None else ext_loop body stop p
            }
          }
        }
      })"

definition parseSNI :: "bytes \<Rightarrow> string option option" where
  "parseSNI b =
     (if length b < 5 then Some None
      else do {
        b0 \<leftarrow> byte_at b 0;
        if b0 \<noteq> 22 then Some None
        else do {
          recordLen \<leftarrow> u16_at b 3;
          if recordLen < 4 \<or> recordLen + 5 > length b then Some None
          else do {
            handshake \<leftarrow> sub_slice b 5 (5 + recordLen);
            if length handshake < 4 then Some None
            else do {
              h0 \<leftarrow> byte_at handshake 0;
              if h0 \<noteq> 1 then Some None
              else do {
                h1 \<leftarrow> byte_at handshake 1;
                h2 \<leftarrow> byte_at handshake 2;
                h3 \<leftarrow> byte_at handshake 3;
                if 65536 * h1 + 256 * h2 + h3 \<noteq> length handshake - 4 then Some None
                else do {
                  body \<leftarrow> sub_slice handshake 4 (length handshake);
                  hello_body body
                }
              }
            }
          }
        }
      })"

definition Classify :: "bytes \<Rightarrow> ip \<Rightarrow> int \<Rightarrow> policy \<Rightarrow> classified option" where
  "Classify hello original port p =
     (let dest = JoinHostPort (IP_String original) (if port > 0 then Itoa port else ''0'');
          r = \<lparr>Decision = Passthrough, SNI = '''', Destination = dest, Reason = NonTlsPort\<rparr>
      in if port \<noteq> 443 then Some r
      else if AllowDestination p = [] then Some (r\<lparr>Reason := DestinationAllowlistEmpty\<rparr>)
      else let mx = (if MaxHello p \<le> 0 then 65536 else MaxHello p) in
        if int (length hello) > mx then Some (r\<lparr>Reason := HelloTooLarge\<rparr>)
      else do {
        sni \<leftarrow> parseSNI hello;
        case sni of
          None \<Rightarrow> Some (r\<lparr>Reason := NoSni\<rparr>)
        | Some name \<Rightarrow>
            let r = r\<lparr>SNI := NormalizeSNI name\<rparr> in
            Some (if SNI r = '''' \<or> \<not> enabled (map_of (AllowSNI p)) (SNI r)
                  then r\<lparr>Reason := SniNotAllowed\<rparr>
                  else if \<not> enabled (map_of (AllowDestination p)) (IP_String original)
                          \<and> \<not> enabled (map_of (AllowDestination p)) ''*''
                  then r\<lparr>Reason := DestinationNotAllowed\<rparr>
                  else r\<lparr>Decision := MITM, Reason := AllowlistMatch\<rparr>)
      })"

section \<open>No access is out of range\<close>

lemma byte_at_Some: "i < length b \<Longrightarrow> byte_at b i = Some (unat (b ! i))"
  and u16_at_Some: "i + 2 \<le> length b \<Longrightarrow> u16_at b i = Some (be16_at b i)"
  and sub_slice_Some: "i \<le> j \<Longrightarrow> j \<le> length b \<Longrightarrow> sub_slice b i j = Some (gslice i j b)"
  by (simp_all add: byte_at_def u16_at_def sub_slice_def)

lemmas access = byte_at_Some u16_at_Some sub_slice_Some

lemma sni_name_no_panic:
  assumes "5 \<le> len" and "p + len \<le> length body"
  shows "sni_name body p len \<noteq> None"
proof -
  have "u16_at body p = Some (be16_at body p)" "u16_at body (p + 2) = Some (be16_at body (p + 2))"
    using assms by (simp_all add: access)
  moreover have "byte_at body q = Some (unat (body ! q))"
    if "3 \<le> l" "q + l \<le> p + len" for q l
    using that assms by (simp add: access)
  moreover have "u16_at body (q + 1) = Some (be16_at body (q + 1))" if "q + 3 \<le> p + len" for q
    using that assms by (simp add: access)
  moreover have "sub_slice body q (q + n) = Some (gslice q (q + n) body)" if "q + n \<le> p + len" for q n
    using that assms by (simp add: access)
  ultimately show ?thesis
    unfolding sni_name_def Let_def by (auto simp: not_less)
qed

lemma ext_loop_no_panic: "stop \<le> length body \<Longrightarrow> ext_loop body stop p \<noteq> None"
proof (induction body stop p rule: ext_loop.induct)
  case (1 body stop p)
  show ?case
    using "1.IH" "1.prems" sni_name_no_panic [of "be16_at body (p + 2)" "p + 4" body]
    by (subst ext_loop.simps) (auto simp: access)
qed

lemma hello_body_no_panic: "hello_body body \<noteq> None"
  unfolding hello_body_def Let_def
  by (auto simp: access ext_loop_no_panic [unfolded not_None_eq] not_less)

lemma parseSNI_total: "\<exists>q. parseSNI b = Some q"
proof (cases "length b < 5")
  case True
  then show ?thesis by (simp add: parseSNI_def)
next
  case False
  then have "byte_at b 0 = Some (unat (b ! 0))" "u16_at b 3 = Some (be16_at b 3)"
    by (auto intro!: access)
  moreover have "byte_at h i = Some (unat (h ! i))" if "\<not> length h < 4" "i < 4" for h i
    using that by (intro access) simp
  moreover have "sub_slice b 5 (5 + l) = Some (gslice 5 (5 + l) b)" if "\<not> length b < l + 5" for l
    using that by (intro access) auto
  moreover have "sub_slice h 4 (length h) = Some (gslice 4 (length h) h)" if "\<not> length h < 4" for h
    using that by (intro access) auto
  ultimately show ?thesis
    using hello_body_no_panic by (simp add: parseSNI_def del: length_gslice)
qed

text \<open>C35: whatever bytes a client sends, \<open>parseSNI\<close> returns: no index or slice expression of it is out of
  range, for the name list in either of its two layouts.\<close>

theorem parseSNI_no_panic: "parseSNI b \<noteq> None"
  using parseSNI_total [of b] by auto

section \<open>The name is read from every well-formed ClientHello\<close>

definition put24 :: "nat \<Rightarrow> bytes" where
  "put24 n = [word_of_nat (n div 65536), word_of_nat (n div 256), word_of_nat n]"

definition extension :: "nat \<times> bytes \<Rightarrow> bytes" where
  "extension e = put16 (fst e) @ put16 (length (snd e)) @ snd e"

definition sni_extension :: "bytes \<Rightarrow> bytes" where
  "sni_extension name =
     extension (0, put16 (length name + 3) @ [0] @ put16 (length name) @ name)"

definition hello_bytes ::
  "bytes \<Rightarrow> bytes \<Rightarrow> bytes \<Rightarrow> bytes \<Rightarrow> (nat \<times> bytes) list \<Rightarrow> bytes \<Rightarrow> bytes \<Rightarrow> bytes"
where
  "hello_bytes fixed session ciphers compression before name after =
     fixed @ [word_of_nat (length session)] @ session @ put16 (length ciphers) @ ciphers
       @ [word_of_nat (length compression)] @ compression
       @ put16 (length (concat (map extension before) @ sni_extension name @ after))
       @ concat (map extension before) @ sni_extension name @ after"

definition hello_record :: "bytes \<Rightarrow> bytes \<Rightarrow> bytes \<Rightarrow> bytes" where
  "hello_record version body rest =
     [22] @ version @ put16 (length body + 4) @ [1] @ put24 (length body) @ body @ rest"

lemma byte_at_append: "i = length a \<Longrightarrow> byte_at (a @ x # c) i = Some (unat x)"
  by (simp add: byte_at_def nth_append)

lemma u16_at_append: "i = length a \<Longrightarrow> n < 65536 \<Longrightarrow> u16_at (a @ put16 n @ c) i = Some n"
  by (simp add: u16_at_def be16_at_put16)

lemma sub_slice_append: "i = length a \<Longrightarrow> j = i + length m \<Longrightarrow> sub_slice (a @ m @ c) i j = Some m"
  by (simp add: sub_slice_def gslice_append_exact)

lemma sni_name_reads:
  assumes "name \<noteq> []" and "length name + 5 < 65536"
    and b: "body = a @ put16 (length name + 3) @ [0] @ put16 (length name) @ name @ c"
  shows "sni_name body (length a) (length name + 5) = Some (Some (go_string name))"
proof -
  let ?p1 = "a @ put16 (length name + 3)"
  have "u16_at body (length a) = Some (length name + 3)"
    unfolding b by (rule u16_at_append) (use assms in simp_all)
  moreover have "byte_at body (length a + 2) = Some 0"
    using byte_at_append [of "length a + 2" ?p1 0 "put16 (length name) @ name @ c"] by (simp add: b)
  moreover have "u16_at body (Suc (Suc (Suc (length a)))) = Some (length name)"
    using u16_at_append [of "Suc (Suc (Suc (length a)))" "?p1 @ [0]" "length name" "name @ c"] assms
    by (simp add: b)
  moreover have "sub_slice body (length a + 5) (length a + 5 + length name) = Some name"
    using sub_slice_append [of "length a + 5" "?p1 @ [0] @ put16 (length name)" _ name c] by (simp add: b)
  ultimately show ?thesis
    using assms(1) by (simp add: sni_name_def Let_def add.commute add.left_commute)
qed

lemma ext_loop_reads:
  assumes "name \<noteq> []" and "length name + 5 < 65536"
    and "list_all (\<lambda>(t, x). t < 65536 \<and> length x < 65536 \<and> (t = 0 \<longrightarrow> length x < 5)) before"
    and "body = a @ concat (map extension before) @ sni_extension name @ after"
  shows "ext_loop body (length body) (length a) = Some (Some (go_string name))"
  using assms(3,4)
proof (induction before arbitrary: a)
  case Nil
  let ?x = "put16 (length name + 3) @ [0] @ put16 (length name) @ name"
  have b: "body = a @ put16 0 @ put16 (length ?x) @ ?x @ after"
    using Nil.prems by (simp add: sni_extension_def extension_def)
  have "u16_at body (length a) = Some 0"
    unfolding b by (rule u16_at_append) simp_all
  moreover have "u16_at body (length a + 2) = Some (length name + 5)"
    using u16_at_append [of "length a + 2" "a @ put16 0" "length ?x" "?x @ after"] assms(2)
    by (simp add: b)
  moreover have "sni_name body (length a + 4) (length name + 5) = Some (Some (go_string name))"
    using sni_name_reads [OF assms(1,2), of body "a @ put16 0 @ put16 (length ?x)" after] by (simp add: b)
  moreover have "length a + 9 + length name \<le> length body" by (simp add: b)
  ultimately show ?case by (subst ext_loop.simps) (simp add: add.commute add.left_commute)
next
  case (Cons e before)
  obtain t x where e: "e = (t, x)" by (cases e)
  with Cons.prems have t: "t < 65536" "length x < 65536" "t = 0 \<longrightarrow> length x < 5"
    and b: "body = a @ put16 t @ put16 (length x) @ x @ concat (map extension before) @ sni_extension name @ after"
    by (simp_all add: extension_def [of "(t, x)"])
  have "u16_at body (length a) = Some t"
    unfolding b by (rule u16_at_append) (use t in simp_all)
  moreover have "u16_at body (length a + 2) = Some (length x)"
    using u16_at_append [of "length a + 2" "a @ put16 t" "length x"] t by (simp add: b)
  moreover have "ext_loop body (length body) (length (a @ extension e)) = Some (Some (go_string name))"
    by (rule Cons.IH) (use Cons.prems in simp_all)
  then have "ext_loop body (length body) (length a + 4 + length x) = Some (Some (go_string name))"
    by (simp add: e extension_def add.commute add.left_commute numeral_eq_Suc)
  moreover have "length a + 4 + length x \<le> length body" by (simp add: b)
  ultimately show ?case using t by (subst ext_loop.simps) auto
qed

lemma put24_value:
  assumes "n < 16777216"
  shows "65536 * unat (put24 n ! 0) + 256 * unat (put24 n ! 1) + unat (put24 n ! 2) = n"
proof -
  define q1 q2 where "q1 = n div 256" and "q2 = q1 div 256"
  have d: "n div 65536 = q2" by (simp add: q1_def q2_def div_mult2_eq [symmetric])
  have "q2 < 256" using assms by (simp add: d [symmetric] less_mult_imp_div_less)
  moreover have "256 * q2 + q1 mod 256 = q1" "256 * q1 + n mod 256 = n" by (simp_all add: q1_def q2_def)
  ultimately show ?thesis by (simp add: put24_def d q1_def [symmetric])
qed

lemma parseSNI_record:
  assumes "length version = 2" and "length body + 4 < 65536"
  shows "parseSNI (hello_record version body rest) = hello_body body"
proof -
  let ?b = "hello_record version body rest"
  define h where "h = [1] @ put24 (length body) @ body"
  have p24: "length (put24 (length body)) = 3" by (simp add: put24_def)
  have b: "?b = ([22] @ version) @ put16 (length body + 4) @ h @ rest"
    by (simp add: hello_record_def h_def)
  have len: "length h = length body + 4" by (simp add: put24_def h_def)
  have lb: "length ?b = 9 + length body + length rest"
    unfolding b using assms(1) len by simp
  have "byte_at ?b 0 = Some 22" by (simp add: b byte_at_def)
  moreover have "u16_at ?b 3 = Some (length body + 4)"
    unfolding b by (rule u16_at_append) (use assms in simp_all)
  moreover have "sub_slice ?b 5 (5 + length h) = Some h"
    using sub_slice_append [of 5 "([22] @ version) @ put16 (length body + 4)" "5 + length h" h rest] assms(1)
    by (simp add: b)
  then have "sub_slice ?b 5 (9 + length body) = Some h" by (simp add: len)
  moreover have "byte_at h 0 = Some 1"
    "byte_at h 1 = Some (unat (put24 (length body) ! 0))"
    "byte_at h 2 = Some (unat (put24 (length body) ! 1))"
    "byte_at h 3 = Some (unat (put24 (length body) ! 2))"
    by (simp_all add: byte_at_def put24_def h_def)
  moreover have "65536 * unat (put24 (length body) ! 0) + 256 * unat (put24 (length body) ! 1)
      + unat (put24 (length body) ! 2) = length body"
    using assms(2) by (intro put24_value) simp
  moreover have "sub_slice h 4 (length h) = Some body"
    using sub_slice_append [of 4 "[1] @ put24 (length body)" "length h" body "[]"] by (simp add: p24 len h_def [symmetric], simp add: h_def)
  ultimately show ?thesis
    by (simp add: parseSNI_def lb len)
qed

lemma parseSNI_hello:
  assumes "length fixed = 34" and "length version = 2" and "name \<noteq> []"
    and "length session < 256" and "length compression < 256"
    and "list_all (\<lambda>(t, x). t < 65536 \<and> length x < 65536 \<and> (t = 0 \<longrightarrow> length x < 5)) before"
    and "length (hello_bytes fixed session ciphers compression before name after) + 4 < 65536"
  shows "parseSNI (hello_record version (hello_bytes fixed session ciphers compression before name after) rest)
    = Some (Some (go_string name))"
proof -
  define exts where "exts = concat (map extension before) @ sni_extension name @ after"
  define body where "body = hello_bytes fixed session ciphers compression before name after"
  let ?s = "[word_of_nat (length session)] @ session"
  let ?c = "put16 (length ciphers) @ ciphers"
  let ?k = "[word_of_nat (length compression)] @ compression"
  have body: "body = fixed @ ?s @ ?c @ ?k @ put16 (length exts) @ exts"
    by (simp add: body_def hello_bytes_def exts_def)
  have len: "length body = 40 + length session + length ciphers + length compression + length exts"
    using assms(1) by (simp add: body)
  have small: "length body + 4 < 65536" using assms(7) by (simp add: body_def)
  have name: "length name + 5 < 65536" using small len by (simp add: exts_def sni_extension_def extension_def)
  have "byte_at body 34 = Some (length session)"
    using byte_at_append [of 34 fixed] assms(1,4) by (simp add: body)
  moreover have "u16_at body (35 + length session) = Some (length ciphers)"
    using u16_at_append [of "35 + length session" "fixed @ ?s" "length ciphers"] small len assms(1)
    by (simp add: body)
  moreover have "byte_at body (37 + length session + length ciphers) = Some (length compression)"
    using byte_at_append [of "37 + length session + length ciphers" "fixed @ ?s @ ?c"] assms(1,5)
    by (simp add: body)
  moreover have "u16_at body (38 + length session + length ciphers + length compression) = Some (length exts)"
    using u16_at_append [of "38 + length session + length ciphers + length compression" "fixed @ ?s @ ?c @ ?k"
        "length exts"] small len assms(1) by (simp add: body)
  moreover have "ext_loop body (length body) (40 + length session + length ciphers + length compression)
      = Some (Some (go_string name))"
  proof -
    let ?pre = "fixed @ ?s @ ?c @ ?k @ put16 (length exts)"
    have pre: "length ?pre = 40 + length session + length ciphers + length compression"
      using assms(1) by simp
    have "ext_loop body (length body) (length ?pre) = Some (Some (go_string name))"
      by (rule ext_loop_reads [OF assms(3) name assms(6)]) (simp add: body exts_def)
    then show ?thesis by (simp only: pre)
  qed
  ultimately have hello: "hello_body body = Some (Some (go_string name))"
    by (simp add: hello_body_def len Let_def add.commute add.left_commute numeral_eq_Suc)
  have "parseSNI (hello_record version body rest) = hello_body body"
    by (rule parseSNI_record) (use assms(2) small in simp_all)
  then show ?thesis by (simp add: hello body_def [symmetric])
qed

text \<open>C36: from every well-formed ClientHello record that names a host, whatever its session, its ciphers
  and its other extensions, and whatever follows the record, \<open>parseSNI\<close> reads that name.\<close>

theorem parseSNI_reads:
  assumes "length fixed = 34" and "length version = 2" and "name \<noteq> []"
    and "length session < 256" and "length compression < 256"
    and "list_all (\<lambda>(t, x). t < 65536 \<and> length x < 65536 \<and> (t = 0 \<longrightarrow> length x < 5)) before"
    and "length (hello_bytes fixed session ciphers compression before name after) + 4 < 65536"
  shows "parseSNI (hello_record version (hello_bytes fixed session ciphers compression before name after) rest)
    = Some (Some (go_string name))"
  by (rule parseSNI_hello [OF assms])

theorem parseSNI_reads_witness:
  "parseSNI (hello_record [3, 3] (hello_bytes (replicate 34 0) [7] [0x13, 0x01] [0] [(10, [0, 2, 0, 29])]
     [97, 46, 98] []) [1, 2]) = Some (Some (go_string [97, 46, 98]))"
proof -
  have "length (hello_bytes (replicate 34 0) [7] [0x13, 0x01] [0] [(10, [0, 2, 0, 29])] [97, 46, 98] []) + 4
      < 65536"
    by (simp add: hello_bytes_def extension_def sni_extension_def)
  then have "parseSNI (hello_record [3, 3] (hello_bytes (replicate 34 0) [7] [0x13, 0x01] [0] [(10, [0, 2, 0, 29])]
     [97, 46, 98] []) [1, 2]) = Some (Some (go_string [97, 46, 98]))"
    by (intro parseSNI_reads) simp_all
  then show ?thesis .
qed

section \<open>When a connection is intercepted\<close>

definition max_hello :: "policy \<Rightarrow> int" where
  "max_hello p = (if MaxHello p \<le> 0 then 65536 else MaxHello p)"

lemma Classify_decides:
  "\<exists>r. Classify hello original port p = Some r
    \<and> (Decision r = MITM \<longleftrightarrow>
         port = 443 \<and> AllowDestination p \<noteq> [] \<and> int (length hello) \<le> max_hello p
         \<and> (\<exists>name. parseSNI hello = Some (Some name) \<and> NormalizeSNI name \<noteq> ''''
                \<and> enabled (map_of (AllowSNI p)) (NormalizeSNI name))
         \<and> (enabled (map_of (AllowDestination p)) (IP_String original)
            \<or> enabled (map_of (AllowDestination p)) ''*''))
    \<and> (Decision r = MITM \<longleftrightarrow> Reason r = AllowlistMatch)"
proof -
  obtain q where q: "parseSNI hello = Some q" using parseSNI_total by blast
  show ?thesis
    by (cases q) (auto simp: Classify_def q Let_def max_hello_def)
qed

text \<open>\<open>Classify\<close> always returns, and it decides for interception exactly when the port is 443, the
  hello is within its limit and names a host whose normalised form is not empty and is on the allowlist,
  and the destination (or every destination) is allowed. Every other connection is passed through.\<close>

theorem Classify_exact:
  "\<exists>r. Classify hello original port p = Some r
    \<and> (Decision r = MITM \<longleftrightarrow>
         port = 443 \<and> AllowDestination p \<noteq> [] \<and> int (length hello) \<le> max_hello p
         \<and> (\<exists>name. parseSNI hello = Some (Some name) \<and> NormalizeSNI name \<noteq> ''''
                \<and> enabled (map_of (AllowSNI p)) (NormalizeSNI name))
         \<and> (enabled (map_of (AllowDestination p)) (IP_String original)
            \<or> enabled (map_of (AllowDestination p)) ''*''))
    \<and> (Decision r = MITM \<longleftrightarrow> Reason r = AllowlistMatch)"
  by (rule Classify_decides)

lemma NormalizeSNI_plain: "list_all plain_char s \<Longrightarrow> NormalizeSNI s = TrimSuffix s ''.''"
  by (simp add: NormalizeSNI_def TrimSpace_plain ToLower_plain TrimSuffix_plain)

text \<open>The characters \<open>U+212A\<close> and \<open>U+0130\<close> are folded into the ASCII letters k and i.\<close>

lemma lower_into_ascii: "lower_rune 8490 = 107" "lower_rune 304 = 105"
  by (simp_all add: lower_rune_def lower_ranges_def)

end
