(* ===== verification/Mitm.thy ===== *)
theory Mitm
  imports Http Classifier
begin

text \<open>
  The request handler of the proxy, \<open>internal/proxy/mitm.go\<close>: \<open>handle\<close>, \<open>copyHeaders\<close>, \<open>requestClientIP\<close>,
  \<open>reportError\<close>, \<open>clearLastError\<close> and \<open>normalizeAllowlist\<close>.

  \<open>handle\<close> is a function of the server's limits, the request and the response writer; it returns them with
  the calls it made to the observer, in order, and the requests it sent upstream. The upstream
  (\<open>http.Transport\<close>), the rewriter and the gzip codec are fields of the record \<open>proxy\<close>. A rewriter may
  itself report errors, so its result carries its own observer calls. \<open>acquire\<close> is taken at its
  non-blocking outcome: a wait that ends in time is an earlier state with the bytes available, one that
  does not is a refusal (the waiting itself is in \<open>Budget\<close>).
\<close>

section \<open>Data\<close>

datatype event =
    TargetRequest
  | ResponseModified string
  | ResponsePassthrough string
  | RewriteUnsupported
  | RewriteFailed
  | GzipDecodeFailed
  | GzipEncodeFailed
  | UpstreamFailed
  | RewriteCandidate string nat bytes bytes string
  | LastError string

text \<open>No observer, one without the optional method \<open>SetLastError\<close>, one with it.\<close>

datatype observer_kind = NoObserver | Observing | ObservingErrors

record rewrite_metadata =
  m_Envelope :: string
  m_Locations :: nat
  m_Unsupported :: bool

record detailed =
  d_changed :: bytes
  d_meta :: rewrite_metadata
  d_failed :: bool
  d_events :: "event list"

record proxy =
  allow_sni :: "string \<Rightarrow> bool"
  transport :: "request \<Rightarrow> response option"
  rewrite :: "(bytes \<Rightarrow> bytes \<times> bool) option"
  rewriteDetailed :: "(bytes \<Rightarrow> detailed) option"
  observer :: observer_kind
  codec :: gzip_codec

definition wloc_path :: string where "wloc_path = ''/clls/wloc''"

definition emit :: "proxy \<Rightarrow> event \<Rightarrow> event list" where
  "emit p e = (if observer p = NoObserver then [] else [e])"

definition reportError :: "proxy \<Rightarrow> string \<Rightarrow> event list" where
  "reportError p msg = (if observer p = ObservingErrors then [LastError msg] else [])"

definition clearLastError :: "proxy \<Rightarrow> event list" where
  "clearLastError p = (if observer p = ObservingErrors then [LastError ''''] else [])"

definition requestClientIP :: "request \<Rightarrow> string" where
  "requestClientIP r =
     (case SplitHostPort (RemoteAddr r) of
        Some (host, _) \<Rightarrow> host
      | None \<Rightarrow> if ParseIP (RemoteAddr r) \<noteq> None then RemoteAddr r else '''')"

definition normalizeAllowlist :: "(string \<times> bool) list \<Rightarrow> string \<Rightarrow> bool" where
  "normalizeAllowlist hosts h \<longleftrightarrow> (\<exists>(host, enabled) \<in> set hosts. enabled \<and> NormalizeSNI host = h)"

section \<open>Copying the response headers\<close>

definition hop_by_hop :: "string list" where
  "hop_by_hop = [''connection'', ''keep-alive'', ''proxy-authenticate'', ''proxy-authorization'', ''te'',
     ''trailer'', ''transfer-encoding'', ''upgrade'']"

definition stale_when_rewritten :: "string \<Rightarrow> bool" where
  "stale_when_rewritten key \<longleftrightarrow> EqualFold key ''Content-Length'' \<or> EqualFold key ''Content-Encoding''
     \<or> EqualFold key ''ETag'' \<or> EqualFold key ''Content-MD5''"

fun add_values :: "string \<Rightarrow> string list \<Rightarrow> bool \<Rightarrow> header \<Rightarrow> header" where
  "add_values key [] rewritten h = h"
| "add_values key (v # vs) rewritten h =
     (if rewritten \<and> stale_when_rewritten key then add_values key vs rewritten h
      else add_values key vs rewritten (h_Add key v h))"

fun copy_loop :: "header \<Rightarrow> bool \<Rightarrow> header \<Rightarrow> header" where
  "copy_loop [] rewritten h = h"
| "copy_loop ((key, values) # rest) rewritten h =
     (if ToLower key \<in> set hop_by_hop then copy_loop rest rewritten h
      else copy_loop rest rewritten (add_values key values rewritten h))"

definition copyHeaders :: "response_writer \<Rightarrow> header \<Rightarrow> bool \<Rightarrow> string \<Rightarrow> response_writer" where
  "copyHeaders w headers rewritten outputEncoding =
     (let h = copy_loop headers rewritten (w_header w);
          h = (if rewritten \<and> outputEncoding \<noteq> '''' then h_Set ''Content-Encoding'' outputEncoding h else h)
      in w\<lparr>w_header := h\<rparr>)"

section \<open>Rewriting a body\<close>

record rewriting =
  body :: bytes
  rewritten :: bool
  outputEncoding :: string
  candidate :: "(string \<times> nat \<times> bytes \<times> bytes) option"

definition untouched :: "bytes \<Rightarrow> rewriting" where
  "untouched b = \<lparr>body = b, rewritten = False, outputEncoding = '''', candidate = None\<rparr>"

text \<open>The case of an empty \<open>Content-Encoding\<close>.\<close>

definition rewrite_plain :: "proxy \<Rightarrow> int \<Rightarrow> bytes \<Rightarrow> rewriting \<times> event list" where
  "rewrite_plain p lim b =
     (case rewriteDetailed p of
        Some f \<Rightarrow>
          let d = f b; changed = d_changed d in
          if \<not> d_failed d \<and> int (length changed) \<le> lim \<and> changed \<noteq> b
          then (\<lparr>body = changed, rewritten = True, outputEncoding = '''',
                  candidate = Some (m_Envelope (d_meta d), m_Locations (d_meta d), b, changed)\<rparr>, d_events d)
          else (untouched b, d_events d @
            (if observer p = NoObserver then []
             else if d_failed d then [if m_Unsupported (d_meta d) then RewriteUnsupported else RewriteFailed]
             else if changed \<noteq> b \<and> int (length changed) > lim
             then reportError p ''rewrite output exceeds body limit'' @ [RewriteFailed]
             else if changed = b then [RewriteUnsupported] else []))
      | None \<Rightarrow>
          (case rewrite p of
             None \<Rightarrow> (untouched b, [])
           | Some g \<Rightarrow>
               let (changed, ok) = g b in
               if ok then
                 (if changed = b then (untouched b, emit p RewriteUnsupported)
                  else if int (length changed) > lim
                  then (untouched b, reportError p ''rewrite output exceeds body limit'' @ emit p RewriteFailed)
                  else ((untouched changed)\<lparr>rewritten := True\<rparr>, []))
               else (untouched b, if observer p = NoObserver then []
                       else reportError p ''rewrite failed'' @ [RewriteFailed])))"

text \<open>The case \<open>gzip\<close>: the decoded body is rewritten and encoded again.\<close>

definition rewrite_gzip :: "proxy \<Rightarrow> int \<Rightarrow> bytes \<Rightarrow> rewriting \<times> event list" where
  "rewrite_gzip p lim b =
     (case gunzipBounded (codec p) b lim of
        None \<Rightarrow> (untouched b, if observer p = NoObserver then []
                   else reportError p ''gzip response decode failed'' @ [GzipDecodeFailed])
      | Some decoded \<Rightarrow>
          let encode_failed = (if observer p = NoObserver then []
                else reportError p ''gzip output exceeds body limit'' @ [GzipEncodeFailed]) in
          (case rewriteDetailed p of
             Some f \<Rightarrow>
               let d = f decoded; changed = d_changed d in
               if \<not> d_failed d \<and> changed \<noteq> decoded then
                 (case gzipBounded (codec p) changed lim of
                    Some encoded \<Rightarrow>
                      (\<lparr>body = encoded, rewritten = True, outputEncoding = ''gzip'',
                         candidate = Some (m_Envelope (d_meta d), m_Locations (d_meta d), decoded, changed)\<rparr>,
                       d_events d)
                  | None \<Rightarrow> (untouched b, d_events d @ encode_failed))
               else (untouched b, d_events d @
                 (if observer p = NoObserver then []
                  else if d_failed d then [if m_Unsupported (d_meta d) then RewriteUnsupported else RewriteFailed]
                  else [RewriteUnsupported]))
           | None \<Rightarrow>
               (case rewrite p of
                  None \<Rightarrow> (untouched b, [])
                | Some g \<Rightarrow>
                    let (changed, ok) = g decoded in
                    if ok then
                      (if changed = decoded then (untouched b, emit p RewriteUnsupported)
                       else (case gzipBounded (codec p) changed lim of
                           Some encoded \<Rightarrow>
                             ((untouched encoded)\<lparr>rewritten := True, outputEncoding := ''gzip''\<rparr>, [])
                         | None \<Rightarrow> (untouched b, encode_failed)))
                    else (untouched b, if observer p = NoObserver then []
                            else reportError p ''rewrite failed'' @ [RewriteFailed]))))"

definition rewrite_body :: "proxy \<Rightarrow> request \<Rightarrow> response \<Rightarrow> int \<Rightarrow> bytes \<Rightarrow> rewriting \<times> event list" where
  "rewrite_body p r resp lim b =
     (if (rewrite p \<noteq> None \<or> rewriteDetailed p \<noteq> None) \<and> Path r = wloc_path then
        (let encoding = ToLower (TrimSpace (h_Get ''Content-Encoding'' (RespHeader resp))) in
         if encoding = '''' then rewrite_plain p lim b
         else if encoding = ''gzip'' then rewrite_gzip p lim b
         else (untouched b, emit p RewriteUnsupported))
      else (untouched b, []))"

section \<open>Answering the client\<close>

definition StatusServiceUnavailable :: nat where "StatusServiceUnavailable = 503"
definition StatusMisdirectedRequest :: nat where "StatusMisdirectedRequest = 421"
definition StatusBadGateway :: nat where "StatusBadGateway = 502"

definition start_stream :: "response \<Rightarrow> response_writer \<Rightarrow> response_writer" where
  "start_stream resp w =
     (let w = copyHeaders w (RespHeader resp) False '''';
          w = w\<lparr>w_header := h_Del ''Content-Length'' (w_header w)\<rparr>
      in WriteHeader (StatusCode resp) w)"

definition passthrough_event :: "proxy \<Rightarrow> request \<Rightarrow> response \<Rightarrow> event list" where
  "passthrough_event p r resp =
     (if Path r = wloc_path then emit p (ResponsePassthrough (h_Get ''Content-Encoding'' (RespHeader resp))) else [])"

text \<open>The body is over the limit: what was read is a probe, and the rest is streamed after it.\<close>

definition stream_over_limit ::
  "proxy \<Rightarrow> request \<Rightarrow> response \<Rightarrow> bytes \<Rightarrow> stream \<Rightarrow> response_writer \<Rightarrow> response_writer \<times> event list"
where
  "stream_over_limit p r resp probe rest w =
     (let (w, _, ok) = Write probe (start_stream resp w);
          (w, ok) = (if ok then Copy rest w else (w, False))
      in (w, (if ok then [] else emit p UpstreamFailed @ reportError p ''upstream stream failed'')
             @ passthrough_event p r resp))"

text \<open>The second streaming branch, for a complete body longer than the limit.\<close>

definition stream_long ::
  "proxy \<Rightarrow> request \<Rightarrow> response \<Rightarrow> bytes \<Rightarrow> stream \<Rightarrow> response_writer \<Rightarrow> response_writer \<times> event list"
where
  "stream_long p r resp b rest w =
     (let (w, _, _) = Write b (start_stream resp w);
          (w, ok) = Copy rest w
      in (w, (if ok then [] else emit p UpstreamFailed @ reportError p ''upstream stream failed'')
             @ passthrough_event p r resp))"

definition deliver ::
  "proxy \<Rightarrow> request \<Rightarrow> response \<Rightarrow> int \<Rightarrow> bytes \<Rightarrow> response_writer \<Rightarrow> response_writer \<times> event list"
where
  "deliver p r resp lim b w =
     (let (rw, events) = rewrite_body p r resp lim b;
          w = copyHeaders w (RespHeader resp) (rewritten rw) (outputEncoding rw);
          w = w\<lparr>w_header := h_Set ''Content-Length'' (Itoa (int (length (body rw)))) (w_header w)\<rparr>;
          (w, written, ok) = Write (body rw) (WriteHeader (StatusCode resp) w)
      in (w, events @
            (if observer p \<noteq> NoObserver \<and> Path r = wloc_path then
               (if rewritten rw \<and> ok \<and> written = length (body rw)
                then clearLastError p
                     @ (case candidate rw of
                          Some (envelope, locations, input, output) \<Rightarrow>
                            [RewriteCandidate envelope locations input output (outputEncoding rw)]
                        | None \<Rightarrow> [])
                     @ [ResponseModified (requestClientIP r)]
                else [ResponsePassthrough (h_Get ''Content-Encoding'' (RespHeader resp))])
             else [])))"

definition answer ::
  "proxy \<Rightarrow> request \<Rightarrow> response \<Rightarrow> int \<Rightarrow> response_writer \<Rightarrow> response_writer \<times> event list"
where
  "answer p r resp lim w =
     (case readBounded read_stream lim (RespBody resp) of
        (OverLimit probe, rest) \<Rightarrow> stream_over_limit p r resp probe rest w
      | (Failed _, _) \<Rightarrow>
          (http_Error ''upstream read failed'' StatusBadGateway w,
           emit p UpstreamFailed @ reportError p ''upstream read failed'')
      | (Complete b, rest) \<Rightarrow>
          if int (length b) > lim then stream_long p r resp b rest w else deliver p r resp lim b w)"

section \<open>The handler\<close>

definition upstream_request :: "request \<Rightarrow> request" where
  "upstream_request r =
     r\<lparr>Scheme := ''https'', URLHost := Host r, RequestURI := '''',
       ReqHeader := h_Del ''Proxy-Connection'' (ReqHeader r)\<rparr>"

definition host_only :: "string \<Rightarrow> string" where
  "host_only h = hd (split_on CHR '':'' h)"

text \<open>The part of \<open>handle\<close> that runs while the slot and the reservation are held.\<close>

definition serve ::
  "proxy \<Rightarrow> request \<Rightarrow> int \<Rightarrow> response_writer \<Rightarrow> response_writer \<times> event list \<times> request list"
where
  "serve p r lim w =
     (case TLS r of
        None \<Rightarrow> (http_Error ''SNI not allowed'' StatusMisdirectedRequest w, [], [])
      | Some server_name \<Rightarrow>
          if \<not> allow_sni p (NormalizeSNI server_name)
          then (http_Error ''SNI not allowed'' StatusMisdirectedRequest w, [], [])
          else let ev0 = (if Path r = wloc_path then emit p TargetRequest else []) in
            if Host r = '''' \<or> NormalizeSNI (host_only (Host r)) \<noteq> NormalizeSNI server_name
            then (http_Error ''host/SNI mismatch'' StatusMisdirectedRequest w, ev0, [])
            else let r = upstream_request r in
              (case transport p r of
                 None \<Rightarrow>
                   (http_Error ''upstream unavailable'' StatusBadGateway w,
                    ev0 @ emit p UpstreamFailed @ reportError p ''upstream unavailable'', [r])
               | Some resp \<Rightarrow>
                   let (w, ev) = answer p r resp lim w in (w, ev0 @ ev, [r])))"

record handled =
  h_server :: server
  h_writer :: response_writer
  h_events :: "event list"
  h_sent :: "request list"

definition handle :: "proxy \<Rightarrow> request \<Rightarrow> server \<Rightarrow> response_writer \<Rightarrow> handled" where
  "handle p r s w =
     (case try_send (workSlots s) of
        None \<Rightarrow>
          \<lparr>h_server = s, h_writer = http_Error ''proxy busy'' StatusServiceUnavailable w,
           h_events = [], h_sent = []\<rparr>
      | Some c \<Rightarrow>
          let (s, budget) = getBudget (s\<lparr>workSlots := c\<rparr>);
              lim = (if bodyLimit s \<le> 0 then maxProxyBody else bodyLimit s);
              leave = (\<lambda>s. s\<lparr>workSlots := receive (workSlots s)\<rparr>)
          in case bufferReservation lim of
            None \<Rightarrow>
              \<lparr>h_server = leave s,
               h_writer = http_Error ''invalid proxy buffer limit'' StatusServiceUnavailable w,
               h_events = reportError p ''invalid proxy buffer limit'', h_sent = []\<rparr>
          | Some reservation \<Rightarrow>
              (case try_acquire reservation budget of
                 None \<Rightarrow>
                   \<lparr>h_server = leave s,
                    h_writer = http_Error ''proxy buffer budget exhausted'' StatusServiceUnavailable w,
                    h_events = reportError p ''proxy buffer budget exhausted'', h_sent = []\<rparr>
               | Some b \<Rightarrow>
                   let (w, ev, sent) = serve p r lim w;
                       s = s\<lparr>byte_budget := Some (release reservation b)\<rparr>
                   in \<lparr>h_server = leave s, h_writer = w, h_events = ev, h_sent = sent\<rparr>))"

section \<open>Resources\<close>

lemma getBudget_keeps:
  "getBudget s = (s', b) \<Longrightarrow> workSlots s' = workSlots s \<and> connSlots s' = connSlots s
     \<and> byte_budget s' = Some b \<and> 0 < bodyLimit s'"
  by (auto simp: getBudget_def Let_def maxProxyBody_def split: option.splits if_splits)

definition settled :: "server \<Rightarrow> bool" where
  "settled s \<longleftrightarrow> 0 < bodyLimit s \<and> (\<exists>b. byte_budget s = Some b \<and> budget_ok b)
     \<and> in_use (workSlots s) \<le> slot_cap (workSlots s)"

lemma getBudget_settled: "settled s \<Longrightarrow> getBudget s = (s, the (byte_budget s))"
  by (auto simp: settled_def getBudget_def)

lemma receive_send: "in_use c \<le> slot_cap c \<Longrightarrow> try_send c = Some c' \<Longrightarrow> receive c' = c"
  using slots.bracket [of c c'] by simp

lemma handle_restores:
  assumes "settled s"
  shows "h_server (handle p r s w) = s"
proof (cases "try_send (workSlots s)")
  case None
  then show ?thesis by (simp add: handle_def)
next
  case (Some c)
  obtain b where b: "byte_budget s = Some b" "budget_ok b" using assms by (auto simp: settled_def)
  have c: "receive c = workSlots s" using receive_send [OF _ Some] assms by (simp add: settled_def)
  have g: "getBudget (s\<lparr>workSlots := c\<rparr>) = (s\<lparr>workSlots := c\<rparr>, b)"
    using assms b by (auto simp: settled_def getBudget_def)
  have undo: "release n b' = b" if "try_acquire n b = Some b'" for n b'
    by (rule budget.bracket [OF b(2) that])
  show ?thesis
    using b by (auto simp: handle_def Some g c undo Let_def split: option.splits prod.splits)
qed

text \<open>C6: every path through the handler gives back what it took: after a request, whatever happened to
  it, the work slots and the byte budget are exactly what they were before.\<close>

theorem handle_releases:
  assumes "settled s"
  shows "h_server (handle p r s w) = s"
  by (rule handle_restores [OF assms])

section \<open>What a rewrite may be\<close>

text \<open>The rewriter in force: what it makes of a decoded body, \<open>None\<close> when it refuses.\<close>

definition rewriter :: "proxy \<Rightarrow> bytes \<Rightarrow> bytes option" where
  "rewriter p b =
     (case rewriteDetailed p of
        Some f \<Rightarrow> if d_failed (f b) then None else Some (d_changed (f b))
      | None \<Rightarrow> (case rewrite p of
          None \<Rightarrow> None | Some g \<Rightarrow> if snd (g b) then Some (fst (g b)) else None))"

definition response_encoding :: "response \<Rightarrow> string" where
  "response_encoding resp = ToLower (TrimSpace (h_Get ''Content-Encoding'' (RespHeader resp)))"

definition legal_rewrite :: "proxy \<Rightarrow> response \<Rightarrow> int \<Rightarrow> bytes \<Rightarrow> rewriting \<Rightarrow> bool" where
  "legal_rewrite p resp lim b rw \<longleftrightarrow> rewritten rw \<and> int (length (body rw)) \<le> lim \<and>
     (if response_encoding resp = '''' then
        outputEncoding rw = '''' \<and> body rw \<noteq> b \<and> rewriter p b = Some (body rw)
      else response_encoding resp = ''gzip'' \<and> outputEncoding rw = ''gzip'' \<and>
        (\<exists>d c. gunzipBounded (codec p) b lim = Some d \<and> rewriter p d = Some c \<and> c \<noteq> d
               \<and> body rw = gz_all (codec p) c))"

lemma rewrite_plain_cases:
  assumes "rewrite_plain p lim b = (rw, ev)" and "response_encoding resp = ''''"
  shows "rw = untouched b \<or> legal_rewrite p resp lim b rw"
proof (cases "rewriteDetailed p")
  case None
  then show ?thesis
    using assms by (cases "rewrite p")
      (auto simp: rewrite_plain_def legal_rewrite_def rewriter_def untouched_def Let_def split: prod.splits if_splits)
next
  case (Some f)
  then show ?thesis
    using assms by (auto simp: rewrite_plain_def legal_rewrite_def rewriter_def Let_def split: if_splits)
qed

lemma gzip_Some: "gzipBounded z c lim = Some out \<Longrightarrow> out = gz_all z c \<and> int (length out) \<le> lim"
  by (auto simp: gzipBounded_eq split: if_splits)

lemma rewrite_gzip_cases:
  assumes "rewrite_gzip p lim b = (rw, ev)" and "response_encoding resp = ''gzip''"
  shows "rw = untouched b \<or> legal_rewrite p resp lim b rw"
proof (cases "gunzipBounded (codec p) b lim")
  case None
  then show ?thesis using assms by (simp add: rewrite_gzip_def)
next
  case (Some d)
  then show ?thesis
    using assms
    by (cases "rewriteDetailed p"; cases "rewrite p")
      (auto simp: rewrite_gzip_def legal_rewrite_def rewriter_def untouched_def Let_def
        split: prod.splits if_splits option.splits dest!: gzip_Some)
qed

lemma rewrite_body_cases:
  assumes "rewrite_body p r resp lim b = (rw, ev)"
  shows "rw = untouched b \<or> (Path r = wloc_path \<and> legal_rewrite p resp lim b rw)"
  using assms rewrite_plain_cases [of p lim b rw ev resp] rewrite_gzip_cases [of p lim b rw ev resp]
  by (auto simp: rewrite_body_def response_encoding_def Let_def split: if_splits)

section \<open>Fail open\<close>

lemma deliver_all:
  assumes "deliver p r resp lim b w = (w', ev)" and "accepts w = None" and "w_status w = None" and "w_body w = []"
  shows "w_status w' = Some (StatusCode resp) \<and>
    (w_body w' = b \<or> (Path r = wloc_path \<and> (\<exists>rw. legal_rewrite p resp lim b rw \<and> w_body w' = body rw)))"
proof -
  obtain rw ev' where rw: "rewrite_body p r resp lim b = (rw, ev')" by (metis surj_pair)
  have "w_body w' = body rw \<and> w_status w' = Some (StatusCode resp)"
    using assms by (auto simp: deliver_def rw Let_def copyHeaders_def WriteHeader_def Write_def split: prod.splits)
  with rewrite_body_cases [OF rw] show ?thesis by (auto simp: untouched_def)
qed

lemma stream_over_limit_all:
  assumes "stream_over_limit p r resp probe rest w = (w', ev)"
    and "accepts w = None" and "w_status w = None" and "w_body w = []"
  shows "w_status w' = Some (StatusCode resp) \<and> w_body w' = probe @ fst (content rest)"
  using assms
  by (auto simp: stream_over_limit_def start_stream_def copyHeaders_def WriteHeader_def Write_def Copy_def Let_def
      split: prod.splits)

lemma answer_all:
  assumes "answer p r resp lim (new_writer None) = (w, ev)"
    and "lively (RespBody resp)" and "content (RespBody resp) = (b, EOF)" and "0 \<le> lim" and "lim < maxInt64"
  shows "w_status w = Some (StatusCode resp) \<and>
    (w_body w = b \<or> (Path r = wloc_path \<and> (\<exists>rw. legal_rewrite p resp lim b rw \<and> w_body w = body rw)))"
proof (cases "int (length b) \<le> lim")
  case True
  then obtain s' where "readBounded read_stream lim (RespBody resp) = (Complete b, s')"
    using readBounded_lively [OF assms(2-5)] by auto
  with True assms(1) have "deliver p r resp lim b (new_writer None) = (w, ev)"
    by (simp add: answer_def)
  then show ?thesis by (rule deliver_all) (simp_all add: new_writer_def)
next
  case False
  then obtain s' where r: "readBounded read_stream lim (RespBody resp) = (OverLimit (take (nat lim + 1) b), s')"
    "content s' = (drop (nat lim + 1) b, EOF)"
    using readBounded_lively [OF assms(2-5)] by auto
  with assms(1) have "stream_over_limit p r resp (take (nat lim + 1) b) s' (new_writer None) = (w, ev)"
    by (simp add: answer_def)
  then have "w_status w = Some (StatusCode resp) \<and> w_body w = take (nat lim + 1) b @ fst (content s')"
    by (rule stream_over_limit_all) (simp_all add: new_writer_def)
  then show ?thesis using r(2) by simp
qed

lemma handle_cases:
  assumes "settled s"
  shows "(h_sent (handle p r s w) = []
      \<and> (\<exists>msg. h_writer (handle p r s w) = http_Error msg StatusServiceUnavailable w))
    \<or> (serve p r (bodyLimit s) w =
         (h_writer (handle p r s w), h_events (handle p r s w), h_sent (handle p r s w))
       \<and> 0 \<le> bodyLimit s \<and> bodyLimit s < maxInt64)"
proof (cases "try_send (workSlots s)")
  case None
  then show ?thesis by (auto simp: handle_def)
next
  case (Some c)
  obtain b where b: "byte_budget s = Some b" "0 < bodyLimit s" using assms by (auto simp: settled_def)
  have g: "getBudget (s\<lparr>workSlots := c\<rparr>) = (s\<lparr>workSlots := c\<rparr>, b)"
    using b by (auto simp: getBudget_def)
  have lim: "bodyLimit s < maxInt64" if "bufferReservation (bodyLimit s) = Some n" for n
    using that by (auto simp: bufferReservation_def maxInt64_def split: if_splits)
  show ?thesis
    using b lim by (auto simp: handle_def Some g Let_def split: option.splits prod.splits)
qed

lemma serve_sent:
  "serve p r lim w = (w', ev, sent) \<Longrightarrow> q \<in> set sent \<Longrightarrow>
   sent = [q] \<and> q = upstream_request r \<and> Host r \<noteq> '''' \<and> (\<exists>name. TLS r = Some name
     \<and> allow_sni p (NormalizeSNI name) \<and> NormalizeSNI (host_only (Host r)) = NormalizeSNI name)"
  by (auto simp: serve_def Let_def split: option.splits if_splits prod.splits)

text \<open>C7: nothing goes upstream that policy does not allow. A request is forwarded at most once, only over
  a TLS connection whose server name is on the allowlist and names the same host as the request, with
  the scheme set to https, the target set to that host and no \<open>Proxy-Connection\<close> header.\<close>

theorem handle_forwards_only_allowed:
  assumes "settled s" and "q \<in> set (h_sent (handle p r s w))"
  shows "h_sent (handle p r s w) = [q] \<and> Scheme q = ''https'' \<and> URLHost q = Host r \<and> Path q = Path r
    \<and> h_values ''Proxy-Connection'' (ReqHeader q) = []
    \<and> (\<exists>name. TLS r = Some name \<and> allow_sni p (NormalizeSNI name)
              \<and> NormalizeSNI (host_only (Host r)) = NormalizeSNI name)"
proof -
  have "serve p r (bodyLimit s) w =
      (h_writer (handle p r s w), h_events (handle p r s w), h_sent (handle p r s w))"
    using handle_cases [OF assms(1), of p r w] assms(2) by auto
  from serve_sent [OF this assms(2)] show ?thesis
    by (auto simp: upstream_request_def header_simps)
qed

text \<open>C5: the proxy fails open. Whenever a request was forwarded and the upstream answered with a complete
  body, the client gets the upstream's status and either exactly the upstream's bytes, or, on the WLoc
  path only, a rewrite of them that fits the limit: of the body itself when it is not encoded, of the
  unpacked body, packed again, when it is gzip. A body over the limit, an unknown encoding, a failing
  rewriter or a failing codec always come out as the exact upstream bytes.\<close>

theorem handle_fails_open:
  assumes "settled s" and "h_sent (handle p r s (new_writer None)) = [q]" and "transport p q = Some resp"
    and "lively (RespBody resp)" and "content (RespBody resp) = (b, EOF)"
  shows "w_status (h_writer (handle p r s (new_writer None))) = Some (StatusCode resp)
    \<and> (w_body (h_writer (handle p r s (new_writer None))) = b
       \<or> (Path r = wloc_path \<and> (\<exists>rw. legal_rewrite p resp (bodyLimit s) b rw
             \<and> w_body (h_writer (handle p r s (new_writer None))) = body rw)))"
proof -
  let ?h = "handle p r s (new_writer None)"
  have sv: "serve p r (bodyLimit s) (new_writer None) = (h_writer ?h, h_events ?h, h_sent ?h)"
    and lim: "0 \<le> bodyLimit s" "bodyLimit s < maxInt64"
    using handle_cases [OF assms(1), of p r "new_writer None"] assms(2) by auto
  have "q = upstream_request r" using serve_sent [OF sv] assms(2) by auto
  then have "Path q = Path r" by (simp add: upstream_request_def)
  moreover obtain ev where "answer p q resp (bodyLimit s) (new_writer None) = (h_writer ?h, ev)"
    using sv assms(2,3) \<open>q = upstream_request r\<close>
    by (auto simp: serve_def Let_def split: option.splits if_splits prod.splits)
  from answer_all [OF this assms(4,5) lim] have
    "w_status (h_writer ?h) = Some (StatusCode resp) \<and>
     (w_body (h_writer ?h) = b \<or> (Path q = wloc_path \<and>
        (\<exists>rw. legal_rewrite p resp (bodyLimit s) b rw \<and> w_body (h_writer ?h) = body rw)))" .
  ultimately show ?thesis by simp
qed

section \<open>Headers of the answer\<close>

lemma hop_by_hop_lower: "k \<in> set hop_by_hop \<Longrightarrow> is_ascii k \<and> map ascii_lower k = k"
  by (auto simp: hop_by_hop_def is_ascii_def ascii_lower_def)

lemma hop_by_hop_key: "k \<in> set hop_by_hop \<Longrightarrow> CanonicalKey key = CanonicalKey k \<Longrightarrow> ToLower key = k"
  using hop_by_hop_lower [of k] canonical_EqualFold [of key k] ToLower_fold [of k key]
  by (simp add: EqualFold_def)

lemma h_values_add_values:
  "CanonicalKey key \<noteq> CanonicalKey k \<or> (rw \<and> stale_when_rewritten key) \<Longrightarrow>
   h_values k (add_values key vs rw h) = h_values k h"
  by (induction key vs rw h rule: add_values.induct) (auto simp: header_simps)

lemma h_values_copy_loop:
  "(\<And>key. CanonicalKey key = CanonicalKey k \<Longrightarrow> ToLower key \<in> set hop_by_hop \<or> (rw \<and> stale_when_rewritten key)) \<Longrightarrow>
   h_values k (copy_loop hs rw h) = h_values k h"
proof (induction hs rw h rule: copy_loop.induct)
  case (2 key vs rest rw h)
  show ?case
  proof (cases "ToLower key \<in> set hop_by_hop")
    case True
    then show ?thesis using "2.IH"(1) [OF True "2.prems"] by simp
  next
    case False
    then have "CanonicalKey key \<noteq> CanonicalKey k \<or> (rw \<and> stale_when_rewritten key)"
      using "2.prems" by blast
    then show ?thesis using "2.IH"(2) [OF False "2.prems"] False by (simp add: h_values_add_values)
  qed
qed simp

definition own_headers :: "string list" where
  "own_headers = [''Content-Length'', ''Content-Encoding'', ''Content-Type'', ''X-Content-Type-Options'']"

lemma hop_by_hop_own: "k \<in> set hop_by_hop \<Longrightarrow> o' \<in> set own_headers \<Longrightarrow> CanonicalKey k \<noteq> CanonicalKey o'"
proof
  assume k: "k \<in> set hop_by_hop" and o': "o' \<in> set own_headers" and eq: "CanonicalKey k = CanonicalKey o'"
  have "map ascii_lower k = map ascii_lower o'"
    using canonical_EqualFold [OF eq] by (simp add: EqualFold_def)
  then have "length k = length o'" by (metis length_map)
  with k o' show False by (auto simp: hop_by_hop_def own_headers_def)
qed

lemma hop_by_hop_untouched:
  assumes "k \<in> set hop_by_hop" and "h_values k (w_header w) = []"
  shows "h_values k (w_header (copyHeaders w hs rw enc)) = []"
    and "h_values k (h_Set ''Content-Length'' v h) = h_values k h"
    and "h_values k (h_Del ''Content-Length'' h) = h_values k h"
    and "h_values k (w_header (http_Error msg code w)) = []"
proof -
  have own: "CanonicalKey k \<noteq> CanonicalKey o'" if "o' \<in> set own_headers" for o'
    by (rule hop_by_hop_own [OF assms(1) that])
  have "h_values k (copy_loop hs rw (w_header w)) = h_values k (w_header w)" for rw
    by (rule h_values_copy_loop) (use hop_by_hop_key [OF assms(1)] assms(1) in auto)
  then show "h_values k (w_header (copyHeaders w hs rw enc)) = []"
    using assms(2) own [of "''Content-Encoding''"] by (simp add: copyHeaders_def Let_def header_simps own_headers_def)
  show "h_values k (h_Set ''Content-Length'' v h) = h_values k h"
    and "h_values k (h_Del ''Content-Length'' h) = h_values k h"
    using own [of "''Content-Length''"] by (simp_all add: header_simps own_headers_def)
  show "h_values k (w_header (http_Error msg code w)) = []"
    using assms(2) own [of "''Content-Type''"] own [of "''X-Content-Type-Options''"]
    by (simp add: http_Error_def keep_simps header_simps own_headers_def)
qed

lemma deliver_header:
  "w_header (fst (deliver p r resp lim b w)) =
   (let rw = fst (rewrite_body p r resp lim b)
    in h_Set ''Content-Length'' (Itoa (int (length (body rw))))
         (w_header (copyHeaders w (RespHeader resp) (rewritten rw) (outputEncoding rw))))"
  by (simp add: deliver_def Let_def keep_simps case_prod_beta)
lemma answer_hop_by_hop:
  assumes "k \<in> set hop_by_hop" and "h_values k (w_header w) = []"
  shows "h_values k (w_header (fst (answer p r resp lim w))) = []"
  using assms hop_by_hop_untouched [OF assms]
  by (auto simp: answer_def stream_over_limit_def stream_long_def start_stream_def deliver_header keep_simps
      case_prod_beta Let_def split: body_read.splits prod.splits)

text \<open>no hop-by-hop header ever reaches the client, on any path through the handler: connection
  management between the proxy and the upstream stays between them.\<close>

theorem no_hop_by_hop:
  assumes "settled s" and "k \<in> set hop_by_hop"
  shows "h_values k (w_header (h_writer (handle p r s (new_writer a)))) = []"
proof -
  have new: "h_values k (w_header (new_writer a)) = []" by (simp add: new_writer_def h_values_def)
  note err = hop_by_hop_untouched(4) [OF assms(2) new]
  have "h_values k (w_header (fst (serve p r lim (new_writer a)))) = []" for lim
    using err answer_hop_by_hop [OF assms(2) new]
    by (simp add: serve_def Let_def case_prod_beta split: option.splits)
  then show ?thesis
    using handle_cases [OF assms(1), of p r "new_writer a"] err by (metis fst_conv)
qed

lemma canonical_length: "CanonicalKey s = CanonicalKey t \<Longrightarrow> length s = length t"
  using canonical_EqualFold [of s t] map_eq_imp_length_eq by (auto simp: EqualFold_def)

lemma canonical_distinct: "length s \<noteq> length t \<Longrightarrow> CanonicalKey s \<noteq> CanonicalKey t"
  using canonical_length by blast

text \<open>a rewritten answer carries no stale metadata. Its \<open>Content-Length\<close> is the length of the new body,
  its \<open>Content-Encoding\<close> is the encoding of the new body, and the checksums of the old body are gone.\<close>

theorem rewritten_headers:
  assumes "rewrite_body p r resp lim b = (rw, ev)" and "rewritten rw"
    and "h = w_header (fst (deliver p r resp lim b (new_writer a)))"
  shows "h_values ''Content-Length'' h = [Itoa (int (length (body rw)))]
    \<and> h_values ''Content-Encoding'' h = (if outputEncoding rw = '''' then [] else [outputEncoding rw])
    \<and> h_values ''ETag'' h = [] \<and> h_values ''Content-MD5'' h = []"
proof -
  let ?hs = "copy_loop (RespHeader resp) True []"
  have stale: "h_values k ?hs = []" if "stale_when_rewritten k" for k
  proof -
    have "stale_when_rewritten key" if "CanonicalKey key = CanonicalKey k" for key
      using \<open>stale_when_rewritten k\<close> canonical_EqualFold [OF that] by (auto simp: stale_when_rewritten_def EqualFold_def)
    then have "h_values k ?hs = h_values k []" by (intro h_values_copy_loop) auto
    then show ?thesis by (simp add: h_values_def)
  qed
  have h: "h = h_Set ''Content-Length'' (Itoa (int (length (body rw))))
      (if outputEncoding rw = '''' then ?hs else h_Set ''Content-Encoding'' (outputEncoding rw) ?hs)"
    using assms by (simp add: deliver_header Let_def copyHeaders_def new_writer_def)
  have "stale_when_rewritten ''Content-Encoding''" "stale_when_rewritten ''ETag''" "stale_when_rewritten ''Content-MD5''"
    by (simp_all add: stale_when_rewritten_def EqualFold_def)
  note stale [OF this(1)] stale [OF this(2)] stale [OF this(3)]
  then show ?thesis by (simp add: h header_simps canonical_distinct)
qed

section \<open>What the observer counts\<close>

text \<open>
  The Go interface \<open>Observer\<close> as a contract: each call counts what it names, and nothing else is counted.
\<close>

definition is_modified :: "event \<Rightarrow> bool" where
  "is_modified e \<longleftrightarrow> (case e of ResponseModified _ \<Rightarrow> True | _ \<Rightarrow> False)"

definition is_passthrough :: "event \<Rightarrow> bool" where
  "is_passthrough e \<longleftrightarrow> (case e of ResponsePassthrough _ \<Rightarrow> True | _ \<Rightarrow> False)"

locale observer_contract =
  fixes observe :: "event \<Rightarrow> 's \<Rightarrow> 's" and targets modified passed :: "'s \<Rightarrow> u64"
  assumes observe_targets: "targets (observe e s) = targets s + (if e = TargetRequest then 1 else 0)"
    and observe_modified: "modified (observe e s) = modified s + (if is_modified e then 1 else 0)"
    and observe_passed: "passed (observe e s) = passed s + (if is_passthrough e then 1 else 0)"
begin

lemma observe_all:
  "targets (fold observe es s) = targets s + of_nat (length (filter (\<lambda>e. e = TargetRequest) es))"
  "modified (fold observe es s) = modified s + of_nat (length (filter is_modified es))"
  "passed (fold observe es s) = passed s + of_nat (length (filter is_passthrough es))"
  by (induction es arbitrary: s)
    (simp_all add: observe_targets observe_modified observe_passed)

end

definition outcomes :: "event list \<Rightarrow> nat" where
  "outcomes es = length (filter is_modified es) + length (filter is_passthrough es)"

lemma outcomes_append [simp]: "outcomes (xs @ ys) = outcomes xs + outcomes ys"
  by (simp add: outcomes_def)

definition quiet :: "event list \<Rightarrow> bool" where
  "quiet es \<longleftrightarrow> list_all (\<lambda>e. \<not> is_modified e \<and> \<not> is_passthrough e \<and> e \<noteq> TargetRequest) es"

lemma quiet_append [simp]: "quiet (xs @ ys) \<longleftrightarrow> quiet xs \<and> quiet ys"
  by (simp add: quiet_def)

lemma quiet_events [simp]:
  "quiet []" "quiet (reportError p msg)" "quiet (clearLastError p)" "quiet [RewriteUnsupported]"
  "quiet [RewriteFailed]" "quiet [GzipDecodeFailed]" "quiet [GzipEncodeFailed]"
  "quiet [RewriteCandidate a n x y e]"
  "quiet (emit p UpstreamFailed)" "quiet (emit p RewriteUnsupported)" "quiet (emit p RewriteFailed)"
  by (simp_all add: quiet_def reportError_def clearLastError_def emit_def is_modified_def is_passthrough_def)

lemma quiet_outcomes: "quiet es \<Longrightarrow> outcomes es = 0"
  by (induction es) (auto simp: quiet_def outcomes_def)

text \<open>The rewriter's own calls to the observer are error reports, as \<open>runtimePolicy\<close> makes them.\<close>

definition quiet_rewriter :: "proxy \<Rightarrow> bool" where
  "quiet_rewriter p \<longleftrightarrow> (case rewriteDetailed p of None \<Rightarrow> True | Some f \<Rightarrow> (\<forall>b. quiet (d_events (f b))))"

lemma quiet_rewrite_body: "quiet_rewriter p \<Longrightarrow> quiet (snd (rewrite_body p r resp lim b))"
proof -
  assume q: "quiet_rewriter p"
  show ?thesis
  proof (cases "rewriteDetailed p")
    case None
    then show ?thesis
      by (simp add: rewrite_body_def rewrite_plain_def rewrite_gzip_def Let_def case_prod_beta split: option.split)
  next
    case (Some f)
    then have "quiet (d_events (f b))" for b using q by (simp add: quiet_rewriter_def)
    with Some show ?thesis
      by (simp add: rewrite_body_def rewrite_plain_def rewrite_gzip_def Let_def split: option.split)
  qed
qed

definition target_calls :: "event list \<Rightarrow> nat" where
  "target_calls es = length (filter (\<lambda>e. e = TargetRequest) es)"

lemma target_calls_append [simp]: "target_calls (xs @ ys) = target_calls xs + target_calls ys"
  by (simp add: target_calls_def)

lemma quiet_targets: "quiet es \<Longrightarrow> target_calls es = 0"
  by (induction es) (auto simp: quiet_def target_calls_def)

lemma outcome_one [simp]:
  "outcomes [ResponseModified ip] = 1" "outcomes [ResponsePassthrough e] = 1"
  "target_calls [ResponseModified ip] = 0" "target_calls [ResponsePassthrough e] = 0"
  by (simp_all add: outcomes_def is_modified_def is_passthrough_def target_calls_def)

definition counted :: "proxy \<Rightarrow> request \<Rightarrow> nat" where
  "counted p r = (if observer p \<noteq> NoObserver \<and> Path r = wloc_path then 1 else 0)"

lemma passthrough_counts:
  "outcomes (passthrough_event p r resp) = counted p r" "target_calls (passthrough_event p r resp) = 0"
  by (auto simp: passthrough_event_def counted_def emit_def outcomes_def target_calls_def is_modified_def
      is_passthrough_def)

lemma answer_counts:
  assumes "quiet_rewriter p"
    and "lively (RespBody resp)" and "content (RespBody resp) = (b, EOF)" and "0 \<le> lim" and "lim < maxInt64"
  shows "outcomes (snd (answer p r resp lim w)) = counted p r" "target_calls (snd (answer p r resp lim w)) = 0"
proof -
  have "quiet (snd (rewrite_body p r resp lim b))" by (rule quiet_rewrite_body [OF assms(1)])
  then have d: "outcomes (snd (deliver p r resp lim b w)) = counted p r"
    "target_calls (snd (deliver p r resp lim b w)) = 0"
    by (auto simp: deliver_def Let_def case_prod_beta quiet_outcomes quiet_targets counted_def split: option.splits)
  have s: "outcomes (snd (stream_over_limit p r resp c s w)) = counted p r"
    "target_calls (snd (stream_over_limit p r resp c s w)) = 0" for c s
    by (auto simp: stream_over_limit_def Let_def case_prod_beta quiet_outcomes quiet_targets passthrough_counts)
  show "outcomes (snd (answer p r resp lim w)) = counted p r" "target_calls (snd (answer p r resp lim w)) = 0"
    using readBounded_lively [OF assms(2-5)] d s by (auto simp: answer_def split: if_splits)
qed

lemma handle_outcomes:
  assumes "settled s" and "h_sent (handle p r s w) = [q]" and "transport p q = Some resp"
    and "lively (RespBody resp)" and "content (RespBody resp) = (b, EOF)"
    and "quiet_rewriter p"
  shows "outcomes (h_events (handle p r s w)) = counted p r
    \<and> target_calls (h_events (handle p r s w)) = counted p r"
proof -
  let ?h = "handle p r s w"
  have sv: "serve p r (bodyLimit s) w = (h_writer ?h, h_events ?h, h_sent ?h)"
    and lim: "0 \<le> bodyLimit s" "bodyLimit s < maxInt64"
    using handle_cases [OF assms(1), of p r w] assms(2) by auto
  have q: "q = upstream_request r" using serve_sent [OF sv] assms(2) by auto
  then have "counted p q = counted p r" by (simp add: upstream_request_def counted_def)
  moreover have "h_events ?h =
      (if Path r = wloc_path then emit p TargetRequest else []) @ snd (answer p q resp (bodyLimit s) w)"
    using sv assms(2,3) q by (auto simp: serve_def Let_def split: option.splits if_splits prod.splits)
  moreover have "outcomes (if Path r = wloc_path then emit p TargetRequest else []) = 0"
    "target_calls (if Path r = wloc_path then emit p TargetRequest else []) = counted p r"
    by (auto simp: emit_def counted_def outcomes_def target_calls_def is_modified_def is_passthrough_def)
  ultimately show ?thesis
    using answer_counts [OF assms(6,4,5) lim, of q w] by simp
qed

text \<open>every WLoc response is counted once. When a request was forwarded and answered, the observer has
  recorded one target request and exactly one outcome, modified or passed through, for the WLoc path,
  and neither for any other path.\<close>

theorem handle_counts:
  assumes "settled s" and "h_sent (handle p r s w) = [q]" and "transport p q = Some resp"
    and "lively (RespBody resp)" and "content (RespBody resp) = (b, EOF)"
    and "quiet_rewriter p"
  shows "outcomes (h_events (handle p r s w)) = counted p r
    \<and> target_calls (h_events (handle p r s w)) = counted p r"
  by (rule handle_outcomes [OF assms])

text \<open>the second streaming branch of the handler, for a complete body longer than the limit, is never
  taken: \<open>readBounded\<close> reports such a body as over the limit.\<close>

theorem long_branch_dead:
  "\<nexists>b rest. readBounded read_stream lim s = (Complete b, rest) \<and> int (length b) > lim"
proof
  assume "\<exists>b rest. readBounded read_stream lim s = (Complete b, rest) \<and> int (length b) > lim"
  then obtain b rest where "readBounded read_stream lim s = (Complete b, rest)" "int (length b) > lim" by blast
  with body.readBounded_spec [OF this(1)] show False by simp
qed

section \<open>A concrete request\<close>

definition sample_codec :: gzip_codec where
  "sample_codec = \<lparr>gz_write = \<lambda>b. [b], gz_close = \<lambda>b. [[0]], gz_reader = \<lambda>b. Some [(butlast b, None)]\<rparr>"

definition sample_response :: response where
  "sample_response = \<lparr>StatusCode = 200, RespHeader = [(''Etag'', [''x''])],
     RespBody = [([1, 2], None), ([3], Some EOF)]\<rparr>"

definition sample_proxy :: proxy where
  "sample_proxy = \<lparr>allow_sni = \<lambda>h. h = ''a.b'', transport = \<lambda>_. Some sample_response, rewrite = None,
     rewriteDetailed = Some (\<lambda>b. \<lparr>d_changed = rev b,
        d_meta = \<lparr>m_Envelope = ''bare'', m_Locations = 1, m_Unsupported = False\<rparr>,
        d_failed = False, d_events = []\<rparr>),
     observer = ObservingErrors, codec = sample_codec\<rparr>"

definition sample_request :: request where
  "sample_request = \<lparr>TLS = Some ''a.b.'', Host = ''a.b:443'', Path = wloc_path, RemoteAddr = ''10.0.0.2:5000'',
     Scheme = '''', URLHost = '''', RequestURI = wloc_path, ReqHeader = [(''Proxy-Connection'', [''close''])]\<rparr>"

lemma sample_names:
  "NormalizeSNI ''a.b.'' = ''a.b''" "NormalizeSNI (host_only ''a.b:443'') = ''a.b''"
  by (simp_all add: NormalizeSNI_plain plain_char_def TrimSuffix_def HasSuffix_def host_only_def)

lemma sample_settled: "settled new_limits"
  by (simp add: settled_def new_limits_def maxProxyBody_def newByteBudget_def budget_ok_def maxInt64_def
      make_slots_def)

lemma sample_sent: "h_sent (handle sample_proxy sample_request new_limits w) = [upstream_request sample_request]"
proof -
  have "bufferReservation maxProxyBody = Some 16777220"
    by (simp add: bufferReservation_def maxProxyBody_def maxInt64_def wrap64_def)
  moreover have "admissible 16777220 (newByteBudget (32 * maxProxyBody * 4))"
    by (simp add: admissible_def newByteBudget_def maxProxyBody_def)
  moreover have "snd (snd (serve sample_proxy sample_request lim w)) = [upstream_request sample_request]" for lim
    by (simp add: serve_def sample_proxy_def sample_request_def sample_names Let_def split: prod.splits)
  ultimately show ?thesis
    by (simp add: handle_def try_send_def new_limits_def make_slots_def getBudget_def Let_def case_prod_beta
       try_acquire_def newByteBudget_def maxProxyBody_def)
qed

lemma sample_upstream: "transport sample_proxy q = Some sample_response"
  "lively (RespBody sample_response)" "content (RespBody sample_response) = ([1, 2, 3], EOF)"
  by (simp_all add: sample_proxy_def sample_response_def lively_def)

theorem handle_releases_witness:
  "h_server (handle sample_proxy sample_request new_limits (new_writer None)) = new_limits"
  by (rule handle_releases [OF sample_settled])

theorem handle_forwards_only_allowed_witness:
  "Scheme (upstream_request sample_request) = ''https''"
  using handle_forwards_only_allowed [OF sample_settled, of "upstream_request sample_request" sample_proxy
      sample_request "new_writer None"]
  by (simp add: sample_sent)

theorem handle_fails_open_witness:
  "w_status (h_writer (handle sample_proxy sample_request new_limits (new_writer None))) = Some 200"
  using handle_fails_open [OF sample_settled sample_sent sample_upstream]
  by (simp add: sample_response_def)

theorem handle_counts_witness:
  "outcomes (h_events (handle sample_proxy sample_request new_limits (new_writer None))) = 1"
proof -
  have "quiet_rewriter sample_proxy" "counted sample_proxy sample_request = 1"
    by (simp_all add: quiet_rewriter_def sample_proxy_def counted_def sample_request_def)
  then show ?thesis
    using handle_counts [OF sample_settled sample_sent sample_upstream] by metis
qed

theorem no_hop_by_hop_witness:
  "h_values ''te'' (w_header (h_writer (handle sample_proxy sample_request new_limits (new_writer None)))) = []"
  by (rule no_hop_by_hop [OF sample_settled]) (simp add: hop_by_hop_def)

theorem rewritten_headers_witness:
  "h_values ''ETag'' (w_header (fst (deliver sample_proxy sample_request sample_response 9 [1, 2, 3] (new_writer None)))) = []"
proof -
  have "h_Get ''Content-Encoding'' (RespHeader sample_response) = ''''"
  proof -
    have "length (CanonicalKey ''Content-Encoding'') = 16"
      using arg_cong [OF CanonicalKey_fold, of length "''Content-Encoding''"] by simp
    then have "CanonicalKey ''Content-Encoding'' \<noteq> ''Etag''" by auto
    then show ?thesis by (simp add: h_Get_def h_values_def sample_response_def)
  qed
  then have "rewritten (fst (rewrite_body sample_proxy sample_request sample_response 9 [1, 2, 3]))"
    by (simp add: rewrite_body_def sample_proxy_def sample_request_def rewrite_plain_def TrimSpace_plain
        ToLower_plain Let_def)
  then show ?thesis
    using rewritten_headers [OF prod.collapse [symmetric] _ refl, of sample_proxy sample_request sample_response 9 "[1, 2, 3]"]
    by blast
qed

end
