(* ===== verification/Health.thy ===== *)
theory Health
  imports Mitm "HOL-Library.AList"
begin

text \<open>
  The health and activity state, \<open>internal/health/health.go\<close>: every \<open>Record*\<close> method, \<open>Snapshot\<close>,
  \<open>loadActivity\<close> and \<open>persistActivityLocked\<close>. \<open>State\<close> provides the interface \<open>observer_contract\<close> of the
  request handler.

  A Go \<open>map[string]T\<close> is an association list with distinct keys. The clock reading, the outcome of each
  file system call and the codecs of \<open>encoding/json\<close>, \<open>time\<close> and \<open>crypto/sha256\<close> are arguments.
\<close>

section \<open>State\<close>

type_synonym time = int

record metrics =
  TargetRequests :: u64
  ResponsesModified :: u64
  ResponsesPassthrough :: u64
  RewritesUnsupported :: u64
  RewritesFailed :: u64
  GzipDecodesFailed :: u64
  GzipEncodesFailed :: u64
  UpstreamsFailed :: u64
  LastRewriteTime :: "time option"
  LastEnvelope :: string
  LastContentEncoding :: string
  LastInputSHA256 :: string
  LastOutputSHA256 :: string
  LastLocationsModified :: nat
  LastModifiedByIP :: "(string \<times> time) list"
  LastModifiedByMAC :: "(string \<times> time) list"

record state =
  healthy :: bool
  enabled_flag :: bool
  bypass :: bool
  active :: u64
  lastError :: "string option"
  activityPath :: string
  macResolver :: "(string \<Rightarrow> string) option"
  metrics :: metrics

definition no_metrics :: metrics where
  "no_metrics = \<lparr>TargetRequests = 0, ResponsesModified = 0, ResponsesPassthrough = 0,
     RewritesUnsupported = 0, RewritesFailed = 0, GzipDecodesFailed = 0, GzipEncodesFailed = 0,
     UpstreamsFailed = 0, LastRewriteTime = None, LastEnvelope = '''', LastContentEncoding = '''',
     LastInputSHA256 = '''', LastOutputSHA256 = '''', LastLocationsModified = 0,
     LastModifiedByIP = [], LastModifiedByMAC = []\<rparr>"

definition new_state :: state where
  "new_state = \<lparr>healthy = False, enabled_flag = False, bypass = False, active = 0, lastError = None,
     activityPath = '''', macResolver = None, metrics = no_metrics\<rparr>"

definition SetHealthy :: "bool \<Rightarrow> state \<Rightarrow> state" where "SetHealthy v s = s\<lparr>healthy := v\<rparr>"
definition SetEnabled :: "bool \<Rightarrow> state \<Rightarrow> state" where "SetEnabled v s = s\<lparr>enabled_flag := v\<rparr>"
definition SetBypass :: "bool \<Rightarrow> state \<Rightarrow> state" where "SetBypass v s = s\<lparr>bypass := v\<rparr>"
definition SetLastError :: "string \<Rightarrow> state \<Rightarrow> state" where "SetLastError v s = s\<lparr>lastError := Some v\<rparr>"
definition SetMACResolver :: "(string \<Rightarrow> string) \<Rightarrow> state \<Rightarrow> state" where
  "SetMACResolver f s = s\<lparr>macResolver := Some f\<rparr>"
definition AddConnection :: "state \<Rightarrow> state" where "AddConnection s = s\<lparr>active := active s + 1\<rparr>"
definition DoneConnection :: "state \<Rightarrow> state" where "DoneConnection s = s\<lparr>active := active s - 1\<rparr>"

definition normalizeMAC :: "string \<Rightarrow> string" where
  "normalizeMAC raw =
     (case ParseMAC raw of None \<Rightarrow> '''' | Some mac \<Rightarrow> if length mac \<noteq> 6 then '''' else MAC_String mac)"

section \<open>The activity file\<close>

record persistedActivity =
  Version :: int
  ByIP :: "(string \<times> string) list"
  ByMAC :: "(string \<times> string) list"

text \<open>
  The library codecs: \<open>fmt_time\<close> and \<open>parse_time\<close> are the layout \<open>RFC3339Nano\<close>; \<open>enc\<close> is \<open>json.Marshal\<close>,
  \<open>dec\<close> and \<open>dec_legacy\<close> are \<open>json.Unmarshal\<close> into the two types of \<open>loadActivity\<close>.
\<close>

record codecs =
  fmt_time :: "time \<Rightarrow> string"
  parse_time :: "string \<Rightarrow> time option"
  enc :: "persistedActivity \<Rightarrow> bytes option"
  dec :: "bytes \<Rightarrow> persistedActivity option"
  dec_legacy :: "bytes \<Rightarrow> (string \<times> string) list option"
  sha_hex :: "bytes \<Rightarrow> string"

text \<open>The file system: the content of the activity file, and which of the next calls fail.\<close>

record disk =
  stored_file :: "bytes option"
  create_ok :: bool
  chmod_ok :: bool
  write_ok :: bool
  sync_ok :: bool
  close_ok :: bool
  rename_ok :: bool

fun load_ips :: "codecs \<Rightarrow> (string \<times> string) list \<Rightarrow> (string \<times> time) list \<Rightarrow> (string \<times> time) list" where
  "load_ips K [] al = al"
| "load_ips K ((rawIP, rawTime) # rest) al =
     (case (ParseIP rawIP, parse_time K rawTime) of
        (Some ip, Some t) \<Rightarrow> load_ips K rest (AList.update (IP_String ip) t al)
      | _ \<Rightarrow> load_ips K rest al)"

fun load_macs :: "codecs \<Rightarrow> (string \<times> string) list \<Rightarrow> (string \<times> time) list \<Rightarrow> (string \<times> time) list" where
  "load_macs K [] al = al"
| "load_macs K ((rawMAC, rawTime) # rest) al =
     (let mac = normalizeMAC rawMAC in
      case parse_time K rawTime of
        Some t \<Rightarrow> load_macs K rest (if mac \<noteq> '''' then AList.update mac t al else al)
      | None \<Rightarrow> load_macs K rest al)"

definition stored_activity :: "codecs \<Rightarrow> bytes \<Rightarrow> persistedActivity option" where
  "stored_activity K b =
     (case dec K b of
        Some stored \<Rightarrow>
          if Version stored = 0
          then map_option (\<lambda>legacy. \<lparr>Version = 1, ByIP = legacy, ByMAC = []\<rparr>) (dec_legacy K b)
          else Some stored
      | None \<Rightarrow> map_option (\<lambda>legacy. \<lparr>Version = 1, ByIP = legacy, ByMAC = []\<rparr>) (dec_legacy K b))"

definition loadActivity :: "codecs \<Rightarrow> disk \<Rightarrow> state \<Rightarrow> state" where
  "loadActivity K d s =
     (if activityPath s = '''' then s
      else case stored_file d of
        None \<Rightarrow> s
      | Some b \<Rightarrow>
          if length b > 65536 then s
          else case stored_activity K b of
            None \<Rightarrow> s
          | Some stored \<Rightarrow>
              s\<lparr>metrics := (metrics s)
                 \<lparr>LastModifiedByIP := load_ips K (ByIP stored) (LastModifiedByIP (metrics s)),
                  LastModifiedByMAC := load_macs K (ByMAC stored) (LastModifiedByMAC (metrics s))\<rparr>\<rparr>)"

definition NewWithActivityFile :: "codecs \<Rightarrow> disk \<Rightarrow> string \<Rightarrow> state" where
  "NewWithActivityFile K d path = loadActivity K d (new_state\<lparr>activityPath := path\<rparr>)"

definition activity_record :: "codecs \<Rightarrow> metrics \<Rightarrow> persistedActivity" where
  "activity_record K m =
     \<lparr>Version = 2, ByIP = map (map_prod id (fmt_time K)) (LastModifiedByIP m),
      ByMAC = map (map_prod id (fmt_time K)) (LastModifiedByMAC m)\<rparr>"

definition persistActivity :: "codecs \<Rightarrow> state \<Rightarrow> disk \<Rightarrow> disk" where
  "persistActivity K s d =
     (if activityPath s = '''' then d
      else case enc K (activity_record K (metrics s)) of
        None \<Rightarrow> d
      | Some b \<Rightarrow>
          if \<not> create_ok d then d
          else let err = \<not> chmod_ok d;
                   err = (err \<or> \<not> write_ok d);
                   err = (err \<or> \<not> sync_ok d);
                   err = (err \<or> \<not> close_ok d)
               in if \<not> err \<and> rename_ok d then d\<lparr>stored_file := Some b\<rparr> else d)"

section \<open>Recording\<close>

definition RecordResponseModified ::
  "codecs \<Rightarrow> time \<Rightarrow> string \<Rightarrow> state \<times> disk \<Rightarrow> state \<times> disk"
where
  "RecordResponseModified K now clientIP sd =
     (let (s, d) = sd;
          m = (metrics s)\<lparr>ResponsesModified := ResponsesModified (metrics s) + 1\<rparr>
      in case ParseIP clientIP of
        None \<Rightarrow> (s\<lparr>metrics := m\<rparr>, d)
      | Some ip \<Rightarrow>
          let normalizedIP = IP_String ip;
              m = m\<lparr>LastModifiedByIP := AList.update normalizedIP now (LastModifiedByIP m)\<rparr>;
              mac = (case macResolver s of None \<Rightarrow> '''' | Some f \<Rightarrow> normalizeMAC (f normalizedIP));
              m = (if mac \<noteq> ''''
                   then m\<lparr>LastModifiedByMAC := AList.update mac now (LastModifiedByMAC m)\<rparr> else m);
              s = s\<lparr>metrics := m\<rparr>
          in (s, persistActivity K s d))"

definition RecordRewriteCandidate ::
  "codecs \<Rightarrow> time \<Rightarrow> string \<Rightarrow> nat \<Rightarrow> bytes \<Rightarrow> bytes \<Rightarrow> string \<Rightarrow> metrics \<Rightarrow> metrics"
where
  "RecordRewriteCandidate K now envelope locations input output encoding m =
     m\<lparr>LastRewriteTime := Some now, LastEnvelope := envelope, LastLocationsModified := locations,
       LastContentEncoding := encoding, LastInputSHA256 := sha_hex K input,
       LastOutputSHA256 := sha_hex K output\<rparr>"

fun record_event :: "codecs \<Rightarrow> time \<Rightarrow> event \<Rightarrow> state \<times> disk \<Rightarrow> state \<times> disk" where
  "record_event K now TargetRequest (s, d) =
     (s\<lparr>metrics := (metrics s)\<lparr>TargetRequests := TargetRequests (metrics s) + 1\<rparr>\<rparr>, d)"
| "record_event K now (ResponseModified ip) (s, d) = RecordResponseModified K now ip (s, d)"
| "record_event K now (ResponsePassthrough encoding) (s, d) =
     (s\<lparr>metrics := (metrics s)\<lparr>ResponsesPassthrough := ResponsesPassthrough (metrics s) + 1,
                               LastContentEncoding := encoding\<rparr>\<rparr>, d)"
| "record_event K now RewriteUnsupported (s, d) =
     (s\<lparr>metrics := (metrics s)\<lparr>RewritesUnsupported := RewritesUnsupported (metrics s) + 1\<rparr>\<rparr>, d)"
| "record_event K now RewriteFailed (s, d) =
     (s\<lparr>metrics := (metrics s)\<lparr>RewritesFailed := RewritesFailed (metrics s) + 1\<rparr>\<rparr>, d)"
| "record_event K now GzipDecodeFailed (s, d) =
     (s\<lparr>metrics := (metrics s)\<lparr>GzipDecodesFailed := GzipDecodesFailed (metrics s) + 1\<rparr>\<rparr>, d)"
| "record_event K now GzipEncodeFailed (s, d) =
     (s\<lparr>metrics := (metrics s)\<lparr>GzipEncodesFailed := GzipEncodesFailed (metrics s) + 1\<rparr>\<rparr>, d)"
| "record_event K now UpstreamFailed (s, d) =
     (s\<lparr>metrics := (metrics s)\<lparr>UpstreamsFailed := UpstreamsFailed (metrics s) + 1\<rparr>\<rparr>, d)"
| "record_event K now (RewriteCandidate envelope locations input output encoding) (s, d) =
     (s\<lparr>metrics := RecordRewriteCandidate K now envelope locations input output encoding (metrics s)\<rparr>, d)"
| "record_event K now (LastError msg) (s, d) = (SetLastError msg s, d)"

section \<open>Snapshots\<close>

record snapshot =
  s_Healthy :: bool
  s_DataPlaneHealthy :: bool
  s_Enabled :: bool
  s_Bypass :: bool
  s_ActiveConnections :: u64
  s_LastError :: string
  s_TargetRequests :: u64
  s_ResponseModified :: u64
  s_ResponsePassthrough :: u64
  s_RewriteUnsupported :: u64
  s_RewriteFailed :: u64
  s_GzipDecodeFailed :: u64
  s_GzipEncodeFailed :: u64
  s_UpstreamFailed :: u64
  s_LastRewriteTime :: string
  s_LastEnvelope :: string
  s_LastLocationsModified :: nat
  s_LastContentEncoding :: string
  s_LastInputSHA256 :: string
  s_LastOutputSHA256 :: string
  s_LastModifiedByIP :: "(string \<times> string) list"
  s_LastModifiedByMAC :: "(string \<times> string) list"

definition Snapshot :: "codecs \<Rightarrow> state \<Rightarrow> snapshot" where
  "Snapshot K s =
     (let m = metrics s in
      \<lparr>s_Healthy = healthy s, s_DataPlaneHealthy = healthy s, s_Enabled = enabled_flag s, s_Bypass = bypass s,
       s_ActiveConnections = active s,
       s_LastError = (case lastError s of None \<Rightarrow> '''' | Some e \<Rightarrow> e),
       s_TargetRequests = TargetRequests m, s_ResponseModified = ResponsesModified m,
       s_ResponsePassthrough = ResponsesPassthrough m, s_RewriteUnsupported = RewritesUnsupported m,
       s_RewriteFailed = RewritesFailed m, s_GzipDecodeFailed = GzipDecodesFailed m,
       s_GzipEncodeFailed = GzipEncodesFailed m, s_UpstreamFailed = UpstreamsFailed m,
       s_LastRewriteTime = (case LastRewriteTime m of None \<Rightarrow> '''' | Some t \<Rightarrow> fmt_time K t),
       s_LastEnvelope = LastEnvelope m, s_LastLocationsModified = LastLocationsModified m,
       s_LastContentEncoding = LastContentEncoding m, s_LastInputSHA256 = LastInputSHA256 m,
       s_LastOutputSHA256 = LastOutputSHA256 m,
       s_LastModifiedByIP = map (map_prod id (fmt_time K)) (LastModifiedByIP m),
       s_LastModifiedByMAC = map (map_prod id (fmt_time K)) (LastModifiedByMAC m)\<rparr>)"

section \<open>The counters and the request handler\<close>

lemma RecordResponseModified_counts:
  "TargetRequests (metrics (fst (RecordResponseModified K now ip sd))) = TargetRequests (metrics (fst sd))"
  "ResponsesModified (metrics (fst (RecordResponseModified K now ip sd))) = ResponsesModified (metrics (fst sd)) + 1"
  "ResponsesPassthrough (metrics (fst (RecordResponseModified K now ip sd))) = ResponsesPassthrough (metrics (fst sd))"
  by (cases sd; simp add: RecordResponseModified_def Let_def split: option.splits)+

interpretation health: observer_contract "record_event K now"
    "\<lambda>sd. TargetRequests (metrics (fst sd))" "\<lambda>sd. ResponsesModified (metrics (fst sd))"
    "\<lambda>sd. ResponsesPassthrough (metrics (fst sd))" for K now
proof unfold_locales
  fix e :: event and sd :: "state \<times> disk"
  obtain s d where sd: "sd = (s, d)" by (cases sd)
  show "TargetRequests (metrics (fst (record_event K now e sd))) =
      TargetRequests (metrics (fst sd)) + (if e = TargetRequest then 1 else 0)"
    by (cases e) (simp_all add: sd RecordResponseModified_counts SetLastError_def RecordRewriteCandidate_def)
  show "ResponsesModified (metrics (fst (record_event K now e sd))) =
      ResponsesModified (metrics (fst sd)) + (if is_modified e then 1 else 0)"
    by (cases e) (simp_all add: sd RecordResponseModified_counts SetLastError_def RecordRewriteCandidate_def
        is_modified_def)
  show "ResponsesPassthrough (metrics (fst (record_event K now e sd))) =
      ResponsesPassthrough (metrics (fst sd)) + (if is_passthrough e then 1 else 0)"
    by (cases e) (simp_all add: sd RecordResponseModified_counts SetLastError_def RecordRewriteCandidate_def
        is_passthrough_def)
qed

text \<open>the counters account for the traffic. After a request that was forwarded and answered, the target
  counter and the two outcome counters together have grown by the same number, one for the WLoc path and
  none for another.\<close>

theorem counters_account:
  assumes "settled srv" and "h_sent (handle p r srv w) = [q]" and "transport p q = Some resp"
    and "lively (RespBody resp)" and "content (RespBody resp) = (b, EOF)"
    and "quiet_rewriter p"
    and "sd' = fold (record_event K now) (h_events (handle p r srv w)) sd"
  shows "TargetRequests (metrics (fst sd')) = TargetRequests (metrics (fst sd)) + of_nat (counted p r)
    \<and> ResponsesModified (metrics (fst sd')) + ResponsesPassthrough (metrics (fst sd'))
      = ResponsesModified (metrics (fst sd)) + ResponsesPassthrough (metrics (fst sd)) + of_nat (counted p r)"
proof -
  note c = handle_outcomes [OF assms(1-6)]
  have "of_nat (length (filter (\<lambda>e. e = TargetRequest) (h_events (handle p r srv w)))) = (of_nat (counted p r) :: u64)"
    using c by (simp add: target_calls_def)
  moreover have "of_nat (length (filter is_modified (h_events (handle p r srv w))))
      + of_nat (length (filter is_passthrough (h_events (handle p r srv w)))) = (of_nat (counted p r) :: u64)"
    using c by (simp add: outcomes_def flip: of_nat_add)
  ultimately show ?thesis
    unfolding assms(7) by (simp add: health.observe_all add.assoc add.left_commute add.commute)
qed

section \<open>The activity file across failures and restarts\<close>

text \<open>One recording: the clock, the outcomes of the file system calls it makes, and the event.\<close>

type_synonym recording = "time \<times> disk \<times> event"

fun recording_step :: "codecs \<Rightarrow> recording \<Rightarrow> state \<times> disk \<Rightarrow> state \<times> disk" where
  "recording_step K (now, calls, e) (s, d) =
     record_event K now e (s, calls\<lparr>stored_file := stored_file d\<rparr>)"

lemma persist_cases:
  "stored_file (persistActivity K s d) = stored_file d \<or>
   (\<exists>b. enc K (activity_record K (metrics s)) = Some b \<and> stored_file (persistActivity K s d) = Some b)"
  by (auto simp: persistActivity_def Let_def split: option.splits)

lemma RecordResponseModified_disk:
  "snd (RecordResponseModified K now ip sd) = snd sd \<or>
   snd (RecordResponseModified K now ip sd) = persistActivity K (fst (RecordResponseModified K now ip sd)) (snd sd)"
  by (simp add: RecordResponseModified_def Let_def case_prod_beta split: option.splits)

lemma record_event_file:
  "stored_file (snd (record_event K now e (s, d))) = stored_file d \<or>
   (\<exists>b. enc K (activity_record K (metrics (fst (record_event K now e (s, d))))) = Some b
      \<and> stored_file (snd (record_event K now e (s, d))) = Some b)"
proof (cases e)
  case (ResponseModified ip)
  then show ?thesis
    using RecordResponseModified_disk [of K now ip "(s, d)"]
      persist_cases [of K "fst (RecordResponseModified K now ip (s, d))" d] by auto
qed simp_all

text \<open>the activity file is never torn. Whatever is recorded, and wherever creating, writing, syncing,
  closing or renaming the temporary file fails, the file holds either what it held at the start or
  the complete encoding of the activity as it was after some recording.\<close>

theorem persist_atomic:
  "stored_file (snd (fold (recording_step K) rs sd)) = stored_file (snd sd) \<or>
   (\<exists>past todo b. rs = past @ todo \<and> enc K (activity_record K (metrics (fst (fold (recording_step K) past sd)))) = Some b
      \<and> stored_file (snd (fold (recording_step K) rs sd)) = Some b)"
proof (induction rs rule: rev_induct)
  case Nil
  then show ?case by simp
next
  case (snoc r rs)
  obtain now d0 e where r: "r = (now, d0, e)" by (cases r)
  obtain s d where sd: "fold (recording_step K) rs sd = (s, d)" by (cases "fold (recording_step K) rs sd")
  show ?case
    using record_event_file [of K now e s "d0\<lparr>stored_file := stored_file d\<rparr>"]
  proof
    assume "stored_file (snd (record_event K now e (s, d0\<lparr>stored_file := stored_file d\<rparr>)))
        = stored_file (d0\<lparr>stored_file := stored_file d\<rparr>)"
    then have same: "stored_file (snd (fold (recording_step K) (rs @ [r]) sd)) = stored_file (snd (fold (recording_step K) rs sd))"
      by (simp add: r sd)
    show ?thesis unfolding same using snoc.IH by (metis append.assoc)
  next
    assume "\<exists>b. enc K (activity_record K (metrics (fst (record_event K now e (s, d0\<lparr>stored_file := stored_file d\<rparr>))))) = Some b
        \<and> stored_file (snd (record_event K now e (s, d0\<lparr>stored_file := stored_file d\<rparr>))) = Some b"
    then show ?thesis by (intro disjI2, rule_tac x = "rs @ [r]" in exI) (simp add: r sd)
  qed
qed

definition canonical_ip :: "string \<Rightarrow> bool" where
  "canonical_ip k \<longleftrightarrow> (case ParseIP k of None \<Rightarrow> False | Some ip \<Rightarrow> IP_String ip = k)"

definition canonical_mac :: "string \<Rightarrow> bool" where
  "canonical_mac k \<longleftrightarrow> k \<noteq> '''' \<and> normalizeMAC k = k"

lemma load_ips_all:
  assumes "\<forall>(k, v) \<in> set ys. canonical_ip k \<and> parse_time K v \<noteq> None" and "distinct (map fst ys)"
  shows "map_of (load_ips K ys al) = map_of al ++ (\<lambda>k. Option.bind (map_of ys k) (parse_time K))"
  using assms
proof (induction ys arbitrary: al)
  case (Cons y ys)
  obtain rawIP rawTime where y: "y = (rawIP, rawTime)" by (cases y)
  then obtain ip t where ip: "ParseIP rawIP = Some ip" "IP_String ip = rawIP" and t: "parse_time K rawTime = Some t"
    using Cons.prems(1) by (auto simp: canonical_ip_def split: option.splits)
  have "map_of ys rawIP = None" using Cons.prems(2) by (simp add: y map_of_eq_None_iff)
  then show ?case
    using Cons.IH Cons.prems ip t
    by (auto simp: y AList.update_conv' map_add_def fun_eq_iff split: option.splits)
qed (simp add: map_add_def)

lemma load_macs_all:
  assumes "\<forall>(k, v) \<in> set ys. canonical_mac k \<and> parse_time K v \<noteq> None" and "distinct (map fst ys)"
  shows "map_of (load_macs K ys al) = map_of al ++ (\<lambda>k. Option.bind (map_of ys k) (parse_time K))"
  using assms
proof (induction ys arbitrary: al)
  case (Cons y ys)
  obtain rawMAC rawTime where y: "y = (rawMAC, rawTime)" by (cases y)
  then obtain t where t: "parse_time K rawTime = Some t" and m: "normalizeMAC rawMAC = rawMAC" "rawMAC \<noteq> ''''"
    using Cons.prems(1) by (auto simp: canonical_mac_def)
  have "map_of ys rawMAC = None" using Cons.prems(2) by (simp add: y map_of_eq_None_iff)
  then show ?case
    using Cons.IH Cons.prems m t
    by (auto simp: y AList.update_conv' map_add_def fun_eq_iff split: option.splits)
qed (simp add: map_add_def)

text \<open>What the program relies on of \<open>encoding/json\<close> and of the layout \<open>RFC3339Nano\<close>.\<close>

definition same_activity :: "persistedActivity \<Rightarrow> persistedActivity \<Rightarrow> bool" where
  "same_activity a b \<longleftrightarrow> Version a = Version b
     \<and> map_of (ByIP a) = map_of (ByIP b) \<and> distinct (map fst (ByIP a))
     \<and> map_of (ByMAC a) = map_of (ByMAC b) \<and> distinct (map fst (ByMAC a))"

definition faithful_codecs :: "codecs \<Rightarrow> bool" where
  "faithful_codecs K \<longleftrightarrow> (\<forall>t. parse_time K (fmt_time K t) = Some t)
     \<and> (\<forall>a b. enc K a = Some b \<longrightarrow> (\<exists>a'. dec K b = Some a' \<and> same_activity a' a))"

lemma map_of_formatted:
  "map_of (map (map_prod id f) xs) k = map_option f (map_of xs k)"
  by (induction xs) auto

lemma reformatted:
  assumes "map_of ys = map_of (map (map_prod id (fmt_time K)) xs)" and "distinct (map fst ys)"
    and "\<forall>k \<in> set (map fst xs). P k" and "\<And>t. parse_time K (fmt_time K t) = Some t"
  shows "\<forall>(k, v) \<in> set ys. P k \<and> parse_time K v \<noteq> None"
    and "(\<lambda>k. Option.bind (map_of ys k) (parse_time K)) = map_of xs"
proof -
  show "(\<lambda>k. Option.bind (map_of ys k) (parse_time K)) = map_of xs"
    using assms(4) by (auto simp: assms(1) map_of_formatted fun_eq_iff bind_map_option comp_def)
  have "P k \<and> parse_time K v \<noteq> None" if "(k, v) \<in> set ys" for k v
  proof -
    have "map_of ys k = Some v" using that assms(2) by simp
    then obtain t where "map_of xs k = Some t" "v = fmt_time K t"
      unfolding assms(1) by (auto simp: map_of_formatted)
    then show ?thesis using assms(3,4) by (force dest: map_of_SomeD)
  qed
  then show "\<forall>(k, v) \<in> set ys. P k \<and> parse_time K v \<noteq> None" by auto
qed

text \<open>activity survives a restart. What \<open>persistActivityLocked\<close> writes, when no call fails and the
  encoding is within the 64 KiB that are read back, is what \<open>NewWithActivityFile\<close> starts from: the same
  time for every address and every MAC.\<close>

theorem activity_roundtrip:
  assumes "faithful_codecs K" and "enc K (activity_record K (metrics s)) = Some b" and "length b \<le> 65536"
    and "\<forall>k \<in> set (map fst (LastModifiedByIP (metrics s))). canonical_ip k"
    and "\<forall>k \<in> set (map fst (LastModifiedByMAC (metrics s))). canonical_mac k"
    and "activityPath s \<noteq> ''''"
    and "create_ok d \<and> chmod_ok d \<and> write_ok d \<and> sync_ok d \<and> close_ok d \<and> rename_ok d"
  shows "map_of (LastModifiedByIP (metrics (NewWithActivityFile K (persistActivity K s d) (activityPath s))))
      = map_of (LastModifiedByIP (metrics s))
    \<and> map_of (LastModifiedByMAC (metrics (NewWithActivityFile K (persistActivity K s d) (activityPath s))))
      = map_of (LastModifiedByMAC (metrics s))"
proof -
  have written: "stored_file (persistActivity K s d) = Some b"
    using assms(2,6,7) by (simp add: persistActivity_def)
  obtain a where a: "dec K b = Some a" "same_activity a (activity_record K (metrics s))"
    using assms(1,2) unfolding faithful_codecs_def by blast
  then have st: "stored_activity K b = Some a"
    by (simp add: stored_activity_def same_activity_def activity_record_def)
  have t: "\<And>t. parse_time K (fmt_time K t) = Some t" using assms(1) by (simp add: faithful_codecs_def)
  note ips = reformatted [OF _ _ assms(4) t, of "ByIP a"]
  note macs = reformatted [OF _ _ assms(5) t, of "ByMAC a"]
  have "map_of (load_ips K (ByIP a) []) = map_of (LastModifiedByIP (metrics s))"
    using a(2) ips load_ips_all [of "ByIP a" K "[]"]
    by (simp add: same_activity_def activity_record_def)
  moreover have "map_of (load_macs K (ByMAC a) []) = map_of (LastModifiedByMAC (metrics s))"
    using a(2) macs load_macs_all [of "ByMAC a" K "[]"]
    by (simp add: same_activity_def activity_record_def)
  ultimately show ?thesis
    using assms(3,6) written st
    by (simp add: NewWithActivityFile_def loadActivity_def new_state_def no_metrics_def)
qed

section \<open>A concrete history\<close>

definition sample_time :: "time \<Rightarrow> string" where
  "sample_time t = (if 0 \<le> t then replicate (nat t) CHR ''0'' else CHR ''-'' # replicate (nat (- t)) CHR ''0'')"

definition sample_parse_time :: "string \<Rightarrow> time option" where
  "sample_parse_time s =
     (case s of c # cs \<Rightarrow> Some (if c = CHR ''-'' then - int (length cs) else int (length s)) | [] \<Rightarrow> Some 0)"

definition sample_activity :: persistedActivity where
  "sample_activity = \<lparr>Version = 2, ByIP = [(''10.0.0.2'', ''000'')], ByMAC = [(''02:00:00:00:00:01'', ''000'')]\<rparr>"

definition sample_codecs :: codecs where
  "sample_codecs = \<lparr>fmt_time = sample_time, parse_time = sample_parse_time,
     enc = \<lambda>a. if a = sample_activity then Some [7] else None,
     dec = \<lambda>b. if b = [7] then Some sample_activity else None,
     dec_legacy = \<lambda>_. None, sha_hex = \<lambda>_. ''''\<rparr>"

definition sample_disk :: disk where
  "sample_disk = \<lparr>stored_file = None, create_ok = True, chmod_ok = True, write_ok = True, sync_ok = True,
     close_ok = True, rename_ok = True\<rparr>"

definition sample_state :: state where
  "sample_state = new_state\<lparr>activityPath := ''a'', metrics := no_metrics
     \<lparr>LastModifiedByIP := [(''10.0.0.2'', 3)], LastModifiedByMAC := [(''02:00:00:00:00:01'', 3)]\<rparr>\<rparr>"

lemma sample_times: "sample_parse_time (sample_time t) = Some t"
proof (cases "t \<le> 0")
  case False
  then obtain n where "nat t = Suc n" by (metis gr0_implies_Suc zero_less_nat_eq not_le)
  then show ?thesis using False by (simp add: sample_time_def sample_parse_time_def)
qed (simp add: sample_time_def sample_parse_time_def)

lemma sample_faithful: "faithful_codecs sample_codecs"
  by (auto simp: faithful_codecs_def sample_codecs_def sample_times same_activity_def sample_activity_def)

lemma sample_canonical: "canonical_ip ''10.0.0.2''" "canonical_mac ''02:00:00:00:00:01''"
  by code_simp+

theorem activity_roundtrip_witness:
  "map_of (LastModifiedByIP (metrics (NewWithActivityFile sample_codecs
     (persistActivity sample_codecs sample_state sample_disk) ''a''))) ''10.0.0.2'' = Some 3"
proof -
  have "enc sample_codecs (activity_record sample_codecs (metrics sample_state)) = Some [7]"
    by (simp add: sample_codecs_def activity_record_def sample_state_def sample_activity_def sample_time_def
        numeral_3_eq_3 new_state_def no_metrics_def)
  from activity_roundtrip [OF sample_faithful this, of sample_disk] show ?thesis
    by (simp add: sample_state_def new_state_def no_metrics_def sample_canonical sample_disk_def)
qed

theorem counters_account_witness:
  "TargetRequests (metrics (fst (fold (record_event sample_codecs 5)
     (h_events (handle sample_proxy sample_request new_limits (new_writer None))) (sample_state, sample_disk)))) = 1"
proof -
  have "quiet_rewriter sample_proxy" "counted sample_proxy sample_request = 1"
    by (simp_all add: quiet_rewriter_def sample_proxy_def counted_def sample_request_def)
  then show ?thesis
    using counters_account [OF sample_settled sample_sent sample_upstream _ refl, of sample_codecs 5
      "new_writer None" "(sample_state, sample_disk)"]
    by (simp add: sample_state_def new_state_def no_metrics_def)
qed

end
