(* ===== verification/Stream_IO.thy ===== *)
theory Stream_IO
  imports Body_IO
begin

text \<open>
  Reading from a connection: the size of a stream, which every read without an error decreases, and
  \<open>io.ReadFull\<close>, which the control protocol and the SOCKS5 client use.
\<close>

text \<open>Every read without an error uses up a chunk or shortens it.\<close>

definition stream_size :: "stream \<Rightarrow> nat" where
  "stream_size s = sum_list (map (\<lambda>(c, e). Suc (length c)) s)"

lemma read_stream_size:
  "read_stream k s = ((p, None), s') \<Longrightarrow> 0 < k \<Longrightarrow> stream_size s' < stream_size s"
  by (cases "(k, s)" rule: read_stream.cases) (auto simp: stream_size_def split: if_splits option.splits)

section \<open>\<open>io.ReadFull\<close>\<close>

function read_full :: "nat \<Rightarrow> bytes \<Rightarrow> stream \<Rightarrow> (bytes \<times> io_error option) \<times> stream" where
  "read_full n acc s =
     (if n \<le> length acc then ((acc, None), s)
      else case read_stream (n - length acc) s of
        ((p, err), s') \<Rightarrow>
          if n \<le> length (acc @ p) then ((acc @ p, None), s')
          else (case err of
                  Some e \<Rightarrow> ((acc @ p, Some e), s')
                | None \<Rightarrow> read_full n (acc @ p) s'))"
  by pat_completeness auto
termination
  by (relation "measure (\<lambda>(n, acc, s). stream_size s)") (auto dest!: read_stream_size [OF sym])

declare read_full.simps [simp del]

lemma read_full_spec:
  "read_full n acc s = ((p, None), s') \<Longrightarrow> length acc \<le> n \<Longrightarrow>
   length p = n \<and> p @ fst (content s') = acc @ fst (content s)"
proof (induction n acc s rule: read_full.induct)
  case (1 n acc s)
  show ?case
  proof (cases "n \<le> length acc")
    case True
    then show ?thesis using "1.prems" by (subst (asm) read_full.simps) simp
  next
    case False
    obtain q err s1 where rd: "read_stream (n - length acc) s = ((q, err), s1)" by (metis surj_pair)
    note f = body.read_front [OF rd] body.read_bounded [OF rd]
    show ?thesis
    proof (cases "n \<le> length (acc @ q)")
      case True
      then show ?thesis using "1.prems" False f by (subst (asm) read_full.simps) (auto simp: rd)
    next
      case short: False
      have "err = None" "read_full n (acc @ q) s1 = ((p, None), s')"
        using "1.prems"(1) False short by (subst (asm) read_full.simps; auto simp: rd split: option.splits)+
      then show ?thesis
        using "1.IH" [OF False rd [symmetric] refl short] short f by simp
    qed
  qed
qed

lemma read_full_enough:
  "n \<le> length (acc @ fst (content s)) \<Longrightarrow> length acc \<le> n \<Longrightarrow> \<exists>p s'. read_full n acc s = ((p, None), s')"
proof (induction n acc s rule: read_full.induct)
  case (1 n acc s)
  show ?case
  proof (cases "n \<le> length acc")
    case True
    then show ?thesis by (subst read_full.simps) simp
  next
    case False
    obtain q err s1 where rd: "read_stream (n - length acc) s = ((q, err), s1)" by (metis surj_pair)
    note f = body.read_front [OF rd]
    show ?thesis
    proof (cases "n \<le> length (acc @ q)")
      case True
      then show ?thesis using False by (subst read_full.simps) (auto simp: rd)
    next
      case short: False
      have "err = None"
      proof (rule ccontr)
        assume "err \<noteq> None"
        then have "fst (content s) = q" using body.read_last rd by (metis not_None_eq fst_conv)
        with short "1.prems"(1) show False by simp
      qed
      moreover have "\<exists>p s'. read_full n (acc @ q) s1 = ((p, None), s')"
        using "1.IH" [OF False rd [symmetric] refl short calculation] "1.prems"(1) short f by simp
      ultimately show ?thesis using False short by (subst read_full.simps) (auto simp: rd)
    qed
  qed
qed

lemma read_full_exact:
  assumes "fst (content s) = p @ rest"
  shows "\<exists>s'. read_full (length p) [] s = ((p, None), s') \<and> fst (content s') = rest"
proof -
  obtain q s' where q: "read_full (length p) [] s = ((q, None), s')"
    using read_full_enough [of "length p" "[]" s] assms by auto
  from read_full_spec [OF q] assms have "length q = length p" "q @ fst (content s') = p @ rest" by simp_all
  then show ?thesis using q by simp
qed

end
