(* ===== verification/Control.thy ===== *)
theory Control
  imports Health Stream_IO
begin

text \<open>
  The control socket, \<open>internal/control/server.go\<close>: the length-prefixed frames, \<open>handle\<close> with every method
  on every path, the bypass marker and the client's \<open>RequestWithParams\<close>.

  \<open>encoding/json\<close> is the record \<open>json\<close>; the outcomes of the file system calls and of the writes to the
  socket are arguments.
\<close>

section \<open>Frames\<close>

definition maxControlMessage :: nat where "maxControlMessage = 262144"

text \<open>\<open>readFrame\<close>: the frame, or \<open>None\<close> for an error, and what is left to read.\<close>

definition readFrame :: "stream \<Rightarrow> bytes option \<times> stream" where
  "readFrame s =
     (case read_full 4 [] s of
        ((header, Some e), s) \<Rightarrow> (None, s)
      | ((header, None), s) \<Rightarrow>
          let n = be32_at header 0 in
          if n = 0 \<or> n > maxControlMessage then (None, s)
          else (case read_full n [] s of
             ((b, Some e), s) \<Rightarrow> (None, s)
           | ((b, None), s) \<Rightarrow> (Some b, s)))"

text \<open>\<open>writeFrame\<close> of an encoded message: what is written, \<open>None\<close> when it is refused.\<close>

definition writeFrame :: "bytes option \<Rightarrow> bytes option" where
  "writeFrame encoded =
     (case encoded of
        None \<Rightarrow> None
      | Some b \<Rightarrow> if length b > maxControlMessage then None else Some (put32 (length b) @ b))"

section \<open>Requests and responses\<close>

record request_msg =
  q_Version :: int
  q_ID :: string
  q_Method :: string
  q_Action :: string
  q_Params :: bytes

datatype call_result = StatusResult snapshot | BypassResult | ReloadedResult

datatype call_error = BypassMarkerWriteFailed | ReloadUnavailable | ReloadFailed string | UnknownMethod | InvalidJSON

record response_msg =
  r_Version :: int
  r_ID :: string
  r_OK :: bool
  r_Result :: "call_result option"
  r_Error :: "call_error option"

record json =
  dec_request :: "bytes \<Rightarrow> request_msg option"
  enc_response :: "response_msg \<Rightarrow> bytes option"

section \<open>The server\<close>

text \<open>
  The privileged marker \<open>bypass\<close> of the state directory, and the request \<open>bypass_on.request\<close> beside the
  socket, the only one a daemon without privileges may write.
\<close>

datatype marker = Bypass | BypassOnRequest

text \<open>\<open>'p\<close> is what the reload function changes besides the health state.\<close>

record 'p control_server =
  requestOnly :: bool
  reload :: "('p \<times> state \<Rightarrow> string option \<times> 'p \<times> state) option"

record 'p daemon =
  h :: state
  markers :: "marker set"
  policy_state :: 'p

text \<open>\<open>New\<close> and \<open>NewWithState\<close>.\<close>

definition new_control :: "'p control_server" where
  "new_control = \<lparr>requestOnly = False, reload = None\<rparr>"

definition new_control_with_state :: "'p control_server" where
  "new_control_with_state = \<lparr>requestOnly = True, reload = None\<rparr>"

definition SetReload :: "('p \<times> state \<Rightarrow> string option \<times> 'p \<times> state) \<Rightarrow> 'p control_server \<Rightarrow> 'p control_server" where
  "SetReload f cs = cs\<lparr>reload := Some f\<rparr>"

definition atomicMarker :: "bool \<Rightarrow> marker \<Rightarrow> 'p daemon \<Rightarrow> bool \<times> 'p daemon" where
  "atomicMarker ok m d = (if ok then (True, d\<lparr>markers := insert m (markers d)\<rparr>) else (False, d))"

text \<open>One call: the method's switch. \<open>ok\<close> is the outcome of writing a marker.\<close>

definition call ::
  "codecs \<Rightarrow> 'p control_server \<Rightarrow> bool \<Rightarrow> string \<Rightarrow> 'p daemon \<Rightarrow> (call_error + call_result) \<times> 'p daemon"
where
  "call K cs ok method d =
     (if method = ''status'' \<or> method = ''health'' then
        let snapshot = Snapshot K (h d);
            snapshot = (if \<not> requestOnly cs \<and> Bypass \<in> markers d then snapshot\<lparr>s_Bypass := True\<rparr> else snapshot)
        in (Inr (StatusResult snapshot), d)
      else if method = ''bypass_on'' then
        (case atomicMarker ok (if requestOnly cs then BypassOnRequest else Bypass) d of
           (False, d) \<Rightarrow> (Inl BypassMarkerWriteFailed, d)
         | (True, d) \<Rightarrow> (Inr BypassResult, d\<lparr>h := SetBypass True (h d)\<rparr>))
      else if method = ''reload'' then
        (case reload cs of
           None \<Rightarrow> (Inl ReloadUnavailable, d)
         | Some f \<Rightarrow>
             (case f (policy_state d, h d) of
                (err, p, hs) \<Rightarrow>
                  (case err of Some e \<Rightarrow> Inl (ReloadFailed e) | None \<Rightarrow> Inr ReloadedResult,
                   d\<lparr>policy_state := p, h := hs\<rparr>)))
      else (Inl UnknownMethod, d))"

definition response_to :: "request_msg \<Rightarrow> call_error + call_result \<Rightarrow> response_msg" where
  "response_to q r =
     \<lparr>r_Version = 1, r_ID = q_ID q, r_OK = (case r of Inl _ \<Rightarrow> False | Inr _ \<Rightarrow> True),
      r_Result = (case r of Inl _ \<Rightarrow> None | Inr x \<Rightarrow> Some x),
      r_Error = (case r of Inl e \<Rightarrow> Some e | Inr _ \<Rightarrow> None)\<rparr>"

definition invalid_json :: response_msg where
  "invalid_json = \<lparr>r_Version = 1, r_ID = '''', r_OK = False, r_Result = None, r_Error = Some InvalidJSON\<rparr>"

definition method_of :: "request_msg \<Rightarrow> string" where
  "method_of q = (if q_Method q = '''' then q_Action q else q_Method q)"

text \<open>The loop of \<open>handle\<close>, \<open>k\<close> requests from its end, and the responses it gives in order.\<close>

fun handle_loop ::
  "codecs \<Rightarrow> json \<Rightarrow> 'p control_server \<Rightarrow> (nat \<Rightarrow> bool) \<Rightarrow> nat \<Rightarrow> stream \<Rightarrow> 'p daemon \<Rightarrow> response_msg list \<times> 'p daemon"
where
  "handle_loop K J cs ok 0 s d = ([], d)"
| "handle_loop K J cs ok (Suc k) s d =
     (case readFrame s of
        (None, s) \<Rightarrow> ([], d)
      | (Some b, s) \<Rightarrow>
          (case dec_request J b of
             None \<Rightarrow> ([invalid_json], d)
           | Some q \<Rightarrow>
               (case call K cs (ok k) (method_of q) d of
                  (r, d) \<Rightarrow>
                    (case handle_loop K J cs ok k s d of
                       (rs, d) \<Rightarrow> (response_to q r # rs, d)))))"

definition maxRequests :: nat where "maxRequests = 32"

text \<open>What is written to the socket: a response that cannot be framed is dropped.\<close>

definition sent_frames :: "json \<Rightarrow> response_msg list \<Rightarrow> bytes" where
  "sent_frames J rs = concat (map (\<lambda>r. case writeFrame (enc_response J r) of None \<Rightarrow> [] | Some f \<Rightarrow> f) rs)"

definition handle_control ::
  "codecs \<Rightarrow> json \<Rightarrow> 'p control_server \<Rightarrow> (nat \<Rightarrow> bool) \<Rightarrow> stream \<Rightarrow> 'p daemon \<Rightarrow> bytes \<times> 'p daemon"
where
  "handle_control K J cs ok s d =
     (let d = d\<lparr>h := AddConnection (h d)\<rparr>;
          (rs, d) = handle_loop K J cs ok maxRequests s d
      in (sent_frames J rs, d\<lparr>h := DoneConnection (h d)\<rparr>))"

section \<open>Frames survive the socket\<close>

lemma writeFrame_Some:
  "writeFrame e = Some f \<longleftrightarrow> (\<exists>b. e = Some b \<and> length b \<le> maxControlMessage \<and> f = put32 (length b) @ b)"
  by (auto simp: writeFrame_def split: option.splits)

lemma header_value: "n \<le> maxControlMessage \<Longrightarrow> be32_at (put32 n) 0 = n"
  using be32_at_put32 [of 0 "[]" n "[]"] by (simp add: maxControlMessage_def)

lemma readFrame_frame:
  assumes "0 < length b" and "length b \<le> maxControlMessage" and "fst (content s) = put32 (length b) @ b @ rest"
  shows "\<exists>s'. readFrame s = (Some b, s') \<and> fst (content s') = rest"
proof -
  obtain s1 where s1: "read_full 4 [] s = ((put32 (length b), None), s1)" "fst (content s1) = b @ rest"
    using read_full_exact [OF assms(3)] by auto
  obtain s2 where "read_full (length b) [] s1 = ((b, None), s2)" "fst (content s2) = rest"
    using read_full_exact [OF s1(2)] by auto
  with s1(1) assms(1,2) show ?thesis by (simp add: readFrame_def Let_def header_value)
qed

lemma readFrame_Some:
  assumes "readFrame s = (Some b, s')"
  shows "0 < length b" and "length b \<le> maxControlMessage"
    and "\<exists>header. length header = 4 \<and> be32_at header 0 = length b \<and> fst (content s) = header @ b @ fst (content s')"
proof -
  obtain header s1 where s1: "read_full 4 [] s = ((header, None), s1)" "be32_at header 0 \<noteq> 0"
    "be32_at header 0 \<le> maxControlMessage" "read_full (be32_at header 0) [] s1 = ((b, None), s')"
    using assms by (auto simp: readFrame_def Let_def not_less split: prod.splits option.splits if_splits)
  note f = read_full_spec [OF s1(1)] read_full_spec [OF s1(4)]
  from f s1(2,3) show "0 < length b" "length b \<le> maxControlMessage" by simp_all
  from f show "\<exists>header. length header = 4 \<and> be32_at header 0 = length b \<and> fst (content s) = header @ b @ fst (content s')"
    by (intro exI [of _ header]) simp
qed

text \<open>a frame that was written is read back whole, however the socket cuts it, and nothing behind it is
  consumed; and whatever is read is a frame: its length is the one announced, from 1 to \<open>maxControlMessage\<close>.\<close>

theorem frame_roundtrip:
  assumes "writeFrame (Some b) = Some f" and "b \<noteq> []" and "fst (content s) = f @ rest"
  shows "(\<exists>s'. readFrame s = (Some b, s') \<and> fst (content s') = rest)
    \<and> (\<forall>s b' s'. readFrame s = (Some b', s') \<longrightarrow> 0 < length b' \<and> length b' \<le> maxControlMessage
         \<and> (\<exists>header. length header = 4 \<and> be32_at header 0 = length b'
              \<and> fst (content s) = header @ b' @ fst (content s')))"
proof -
  have "length b \<le> maxControlMessage" "f = put32 (length b) @ b" using assms(1) by (auto simp: writeFrame_Some)
  then have "\<exists>s'. readFrame s = (Some b, s') \<and> fst (content s') = rest"
    using assms(2,3) by (intro readFrame_frame) auto
  then show ?thesis using readFrame_Some by blast
qed

section \<open>What a client can do\<close>

text \<open>A reload function that leaves the bypass flag and the connection count alone.\<close>

definition keeps_bypass :: "'p control_server \<Rightarrow> bool" where
  "keeps_bypass cs \<longleftrightarrow> (\<forall>f p hs. reload cs = Some f \<longrightarrow>
     bypass (snd (snd (f (p, hs)))) = bypass hs \<and> active (snd (snd (f (p, hs)))) = active hs)"

definition allowed_marker :: "'p control_server \<Rightarrow> marker" where
  "allowed_marker cs = (if requestOnly cs then BypassOnRequest else Bypass)"

definition only_opens :: "'p control_server \<Rightarrow> 'p daemon \<Rightarrow> 'p daemon \<Rightarrow> bool" where
  "only_opens cs d d' \<longleftrightarrow> (bypass (h d) \<longrightarrow> bypass (h d')) \<and> active (h d') = active (h d)
     \<and> markers d \<subseteq> markers d' \<and> markers d' \<subseteq> insert (allowed_marker cs) (markers d)
     \<and> (\<not> bypass (h d) \<and> bypass (h d') \<longrightarrow> allowed_marker cs \<in> markers d')"

lemma call_only_opens: "keeps_bypass cs \<Longrightarrow> only_opens cs d (snd (call K cs ok method d))"
proof -
  assume k: "keeps_bypass cs"
  consider (status) "method = ''status'' \<or> method = ''health''" | (on) "method = ''bypass_on''"
    | (rl) f where "method = ''reload''" "reload cs = Some f"
    | (other) "method \<noteq> ''status''" "method \<noteq> ''health''" "method \<noteq> ''bypass_on''" "method = ''reload'' \<longrightarrow> reload cs = None"
    by (cases "reload cs") blast+
  then show ?thesis
  proof cases
    case (rl f)
    obtain e p hs where f: "f (policy_state d, h d) = (e, p, hs)" by (metis prod_cases3)
    then have "bypass hs = bypass (h d)" "active hs = active (h d)"
      using k rl(2) unfolding keeps_bypass_def by (metis snd_conv)+
    then show ?thesis using rl f by (auto simp: call_def only_opens_def)
  qed (auto simp: call_def only_opens_def atomicMarker_def allowed_marker_def SetBypass_def Let_def)
qed

lemma only_opens_trans: "only_opens cs d d1 \<Longrightarrow> only_opens cs d1 d2 \<Longrightarrow> only_opens cs d d2"
  by (auto simp: only_opens_def)

lemma loop_only_opens: "keeps_bypass cs \<Longrightarrow> only_opens cs d (snd (handle_loop K J cs ok k s d))"
proof (induction K J cs ok k s d rule: handle_loop.induct)
  case (2 K J cs ok k s d)
  show ?case
  proof (cases "\<exists>b s1 q. readFrame s = (Some b, s1) \<and> dec_request J b = Some q")
    case True
    then obtain b s1 q where r: "readFrame s = (Some b, s1)" "dec_request J b = Some q" by blast
    obtain x d1 where c: "call K cs (ok k) (method_of q) d = (x, d1)" by (metis surj_pair)
    have "only_opens cs d d1" using call_only_opens [OF "2.prems", of d K "ok k" "method_of q"] by (simp add: c)
    moreover have "only_opens cs d1 (snd (handle_loop K J cs ok k s1 d1))"
      using "2.IH" "2.prems" r c by metis
    ultimately show ?thesis using only_opens_trans r c by (auto split: prod.splits)
  next
    case False
    then show ?thesis
      by (auto simp: only_opens_def split: prod.splits option.splits)
  qed
qed (auto simp: only_opens_def)

text \<open>C31: the control socket can only open the bypass, never close it. Whatever bytes a client sends, and
  whatever calls fail, serving the connection leaves a set bypass flag and every marker as they are,
  sets the flag only together with the one marker its privileges allow, and gives back the
  connection it counted. A daemon without privileges never writes the privileged marker.\<close>

theorem control_only_opens_bypass:
  assumes "keeps_bypass cs" and "handle_control K J cs ok s d = (out, d')"
  shows "(bypass (h d) \<longrightarrow> bypass (h d')) \<and> active (h d') = active (h d)
    \<and> markers d \<subseteq> markers d' \<and> markers d' \<subseteq> insert (if requestOnly cs then BypassOnRequest else Bypass) (markers d)
    \<and> (\<not> bypass (h d) \<and> bypass (h d') \<longrightarrow> (if requestOnly cs then BypassOnRequest else Bypass) \<in> markers d')
    \<and> (requestOnly cs \<longrightarrow> (Bypass \<in> markers d' \<longleftrightarrow> Bypass \<in> markers d))"
proof -
  let ?d = "d\<lparr>h := AddConnection (h d)\<rparr>"
  obtain rs d1 where l: "handle_loop K J cs ok maxRequests s ?d = (rs, d1)" by (metis surj_pair)
  have "only_opens cs ?d d1" using loop_only_opens [OF assms(1), of ?d K J ok maxRequests s] by (simp add: l)
  moreover have "d' = d1\<lparr>h := DoneConnection (h d1)\<rparr>" using assms(2) by (simp add: handle_control_def l)
  ultimately show ?thesis
    by (auto simp: only_opens_def allowed_marker_def AddConnection_def DoneConnection_def split: if_splits)
qed

section \<open>Every request is answered in its turn\<close>

text \<open>The calls of a list of requests, \<open>k\<close> before the end of the loop.\<close>

fun calls ::
  "codecs \<Rightarrow> 'p control_server \<Rightarrow> (nat \<Rightarrow> bool) \<Rightarrow> nat \<Rightarrow> request_msg list \<Rightarrow> 'p daemon \<Rightarrow> response_msg list \<times> 'p daemon"
where
  "calls K cs ok k [] d = ([], d)"
| "calls K cs ok 0 qs d = ([], d)"
| "calls K cs ok (Suc k) (q # qs) d =
     (case call K cs (ok k) (method_of q) d of
        (r, d) \<Rightarrow> (case calls K cs ok k qs d of (rs, d) \<Rightarrow> (response_to q r # rs, d)))"

lemma readFrame_end: "fst (content s) = [] \<Longrightarrow> fst (readFrame s) = None"
proof (cases "fst (readFrame s)")
  case (Some b)
  assume "fst (content s) = []"
  moreover obtain s' where "readFrame s = (Some b, s')" using Some by (metis prod.collapse)
  ultimately show ?thesis using readFrame_Some(3) by fastforce
qed

lemma handle_loop_calls:
  assumes "fst (content s) = concat (map (\<lambda>(b, q). put32 (length b) @ b) bqs)"
    and "\<forall>(b, q) \<in> set bqs. b \<noteq> [] \<and> length b \<le> maxControlMessage \<and> dec_request J b = Some q"
  shows "handle_loop K J cs ok k s d = calls K cs ok k (map snd bqs) d"
  using assms
proof (induction bqs arbitrary: k s d)
  case Nil
  then show ?case using readFrame_end [of s] by (cases k) (auto split: prod.splits option.splits)
next
  case (Cons bq bqs)
  obtain b q where bq: "bq = (b, q)" by (cases bq)
  show ?case
  proof (cases k)
    case (Suc j)
    have "0 < length b" "length b \<le> maxControlMessage" and q: "dec_request J b = Some q"
      using Cons.prems(2) by (auto simp: bq)
    with Cons.prems(1) obtain s1 where s1: "readFrame s = (Some b, s1)"
      "fst (content s1) = concat (map (\<lambda>(b, q). put32 (length b) @ b) bqs)"
      using readFrame_frame [of b s] by (auto simp: bq)
    have "handle_loop K J cs ok j s1 d1 = calls K cs ok j (map snd bqs) d1" for d1
      using Cons.IH [OF s1(2)] Cons.prems(2) by simp
    then show ?thesis by (simp add: Suc s1(1) q bq)
  qed (simp add: bq)
qed

lemma calls_shape:
  "calls K cs ok k qs d = (rs, d') \<Longrightarrow>
   map r_ID rs = map q_ID (take k qs) \<and> (\<forall>r \<in> set rs. r_OK r \<longleftrightarrow> r_Error r = None)"
  by (induction K cs ok k qs d arbitrary: rs d' rule: calls.induct)
    (auto simp: response_to_def split: prod.splits sum.splits)

text \<open>C32: requests are answered one by one, in order, up to the 32nd. When a client sends well-formed requests,
  in whatever pieces they arrive, the connection carries out the calls of the first 32 in order and
  writes one frame for each, with its id, and nothing else; a response reports success exactly when
  it carries no error.\<close>

theorem control_answers:
  assumes "fst (content s) = concat (map (\<lambda>(b, q). put32 (length b) @ b) bqs)"
    and "\<forall>(b, q) \<in> set bqs. b \<noteq> [] \<and> length b \<le> maxControlMessage \<and> dec_request J b = Some q"
  shows "\<exists>rs d1. calls K cs ok maxRequests (map snd bqs) (d\<lparr>h := AddConnection (h d)\<rparr>) = (rs, d1)
    \<and> handle_control K J cs ok s d = (sent_frames J rs, d1\<lparr>h := DoneConnection (h d1)\<rparr>)
    \<and> map r_ID rs = map q_ID (take 32 (map snd bqs)) \<and> (\<forall>r \<in> set rs. r_OK r \<longleftrightarrow> r_Error r = None)"
proof -
  obtain rs d1 where c: "calls K cs ok maxRequests (map snd bqs) (d\<lparr>h := AddConnection (h d)\<rparr>) = (rs, d1)"
    by (metis surj_pair)
  then have "handle_control K J cs ok s d = (sent_frames J rs, d1\<lparr>h := DoneConnection (h d1)\<rparr>)"
    by (simp add: handle_control_def handle_loop_calls [OF assms])
  with c calls_shape [OF c] show ?thesis by (simp add: maxRequests_def)
qed

section \<open>The client\<close>

text \<open>\<open>RequestWithParams\<close> on an open connection: the frame it writes and the answer it reads.\<close>

definition RequestWithParams :: "(request_msg \<Rightarrow> bytes option) \<Rightarrow> string \<Rightarrow> bytes option \<Rightarrow> (bytes \<Rightarrow> stream) \<Rightarrow> bytes option"
where
  "RequestWithParams enc_request method params peer =
     (case params of
        None \<Rightarrow> None
      | Some encoded \<Rightarrow>
          (case writeFrame (enc_request \<lparr>q_Version = 1, q_ID = ''local'', q_Method = method, q_Action = '''',
                                         q_Params = encoded\<rparr>) of
             None \<Rightarrow> None
           | Some f \<Rightarrow> fst (readFrame (peer f))))"

section \<open>A concrete exchange\<close>

definition sample_call :: request_msg where
  "sample_call = \<lparr>q_Version = 1, q_ID = ''7'', q_Method = '''', q_Action = ''bypass_on'', q_Params = []\<rparr>"

definition sample_json :: json where
  "sample_json = \<lparr>dec_request = \<lambda>b. if b = [1, 2] then Some sample_call else None, enc_response = \<lambda>r. Some [1]\<rparr>"

definition sample_daemon :: "unit daemon" where
  "sample_daemon = \<lparr>h = new_state, markers = {}, policy_state = ()\<rparr>"

definition sample_socket :: stream where
  "sample_socket = [([0, 0], None), ([0, 2, 1], None), ([2], None)]"

theorem frame_roundtrip_witness: "\<exists>s'. readFrame sample_socket = (Some [1, 2], s') \<and> fst (content s') = []"
  using frame_roundtrip [of "[1, 2]" "[0, 0, 0, 2, 1, 2]" sample_socket "[]"]
  by (simp add: writeFrame_def maxControlMessage_def put32_def sample_socket_def)

theorem control_only_opens_bypass_witness:
  "\<exists>out d'. handle_control sample_codecs sample_json new_control_with_state (\<lambda>_. True) sample_socket sample_daemon = (out, d')
     \<and> Bypass \<notin> markers d'"
proof -
  have k: "keeps_bypass (new_control_with_state :: unit control_server)"
    by (simp add: keeps_bypass_def new_control_with_state_def)
  obtain out d' where r: "handle_control sample_codecs sample_json new_control_with_state (\<lambda>_. True)
      sample_socket sample_daemon = (out, d')"
    by (metis surj_pair)
  from control_only_opens_bypass [OF k r] r show ?thesis
    by (simp add: sample_daemon_def new_control_with_state_def)
qed

theorem control_answers_witness:
  "\<exists>d1. handle_control sample_codecs sample_json new_control_with_state (\<lambda>_. True) sample_socket sample_daemon
     = ([0, 0, 0, 1, 1], d1)"
proof -
  have "fst (content sample_socket) = concat (map (\<lambda>(b, q). put32 (length b) @ b) [([1, 2], sample_call)])"
    "\<forall>(b, q) \<in> set [([1, 2], sample_call)]. b \<noteq> [] \<and> length b \<le> maxControlMessage \<and> dec_request sample_json b = Some q"
    by (simp_all add: sample_socket_def put32_def maxControlMessage_def sample_json_def)
  from control_answers [OF this, of sample_codecs new_control_with_state "\<lambda>_. True" sample_daemon]
  obtain rs d1 where rs: "handle_control sample_codecs sample_json new_control_with_state (\<lambda>_. True) sample_socket
      sample_daemon = (sent_frames sample_json rs, d1)" and ids: "map r_ID rs = [q_ID sample_call]"
    by auto
  then obtain r where "rs = [r]" by (cases rs) auto
  then have "sent_frames sample_json rs = [0, 0, 0, 1, 1]"
    by (simp add: sent_frames_def sample_json_def writeFrame_def maxControlMessage_def put32_def)
  with rs show ?thesis by simp
qed

end
