(* ===== verification/Transparent.thy ===== *)
theory Transparent
  imports Classifier Stream_IO "HOL-Library.Sublist"
begin

text \<open>
  The transparent front end, \<open>internal/proxy/transparent_server.go\<close> and \<open>dual_listener.go\<close>:
  \<open>readAndClassify\<close> with the replay of what it read, the life of a connection in \<open>routeTransparent\<close> and
  \<open>ConnState\<close> with its connection slot, the relay of passed-through connections, the listener queue
  and the dual-stack listener.

  A connection is the stream of its reads; a deadline that expires is a read error of the stream.
\<close>

section \<open>Reading the ClientHello\<close>

definition maxClientHello :: nat where "maxClientHello = 65536"

text \<open>A \<open>net.Addr\<close>: a \<open>*net.TCPAddr\<close>, or another type with its network and its string.\<close>

datatype addr = TCPAddr ip int | OtherAddr string string

fun tcp_port :: "addr \<Rightarrow> int" where
  "tcp_port (TCPAddr ip port) = port"
| "tcp_port (OtherAddr network s) = 0"

fun tcp_ip :: "addr \<Rightarrow> ip" where
  "tcp_ip (TCPAddr ip port) = ip"
| "tcp_ip (OtherAddr network s) = []"

definition classify_policy :: "(string \<times> bool) list \<Rightarrow> policy" where
  "classify_policy allow =
     \<lparr>MaxHello = int maxClientHello, AllowSNI = allow, AllowDestination = [(''*'', True)]\<rparr>"

definition whole_record :: "bytes \<Rightarrow> bool" where
  "whole_record pre \<longleftrightarrow> length pre \<ge> 5 \<and> pre ! 0 = 22 \<and> be16_at pre 3 + 5 \<le> length pre"

definition not_a_handshake :: "bytes \<Rightarrow> bool" where
  "not_a_handshake pre \<longleftrightarrow> length pre \<ge> 5 \<and> pre ! 0 \<noteq> 22"

text \<open>The loop; \<open>None\<close> is a run-time panic of the classifier.\<close>

function classify_loop ::
  "addr \<Rightarrow> (string \<times> bool) list \<Rightarrow> bytes \<Rightarrow> stream \<Rightarrow> ((bytes \<times> decision) \<times> stream) option"
where
  "classify_loop dst allow pre s =
     (if length pre < maxClientHello then
        (case read_stream 2048 s of
           ((p, err), s') \<Rightarrow>
             (case Classify (pre @ p) (tcp_ip dst) (tcp_port dst) (classify_policy allow) of
                None \<Rightarrow> None
              | Some result \<Rightarrow>
                  if Decision result = MITM then Some ((pre @ p, MITM), s')
                  else if whole_record (pre @ p) then Some ((pre @ p, Passthrough), s')
                  else if length (pre @ p) \<ge> maxClientHello \<or> err \<noteq> None
                  then Some ((pre @ p, Passthrough), s')
                  else if not_a_handshake (pre @ p) then Some ((pre @ p, Passthrough), s')
                  else classify_loop dst allow (pre @ p) s'))
      else Some ((pre, Passthrough), s))"
  by pat_completeness auto

termination classify_loop
  by (relation "measure (\<lambda>(dst, allow, pre, s). stream_size s)") (auto dest!: read_stream_size [OF sym])

declare classify_loop.simps [simp del]

definition readAndClassify ::
  "stream \<Rightarrow> addr \<Rightarrow> (string \<times> bool) list \<Rightarrow> ((bytes \<times> decision) \<times> stream) option"
where
  "readAndClassify conn dst allow = classify_loop dst allow [] conn"

text \<open>\<open>tlsServerWithPrefix\<close> reads the prefix first: \<open>io.MultiReader\<close>.\<close>

definition tlsServerWithPrefix :: "bytes \<Rightarrow> stream \<Rightarrow> stream" where
  "tlsServerWithPrefix front conn = (front, None) # conn"

lemma content_prefixed: "content (tlsServerWithPrefix b s) = (b @ fst (content s), snd (content s))"
  by (simp add: tlsServerWithPrefix_def)

lemma classify_total: "\<exists>r. Classify hello ip port p = Some r"
  using Classify_decides by blast

lemma classify_loop_spec:
  "\<exists>b d s'. classify_loop dst allow pre s = Some ((b, d), s')
    \<and> content (tlsServerWithPrefix b s') = content (tlsServerWithPrefix pre s)
    \<and> length b \<le> max (length pre) (maxClientHello + 2047)
    \<and> (d = MITM \<longrightarrow> (\<exists>r. Classify b (tcp_ip dst) (tcp_port dst) (classify_policy allow) = Some r \<and> Decision r = MITM))"
proof (induction dst allow pre s rule: classify_loop.induct)
  case (1 dst allow pre s)
  show ?case
  proof (cases "length pre < maxClientHello")
    case False
    then show ?thesis by (subst classify_loop.simps) simp
  next
    case True
    obtain p err s' where rd: "read_stream 2048 s = ((p, err), s')" by (metis surj_pair)
    obtain r where r: "Classify (pre @ p) (tcp_ip dst) (tcp_port dst) (classify_policy allow) = Some r"
      using classify_total by blast
    have f: "fst (content s) = p @ fst (content s')" "snd (content s') = snd (content s)" "length p \<le> 2048"
      using body.read_front [OF rd] body.read_bounded [OF rd] by auto
    have here: "content (tlsServerWithPrefix (pre @ p) s') = content (tlsServerWithPrefix pre s)"
      "length (pre @ p) \<le> max (length pre) (maxClientHello + 2047)"
      using f True by (simp_all add: content_prefixed)
    show ?thesis
    proof (cases "Decision r = MITM \<or> whole_record (pre @ p) \<or> length (pre @ p) \<ge> maxClientHello
        \<or> err \<noteq> None \<or> not_a_handshake (pre @ p)")
      case True
      then show ?thesis
        using here r \<open>length pre < maxClientHello\<close>
        by (subst classify_loop.simps) (auto simp: rd)
    next
      case False
      moreover have "err = None" using False by simp
      ultimately show ?thesis
        using "1.IH" [OF True rd [symmetric] refl r] here r True
        by (subst classify_loop.simps) (auto simp: rd)
    qed
  qed
qed

lemma readAndClassify_facts:
  "\<exists>b d s'. readAndClassify s dst allow = Some ((b, d), s')
    \<and> content (tlsServerWithPrefix b s') = content s
    \<and> length b \<le> 67583
    \<and> (d = MITM \<longrightarrow> tcp_port dst = 443 \<and> (\<exists>name. parseSNI b = Some (Some name)
         \<and> NormalizeSNI name \<noteq> '''' \<and> enabled (map_of allow) (NormalizeSNI name)))"
proof -
  obtain b d s' where r: "readAndClassify s dst allow = Some ((b, d), s')"
    "content (tlsServerWithPrefix b s') = content (tlsServerWithPrefix [] s)"
    "length b \<le> max (length ([] :: bytes)) (maxClientHello + 2047)"
    "d = MITM \<Longrightarrow> \<exists>r. Classify b (tcp_ip dst) (tcp_port dst) (classify_policy allow) = Some r \<and> Decision r = MITM"
    using classify_loop_spec [of dst allow "[]" s] unfolding readAndClassify_def by blast
  moreover have "tcp_port dst = 443 \<and> (\<exists>name. parseSNI b = Some (Some name)
         \<and> NormalizeSNI name \<noteq> '''' \<and> enabled (map_of allow) (NormalizeSNI name))" if "d = MITM"
    using r(4) [OF that] Classify_decides [of b "tcp_ip dst" "tcp_port dst" "classify_policy allow"]
    by (auto simp: classify_policy_def)
  ultimately show ?thesis by (intro exI [of _ b] exI [of _ d] exI [of _ s']) (simp add: content_prefixed maxClientHello_def)
qed


text \<open>C38: nothing a client sent is lost. Whatever the reads of a connection return, \<open>readAndClassify\<close>
  returns: with its bytes put in front, the connection delivers exactly what it delivered before the
  first read, at most 67583 bytes are held, and interception is decided only where the bytes held name
  an allowlisted host and the original destination is port 443.\<close>

theorem readAndClassify_replays:
  "\<exists>b d s'. readAndClassify s dst allow = Some ((b, d), s')
    \<and> content (tlsServerWithPrefix b s') = content s
    \<and> length b \<le> 67583
    \<and> (d = MITM \<longrightarrow> tcp_port dst = 443 \<and> (\<exists>name. parseSNI b = Some (Some name)
         \<and> NormalizeSNI name \<noteq> '''' \<and> enabled (map_of allow) (NormalizeSNI name)))"
  by (rule readAndClassify_facts)

lemma whole_record_prefix:
  assumes "whole_record r" and "length r = be16_at r 3 + 5" and "strict_prefix q r"
  shows "\<not> whole_record q" and "\<not> not_a_handshake q"
proof -
  obtain t where t: "r = q @ t" "0 < length t" using assms(3) by (auto simp: strict_prefix_def prefix_def)
  have "be16_at q 3 = be16_at r 3" "q ! 0 = r ! 0" if "5 \<le> length q"
    using that by (auto simp: t be16_at_def nth_append)
  moreover have "length q < be16_at r 3 + 5" using assms(2) t by (metis length_append less_add_same_cancel1)
  ultimately show "\<not> whole_record q" "\<not> not_a_handshake q"
    using assms(1) by (auto simp: whole_record_def not_a_handshake_def)
qed

lemma classify_loop_finds:
  assumes "whole_record r" and "length r = be16_at r 3 + 5" and "length r + 2047 \<le> maxClientHello"
    and found: "\<And>more. length (r @ more) \<le> maxClientHello \<Longrightarrow>
      \<exists>c. Classify (r @ more) (tcp_ip dst) (tcp_port dst) (classify_policy allow) = Some c \<and> Decision c = MITM"
    and "strict_prefix pre r" and "prefix r (pre @ fst (content s))"
  shows "\<exists>b s'. classify_loop dst allow pre s = Some ((b, MITM), s')"
  using assms(5,6)
proof (induction "stream_size s" arbitrary: pre s rule: less_induct)
  case less
  have small: "length pre < length r" using less.prems(1) by (auto simp: strict_prefix_def prefix_def)
  obtain p err s' where rd: "read_stream 2048 s = ((p, err), s')" by (metis surj_pair)
  note f = body.read_front [OF rd] body.read_bounded [OF rd]
  obtain c where c: "Classify (pre @ p) (tcp_ip dst) (tcp_port dst) (classify_policy allow) = Some c"
    using classify_total by blast
  show ?case
  proof (cases "prefix r (pre @ p)")
    case True
    then obtain more where more: "pre @ p = r @ more" by (auto simp: prefix_def)
    have "length (r @ more) \<le> maxClientHello"
      using small f assms(3) arg_cong [OF more, of length] by simp
    from found [OF this] c have "Decision c = MITM" by (simp add: more)
    then show ?thesis
      using small assms(3) c by (subst classify_loop.simps) (auto simp: rd)
  next
    case False
    have "prefix r ((pre @ p) @ fst (content s'))" using less.prems(2) f by simp
    then have sp: "strict_prefix (pre @ p) r"
      using False by (metis prefix_append prefix_order.dual_order.strict_iff_order prefix_same_cases prefixI)
    have "err = None"
    proof (rule ccontr)
      assume "err \<noteq> None"
      then have "fst (content s) = p" using body.read_last rd by (metis not_None_eq fst_conv)
      with less.prems(2) False show False by simp
    qed
    then have "\<exists>b s''. classify_loop dst allow (pre @ p) s' = Some ((b, MITM), s'')"
      using sp f less.prems(2) rd by (intro less.hyps read_stream_size) auto
    moreover have "length (pre @ p) < maxClientHello"
      using sp assms(3) by (auto simp: strict_prefix_def prefix_def)
    ultimately show ?thesis
      using \<open>err = None\<close> c whole_record_prefix [OF assms(1,2) sp]
      by (subst classify_loop.simps) (auto simp: rd)
  qed
qed

lemma record_shape:
  assumes "length version = 2" and "length body + 4 < 65536"
  shows "whole_record (hello_record version body [])"
    and "length (hello_record version body []) = be16_at (hello_record version body []) 3 + 5"
    and "hello_record version body rest = hello_record version body [] @ rest"
proof -
  obtain v1 v2 where v: "version = [v1, v2]"
    using assms(1) by (auto simp: numeral_2_eq_2 length_Suc_conv)
  have "be16_at (hello_record version body []) 3 = length body + 4"
    using be16_at_put16 [of 3 "[22, v1, v2]" "length body + 4"] assms(2) by (simp add: hello_record_def v)
  then show "whole_record (hello_record version body [])"
    and "length (hello_record version body []) = be16_at (hello_record version body []) 3 + 5"
    by (auto simp: whole_record_def hello_record_def v put24_def)
  show "hello_record version body rest = hello_record version body [] @ rest"
    by (simp add: hello_record_def)
qed

lemma classify_hello:
  assumes "parseSNI b = Some (Some name)" and "length b \<le> maxClientHello" and "tcp_port dst = 443"
    and "NormalizeSNI name \<noteq> ''''" and "enabled (map_of allow) (NormalizeSNI name)"
  shows "\<exists>c. Classify b (tcp_ip dst) (tcp_port dst) (classify_policy allow) = Some c \<and> Decision c = MITM"
proof -
  have "enabled (map_of [(''*'', True)]) ''*''" by (simp add: enabled_def)
  moreover have "\<not> int (length b) > int maxClientHello" "0 < int maxClientHello"
    using assms(2) by (simp_all add: maxClientHello_def)
  ultimately show ?thesis
    using assms(1,3,4,5) by (simp add: Classify_def classify_policy_def Let_def)
qed

lemma hello_is_intercepted:
  assumes "length fixed = 34" and "length version = 2" and "name \<noteq> []"
    and "length session < 256" and "length compression < 256"
    and "list_all (\<lambda>(t, x). t < 65536 \<and> length x < 65536 \<and> (t = 0 \<longrightarrow> length x < 5)) before"
    and "length (hello_bytes fixed session ciphers compression before name after) \<le> 63480"
    and "fst (content s) = hello_record version (hello_bytes fixed session ciphers compression before name after) rest"
    and "tcp_port dst = 443" and "NormalizeSNI (go_string name) \<noteq> ''''"
    and "enabled (map_of allow) (NormalizeSNI (go_string name))"
  shows "\<exists>b s'. readAndClassify s dst allow = Some ((b, MITM), s')"
proof -
  define h where "h = hello_bytes fixed session ciphers compression before name after"
  define r where "r = hello_record version h []"
  have small: "length h + 4 < 65536" using assms(7) by (simp add: h_def)
  note shape = record_shape [OF assms(2) small]
  have len: "length r = length h + 9" using assms(2) by (simp add: r_def hello_record_def put24_def)
  have "\<exists>c. Classify (r @ more) (tcp_ip dst) (tcp_port dst) (classify_policy allow) = Some c \<and> Decision c = MITM"
    if "length (r @ more) \<le> maxClientHello" for more
  proof -
    have "parseSNI (r @ more) = Some (Some (go_string name))"
      using parseSNI_hello [OF assms(1-6) small [unfolded h_def], of more]
      by (simp only: r_def h_def shape(3) [unfolded h_def, of more, symmetric])
    then show ?thesis
      by (rule classify_hello [OF _ that assms(9-11)])
  qed
  moreover have "whole_record r" "length r = be16_at r 3 + 5" using shape(1,2) by (simp_all add: r_def)
  moreover have "strict_prefix [] r" using len by (cases r) auto
  moreover have "prefix r ([] @ fst (content s))"
    using shape(3) [of rest] assms(8) by (simp add: r_def h_def)
  moreover have "length r + 2047 \<le> maxClientHello"
    using len assms(7) by (simp add: h_def maxClientHello_def)
  ultimately show ?thesis
    unfolding readAndClassify_def by (intro classify_loop_finds [of r]) auto
qed

text \<open>C13: the interception decision does not depend on how the network cuts the stream. A connection to
  port 443 that opens with a well-formed ClientHello for an allowlisted name is intercepted, whatever
  follows the record and in whatever pieces the bytes arrive, for records of up to 63489 bytes.\<close>

theorem hello_intercepted:
  assumes "length fixed = 34" and "length version = 2" and "name \<noteq> []"
    and "length session < 256" and "length compression < 256"
    and "list_all (\<lambda>(t, x). t < 65536 \<and> length x < 65536 \<and> (t = 0 \<longrightarrow> length x < 5)) before"
    and "length (hello_bytes fixed session ciphers compression before name after) \<le> 63480"
    and "fst (content s) = hello_record version (hello_bytes fixed session ciphers compression before name after) rest"
    and "tcp_port dst = 443" and "NormalizeSNI (go_string name) \<noteq> ''''"
    and "enabled (map_of allow) (NormalizeSNI (go_string name))"
  shows "\<exists>b s'. readAndClassify s dst allow = Some ((b, MITM), s')"
  by (rule hello_is_intercepted [OF assms])

definition sample_hello :: stream where
  "sample_hello = [([22, 3, 3], None), (drop 3 (hello_record [3, 3]
     (hello_bytes (replicate 34 0) [7] [0x13, 0x01] [0] [(10, [0, 2, 0, 29])] [97, 46, 98] []) [1, 2]), None)]"

lemma sample_hello_facts:
  "length (hello_bytes (replicate 34 0) [7] [0x13, 0x01] [0] [(10, [0, 2, 0, 29])] [97, 46, 98] []) \<le> 63480"
  "fst (content sample_hello) = hello_record [3, 3]
     (hello_bytes (replicate 34 0) [7] [0x13, 0x01] [0] [(10, [0, 2, 0, 29])] [97, 46, 98] []) [1, 2]"
  "NormalizeSNI (go_string [97, 46, 98]) = ''a.b''"
proof -
  have "go_string [97, 46, 98] = ''a.b''" by code_simp
  then show "NormalizeSNI (go_string [97, 46, 98]) = ''a.b''"
    by (simp add: NormalizeSNI_plain plain_char_def TrimSuffix_def HasSuffix_def)
qed (simp_all add: sample_hello_def hello_record_def hello_bytes_def extension_def sni_extension_def)

theorem hello_intercepted_witness:
  "\<exists>b s'. readAndClassify sample_hello (TCPAddr [10, 0, 0, 1] 443) [(''a.b'', True)] = Some ((b, MITM), s')"
  by (rule hello_intercepted [OF _ _ _ _ _ _ sample_hello_facts(1,2)])
    (simp_all add: sample_hello_facts(3) enabled_def)

theorem readAndClassify_replays_witness:
  "\<exists>b d s'. readAndClassify sample_hello (TCPAddr [10, 0, 0, 1] 80) [(''a.b'', True)] = Some ((b, d), s')
     \<and> d \<noteq> MITM \<and> b @ fst (content s') = fst (content sample_hello)"
  using readAndClassify_replays [of sample_hello "TCPAddr [10, 0, 0, 1] 80" "[(''a.b'', True)]"]
  by (auto simp: content_prefixed dest!: arg_cong [of "(_, _)" _ fst])

lemma sample_hello_intercepted:
  "\<exists>b s'. readAndClassify sample_hello (TCPAddr [10, 0, 0, 1] 443) [(''a.b'', True)] = Some ((b, MITM), s')"
  by (rule hello_is_intercepted [OF _ _ _ _ _ _ sample_hello_facts(1,2)])
    (simp_all add: sample_hello_facts(3) enabled_def)

section \<open>The relay of a passed-through connection\<close>

text \<open>
  \<open>relayPrefixed\<close> writes the prefix to the upstream and then runs one \<open>io.Copy\<close> in each direction until
  either returns; both connections are then closed. A step is one read and one write of a copy: the
  schedule says which copy runs, and how many bytes of its write are accepted when the write fails.
\<close>

datatype side = Up | Down

datatype copy_end = Finished | ReadFailed io_error | WriteFailed

record relay =
  from_client :: stream
  to_upstream :: bytes
  from_upstream :: stream
  to_client :: bytes
  result :: "(side \<times> copy_end) option"

definition copy_buffer :: nat where "copy_buffer = 32768"

text \<open>One round of \<open>io.Copy\<close>: what is written, what is left to read, and how the copy ends.\<close>

definition copy_round :: "stream \<Rightarrow> nat option \<Rightarrow> bytes \<times> stream \<times> copy_end option" where
  "copy_round src fault =
     (case read_stream copy_buffer src of
        ((p, err), rest) \<Rightarrow>
          (case fault of
             Some n \<Rightarrow> if p \<noteq> [] then (take n p, rest, Some WriteFailed)
                       else (p, rest, map_option (\<lambda>e. if e = EOF then Finished else ReadFailed e) err)
           | None \<Rightarrow> (p, rest, map_option (\<lambda>e. if e = EOF then Finished else ReadFailed e) err)))"

fun relay_step :: "side \<times> nat option \<Rightarrow> relay \<Rightarrow> relay" where
  "relay_step (Up, fault) r =
     (if result r \<noteq> None then r
      else case copy_round (from_client r) fault of
        (p, rest, ended) \<Rightarrow>
          r\<lparr>from_client := rest, to_upstream := to_upstream r @ p, result := map_option (Pair Up) ended\<rparr>)"
| "relay_step (Down, fault) r =
     (if result r \<noteq> None then r
      else case copy_round (from_upstream r) fault of
        (p, rest, ended) \<Rightarrow>
          r\<lparr>from_upstream := rest, to_client := to_client r @ p, result := map_option (Pair Down) ended\<rparr>)"

text \<open>The start: the dial, then the write of the prefix, which may fail after \<open>n\<close> bytes.\<close>

definition relay_start :: "bytes \<Rightarrow> stream \<Rightarrow> stream option \<Rightarrow> nat option \<Rightarrow> relay option" where
  "relay_start front conn upstream fault =
     (case upstream of
        None \<Rightarrow> None
      | Some up \<Rightarrow> Some
          \<lparr>from_client = conn, to_upstream = (case fault of None \<Rightarrow> front | Some n \<Rightarrow> take n front),
           from_upstream = up, to_client = [],
           result = (case fault of None \<Rightarrow> None | Some n \<Rightarrow> Some (Up, WriteFailed))\<rparr>)"

definition relayPrefixed ::
  "bytes \<Rightarrow> stream \<Rightarrow> stream option \<Rightarrow> nat option \<Rightarrow> (side \<times> nat option) list \<Rightarrow> relay option"
where
  "relayPrefixed front conn upstream fault sched =
     map_option (fold relay_step sched) (relay_start front conn upstream fault)"

text \<open>The rounds of one direction in a schedule.\<close>

definition copies :: "side \<Rightarrow> (side \<times> nat option) list \<Rightarrow> nat" where
  "copies x sched = length (filter (\<lambda>q. fst q = x) sched)"

lemma copies_simps [simp]:
  "copies x [] = 0" "copies x (q # sched) = (if fst q = x then Suc (copies x sched) else copies x sched)"
  by (simp_all add: copies_def)

lemma copy_round_running:
  assumes "copy_round src fault = (p, rest, None)"
  shows "fst (content src) = p @ fst (content rest)" and "snd (content rest) = snd (content src)"
    and "stream_size rest < stream_size src"
proof -
  obtain q err rest' where rd: "read_stream copy_buffer src = ((q, err), rest')" by (metis surj_pair)
  have c: "err = None" "q = p" "rest' = rest"
    using assms by (auto simp: copy_round_def rd split: option.splits if_splits)
  then show "fst (content src) = p @ fst (content rest)" "snd (content rest) = snd (content src)"
    using body.read_front [OF rd] by simp_all
  show "stream_size rest < stream_size src"
    using read_stream_size [of copy_buffer src q rest'] rd c by (simp add: copy_buffer_def)
qed

text \<open>How a copy ends: with everything its source delivers and the source's own error, or by a failed write.\<close>

fun copy_result :: "bytes \<times> io_error \<Rightarrow> bytes \<Rightarrow> bool \<Rightarrow> copy_end \<Rightarrow> bool" where
  "copy_result source copied faulty Finished \<longleftrightarrow> source = (copied, EOF)"
| "copy_result source copied faulty (ReadFailed e) \<longleftrightarrow> source = (copied, e) \<and> e \<noteq> EOF"
| "copy_result source copied faulty WriteFailed \<longleftrightarrow> faulty"

lemma copy_round_ended:
  assumes "copy_round src fault = (p, rest, Some e)"
  shows "prefix p (fst (content src))" and "copy_result (content src) p (fault \<noteq> None) e"
proof -
  obtain q err rest' where rd: "read_stream copy_buffer src = ((q, err), rest')" by (metis surj_pair)
  have all: "content src = (q, x)" if "err = Some x" for x
    using that body.read_last rd by blast
  show "prefix p (fst (content src))"
    using assms body.read_front [OF rd]
    by (auto simp: copy_round_def rd take_is_prefix prefix_prefix split: option.splits if_splits)
  show "copy_result (content src) p (fault \<noteq> None) e"
    using assms by (auto simp: copy_round_def rd all split: option.splits if_splits)
qed

lemma copy_result_mono:
  "copy_result source copied faulty e \<Longrightarrow> (faulty \<Longrightarrow> faulty') \<Longrightarrow> copy_result source copied faulty' e"
  by (cases e) auto

text \<open>
  A relay of the streams \<open>up\<close> and \<open>down\<close> after the rounds \<open>past\<close>, where \<open>short\<close> says that the write of the
  prefix failed and \<open>n\<close> and \<open>m\<close> are the sizes of the streams: nothing is lost while both copies run and
  every round makes progress, and the copy that ended first ended for a reason.
\<close>

definition faulty :: "bool \<Rightarrow> (side \<times> nat option) list \<Rightarrow> side \<Rightarrow> bool" where
  "faulty short past x \<longleftrightarrow> (short \<and> x = Up) \<or> (\<exists>k. (x, Some k) \<in> set past)"

definition relayed ::
  "bytes \<times> io_error \<Rightarrow> bytes \<times> io_error \<Rightarrow> nat \<Rightarrow> nat \<Rightarrow> bool \<Rightarrow> (side \<times> nat option) list \<Rightarrow> relay \<Rightarrow> bool"
where
  "relayed up down n m short past r \<longleftrightarrow>
     prefix (to_upstream r) (fst up) \<and> prefix (to_client r) (fst down)
     \<and> (case result r of
          None \<Rightarrow> (to_upstream r @ fst (content (from_client r)), snd (content (from_client r))) = up
                \<and> (to_client r @ fst (content (from_upstream r)), snd (content (from_upstream r))) = down
                \<and> copies Up past + stream_size (from_client r) \<le> n
                \<and> copies Down past + stream_size (from_upstream r) \<le> m
        | Some (Up, e) \<Rightarrow> copy_result up (to_upstream r) (faulty short past Up) e
        | Some (Down, e) \<Rightarrow> copy_result down (to_client r) (faulty short past Down) e)"

lemma relayed_step: "relayed up down n m short past r \<Longrightarrow> relayed up down n m short (past @ [q]) (relay_step q r)"
proof (cases "result r")
  case None
  assume r: "relayed up down n m short past r"
  obtain sd fault where q: "q = (sd, fault)" by (cases q)
  show ?thesis
  proof (cases sd)
    case Up
    obtain p rest ended where c: "copy_round (from_client r) fault = (p, rest, ended)" by (metis prod_cases3)
    show ?thesis
    proof (cases ended)
      case None
      with r copy_round_running [OF c [unfolded None]] show ?thesis
        by (auto simp: relayed_def q Up \<open>result r = None\<close> c copies_def)
    next
      case (Some e)
      note f = copy_round_ended [OF c [unfolded Some]]
      have "copy_result up (to_upstream r @ p) (fault \<noteq> None) e"
        using f(2) r by (cases e) (auto simp: relayed_def \<open>result r = None\<close>)
      then have "copy_result up (to_upstream r @ p) (faulty short (past @ [q]) Up) e"
        by (rule copy_result_mono) (auto simp: faulty_def q Up)
      with r f(1) show ?thesis
        by (auto simp: relayed_def q Up \<open>result r = None\<close> c Some)
    qed
  next
    case Down
    obtain p rest ended where c: "copy_round (from_upstream r) fault = (p, rest, ended)" by (metis prod_cases3)
    show ?thesis
    proof (cases ended)
      case None
      with r copy_round_running [OF c [unfolded None]] show ?thesis
        by (auto simp: relayed_def q Down \<open>result r = None\<close> c copies_def)
    next
      case (Some e)
      note f = copy_round_ended [OF c [unfolded Some]]
      have "copy_result down (to_client r @ p) (fault \<noteq> None) e"
        using f(2) r by (cases e) (auto simp: relayed_def \<open>result r = None\<close>)
      then have "copy_result down (to_client r @ p) (faulty short (past @ [q]) Down) e"
        by (rule copy_result_mono) (auto simp: faulty_def q Down)
      with r f(1) show ?thesis
        by (auto simp: relayed_def q Down \<open>result r = None\<close> c Some)
    qed
  qed
next
  case (Some x)
  assume r: "relayed up down n m short past r"
  have "relay_step q r = r" using Some by (cases q; cases "fst q") auto
  moreover have "relayed up down n m short (past @ [q]) r"
    using r by (auto simp: relayed_def Some faulty_def split: prod.splits side.splits elim!: copy_result_mono)
  ultimately show ?thesis by simp
qed

lemma relayed_run:
  "relayed up down n m short past r \<Longrightarrow> relayed up down n m short (past @ sched) (fold relay_step sched r)"
proof (induction sched arbitrary: r past)
  case (Cons q sched)
  from Cons.IH [OF relayed_step [OF Cons.prems]] show ?case by simp
qed simp

lemma passthrough_relayed:
  assumes "readAndClassify s dst allow = Some ((b, d), s')"
    and "relayPrefixed b s' (Some up) fault sched = Some r"
  shows "relayed (content s) (content up) (stream_size s') (stream_size up) (fault \<noteq> None) sched r"
proof -
  have "(b @ fst (content s'), snd (content s')) = content s"
    using readAndClassify_facts [of s dst allow] assms(1) by (auto simp: content_prefixed)
  moreover obtain r0 where r0: "relay_start b s' (Some up) fault = Some r0" "r = fold relay_step sched r0"
    using assms(2) by (auto simp: relayPrefixed_def)
  ultimately have "relayed (content s) (content up) (stream_size s') (stream_size up) (fault \<noteq> None) [] r0"
    by (auto simp: relay_start_def relayed_def take_is_prefix prefix_prefix prefixI faulty_def
        dest!: sym [of "(_, _)" "content s"] split: option.splits)
  from relayed_run [OF this, of sched] show ?thesis by (simp add: r0)
qed

text \<open>C14: a connection that is not intercepted is relayed byte for byte. While the relay runs, what the
  upstream was sent with what is still to be read of the client is what the client sends, from its first
  byte and including the bytes read to classify it, and the same holds of the other direction; every
  round of a copy makes progress, so the rounds of a running relay are bounded by the sizes of its streams. When
  the relay has ended, both directions hold prefixes, and the copy that ended first either delivered
  everything its source has to give and reports the error of that source (none at its end), or one of
  its writes failed. The other direction may be cut short there.\<close>

theorem passthrough_transparent:
  assumes "readAndClassify s dst allow = Some ((b, d), s')"
    and "relayPrefixed b s' (Some up) fault sched = Some r"
  shows "prefix (to_upstream r) (fst (content s)) \<and> prefix (to_client r) (fst (content up))
    \<and> (case result r of
         None \<Rightarrow> to_upstream r @ fst (content (from_client r)) = fst (content s)
               \<and> to_client r @ fst (content (from_upstream r)) = fst (content up)
               \<and> copies Up sched + stream_size (from_client r) \<le> stream_size s'
               \<and> copies Down sched + stream_size (from_upstream r) \<le> stream_size up
       | Some (Up, Finished) \<Rightarrow> content s = (to_upstream r, EOF)
       | Some (Down, Finished) \<Rightarrow> content up = (to_client r, EOF)
       | Some (Up, ReadFailed e) \<Rightarrow> content s = (to_upstream r, e) \<and> e \<noteq> EOF
       | Some (Down, ReadFailed e) \<Rightarrow> content up = (to_client r, e) \<and> e \<noteq> EOF
       | Some (Up, WriteFailed) \<Rightarrow> fault \<noteq> None \<or> (\<exists>k. (Up, Some k) \<in> set sched)
       | Some (Down, WriteFailed) \<Rightarrow> (\<exists>k. (Down, Some k) \<in> set sched))"
  using passthrough_relayed [OF assms]
  by (auto simp: relayed_def faulty_def split: option.splits prod.splits side.splits copy_end.splits
      dest: arg_cong [of "(_, _)" _ fst])

theorem passthrough_transparent_witness:
  "\<exists>r. relayPrefixed [71, 69, 84, 32, 47] [] (Some [([7], None), ([8], None)]) None [(Down, None), (Up, None), (Down, None)]
     = Some r \<and> to_upstream r = [71, 69, 84, 32, 47] \<and> prefix (to_client r) [7, 8]"
proof -
  have c: "readAndClassify [([71, 69, 84, 32, 47], None)] (TCPAddr [10, 0, 0, 1] 80) []
      = Some (([71, 69, 84, 32, 47], Passthrough), [])"
    by (simp add: readAndClassify_def classify_loop.simps maxClientHello_def Classify_def Let_def
        whole_record_def not_a_handshake_def)
  obtain r where r: "relayPrefixed [71, 69, 84, 32, 47] [] (Some [([7], None), ([8], None)]) None
      [(Down, None), (Up, None), (Down, None)] = Some r"
    by (simp add: relayPrefixed_def relay_start_def)
  then have "result r = Some (Up, Finished)"
    by (auto simp: relayPrefixed_def relay_start_def copy_round_def copy_buffer_def)
  with passthrough_transparent [OF c r] r show ?thesis by simp
qed

text \<open>
  The relay ends with the copy that ends first: a client that half-closes its connection before the
  upstream has answered receives nothing, whatever the upstream was about to send and without any error.
\<close>

lemma half_close_truncates:
  "relayPrefixed b [] (Some up) None ((Up, None) # sched) = Some r \<Longrightarrow>
   result r = Some (Up, Finished) \<and> to_upstream r = b \<and> to_client r = []"
proof -
  have stay: "fold relay_step sched q = q" if "result q \<noteq> None" for q
    using that
  proof (induction sched)
    case (Cons x sched)
    then have "relay_step x q = q" by (cases x; cases "fst x") auto
    with Cons show ?case by simp
  qed simp
  show "relayPrefixed b [] (Some up) None ((Up, None) # sched) = Some r \<Longrightarrow> ?thesis"
    by (auto simp: relayPrefixed_def relay_start_def copy_round_def stay)
qed

section \<open>The listeners\<close>

text \<open>
  \<open>listenDual\<close>: \<open>listen4\<close> and \<open>listen6\<close> are \<open>net.ListenTCP\<close>, which bind a port (any free one for 0) and
  say which. The second component of the result is what is left bound.
\<close>

datatype listener = TCP4 int | TCP6 int

datatype listen_error = BadAddress | InvalidListenPort | Listen4Failed | Listen6Failed

definition listenDual ::
  "(int \<Rightarrow> int option) \<Rightarrow> (int \<Rightarrow> int option) \<Rightarrow> string \<Rightarrow> (listen_error + listener list) \<times> listener list"
where
  "listenDual listen4 listen6 address =
     (case SplitHostPort address of
        None \<Rightarrow> (Inl BadAddress, [])
      | Some (host, portText) \<Rightarrow>
          (case Atoi portText of
             None \<Rightarrow> (Inl InvalidListenPort, [])
           | Some port \<Rightarrow>
               if port < 0 \<or> port > 65535 then (Inl InvalidListenPort, [])
               else (case listen4 port of
                 None \<Rightarrow> (Inl Listen4Failed, [])
               | Some actualPort \<Rightarrow>
                   (case listen6 actualPort of
                      None \<Rightarrow> (Inl Listen6Failed, remove1 (TCP4 actualPort) [TCP4 actualPort])
                    | Some port6 \<Rightarrow> (Inr [TCP4 actualPort, TCP6 port6], [TCP4 actualPort, TCP6 port6])))))"

lemma listenDual_no_leak:
  "listenDual listen4 listen6 address = (r, bound) \<Longrightarrow> bound = (case r of Inl e \<Rightarrow> [] | Inr ls \<Rightarrow> ls)"
  by (auto simp: listenDual_def split: option.splits if_splits)

end
