(* ===== verification/Socks5.thy ===== *)
theory Socks5
  imports Transparent
begin

text \<open>
  The upstream proxy client, \<open>internal/proxy/socks5.go\<close>: \<open>newSOCKS5Dialer\<close> and \<open>socks5Connect\<close>, and the
  message format of RFC 1928 as the specification of what \<open>socks5Connect\<close> writes.

  A connection is what its reads will return, what was written to it, and the outcomes of its next
  writes.
\<close>

section \<open>Connections\<close>

record conn =
  inbound :: stream
  outbound :: bytes
  write_faults :: "bool list"
  open_conn :: bool

definition conn_Write :: "bytes \<Rightarrow> conn \<Rightarrow> bool \<times> conn" where
  "conn_Write p c =
     (case write_faults c of
        True # faults \<Rightarrow> (False, c\<lparr>write_faults := faults\<rparr>)
      | faults \<Rightarrow> (True, c\<lparr>outbound := outbound c @ p, write_faults := tl faults\<rparr>))"

definition conn_Close :: "conn \<Rightarrow> conn" where
  "conn_Close c = c\<lparr>open_conn := False\<rparr>"

definition ReadFull :: "nat \<Rightarrow> conn \<Rightarrow> bytes option \<times> conn" where
  "ReadFull n c =
     (case read_full n [] (inbound c) of
        ((p, None), s) \<Rightarrow> (Some p, c\<lparr>inbound := s\<rparr>)
      | ((p, Some e), s) \<Rightarrow> (None, c\<lparr>inbound := s\<rparr>))"

section \<open>The handshake\<close>

datatype socks_error =
    SocksWriteFailed | AuthRejected | BadTargetAddress | InvalidTargetPort | HostTooLong
  | SocksReadFailed | ConnectFailed byte | UnknownAddressType

text \<open>A slice that may be \<open>nil\<close>.\<close>

definition nil_or :: "nat list option \<Rightarrow> nat list" where
  "nil_or q = (case q of None \<Rightarrow> [] | Some xs \<Rightarrow> xs)"

text \<open>The request for an address, as the code builds it.\<close>

definition connect_request :: "string \<Rightarrow> nat \<Rightarrow> socks_error + bytes" where
  "connect_request host portNumber =
     (let request = [5, 1, 0]; p = put16 portNumber in
      case ParseIP host of
        Some ip \<Rightarrow>
          (case To4 ip of
             Some ip4 \<Rightarrow> Inr (request @ [1] @ map word_of_nat ip4 @ p)
           | None \<Rightarrow> Inr (request @ [4] @ map word_of_nat (nil_or (To16 ip)) @ p))
      | None \<Rightarrow>
          if length host > 255 then Inl HostTooLong
          else Inr (request @ [3, word_of_nat (length host)] @ go_bytes (TrimSuffix host ''.'') @ p))"

definition socks_request :: "string \<Rightarrow> socks_error + bytes" where
  "socks_request address =
     (case SplitHostPort address of
        None \<Rightarrow> Inl BadTargetAddress
      | Some (host, port) \<Rightarrow>
          (case Atoi port of
             None \<Rightarrow> Inl InvalidTargetPort
           | Some portNumber \<Rightarrow>
               if portNumber < 1 \<or> portNumber > 65535 then Inl InvalidTargetPort
               else connect_request host (nat portNumber)))"

text \<open>The reply is read and the bound address in it is skipped.\<close>

definition socks_reply :: "conn \<Rightarrow> socks_error option \<times> conn" where
  "socks_reply c =
     (case ReadFull 4 c of
        (None, c) \<Rightarrow> (Some SocksReadFailed, c)
      | (Some header, c) \<Rightarrow>
          if header ! 1 \<noteq> 0 then (Some (ConnectFailed (header ! 1)), c)
          else let discard = (\<lambda>skip c. case ReadFull (skip + 2) c of
                     (None, c) \<Rightarrow> (Some SocksReadFailed, c) | (Some _, c) \<Rightarrow> (None, c)) in
            if header ! 3 = 1 then discard 4 c
            else if header ! 3 = 4 then discard 16 c
            else if header ! 3 = 3 then
              (case ReadFull 1 c of
                 (None, c) \<Rightarrow> (Some SocksReadFailed, c)
               | (Some n, c) \<Rightarrow> discard (unat (n ! 0)) c)
            else (Some UnknownAddressType, c))"

definition socks5Connect :: "conn \<Rightarrow> string \<Rightarrow> socks_error option \<times> conn" where
  "socks5Connect c address =
     (case conn_Write [5, 1, 0] c of
        (False, c) \<Rightarrow> (Some SocksWriteFailed, c)
      | (True, c) \<Rightarrow>
          (case ReadFull 2 c of
             (None, c) \<Rightarrow> (Some AuthRejected, c)
           | (Some response, c) \<Rightarrow>
               if response ! 0 \<noteq> 5 \<or> response ! 1 \<noteq> 0 then (Some AuthRejected, c)
               else (case socks_request address of
                 Inl e \<Rightarrow> (Some e, c)
               | Inr request \<Rightarrow>
                   (case conn_Write request c of
                      (False, c) \<Rightarrow> (Some SocksWriteFailed, c)
                    | (True, c) \<Rightarrow> socks_reply c))))"

section \<open>The dialer\<close>

datatype dial_error = InvalidEndpoint | InvalidPort | DialFailed | HandshakeFailed socks_error

text \<open>\<open>dial\<close> is the context dialer of the \<open>net\<close> package: a new connection, or an error.\<close>

definition socks_dial ::
  "(string \<Rightarrow> conn option) \<Rightarrow> string \<Rightarrow> string \<Rightarrow> (dial_error + conn) \<times> conn option"
where
  "socks_dial dial proxy_address address =
     (case dial proxy_address of
        None \<Rightarrow> (Inl DialFailed, None)
      | Some c \<Rightarrow>
          (case socks5Connect c address of
             (Some e, c) \<Rightarrow> (Inl (HandshakeFailed e), Some (conn_Close c))
           | (None, c) \<Rightarrow> (Inr c, Some c)))"

definition newSOCKS5Dialer ::
  "string \<Rightarrow> dial_error + ((string \<Rightarrow> conn option) \<Rightarrow> string \<Rightarrow> (dial_error + conn) \<times> conn option)"
where
  "newSOCKS5Dialer endpoint =
     (case SplitHostPort endpoint of
        None \<Rightarrow> Inl InvalidEndpoint
      | Some (host, port) \<Rightarrow>
          if host = '''' then Inl InvalidEndpoint
          else (case Atoi port of
            None \<Rightarrow> Inl InvalidPort
          | Some portNumber \<Rightarrow>
              if portNumber < 1 \<or> portNumber > 65535 then Inl InvalidPort
              else Inr (\<lambda>dial address. socks_dial dial (JoinHostPort host port) address)))"

section \<open>RFC 1928\<close>

datatype target = IPv4 "nat list" | IPv6 "nat list" | Domain string

text \<open>The reader of a request at the other end: the target, the port and what follows.\<close>

definition rfc1928_request :: "bytes \<Rightarrow> (target \<times> nat \<times> bytes) option" where
  "rfc1928_request b =
     (if length b < 5 \<or> take 3 b \<noteq> [5, 1, 0] then None
      else let b' = drop 4 b;
               with_port = (\<lambda>t b. if length b < 2 then None else Some (t, be16_at b 0, drop 2 b)) in
        if b ! 3 = 1 then if length b' < 4 then None else with_port (IPv4 (map unat (take 4 b'))) (drop 4 b')
        else if b ! 3 = 4 then if length b' < 16 then None else with_port (IPv6 (map unat (take 16 b'))) (drop 16 b')
        else if b ! 3 = 3 then
          (let n = unat (b' ! 0) in
           if length b' < n + 1 then None
           else with_port (Domain (go_string (take n (drop 1 b')))) (drop (n + 1) b'))
        else None)"

text \<open>The target an address names.\<close>

definition address_target :: "string \<Rightarrow> target" where
  "address_target host =
     (case ParseIP host of
        None \<Rightarrow> Domain host
      | Some ip \<Rightarrow> (case To4 ip of Some ip4 \<Rightarrow> IPv4 ip4 | None \<Rightarrow> IPv6 (nil_or (To16 ip))))"

section \<open>What is written\<close>

lemma port_read [simp]: "n < 65536 \<Longrightarrow> be16_at (put16 n @ extra) 0 = n"
  using be16_at_put16 [of 0 "[]" n extra] by simp

text \<open>The three layouts of a request; the length byte of a name says how many bytes are the name.\<close>

lemma request_layouts:
  "length q = 4 \<Longrightarrow> octets q \<Longrightarrow> n < 65536 \<Longrightarrow>
   rfc1928_request ([5, 1, 0] @ [1] @ map word_of_nat q @ put16 n @ extra) = Some (IPv4 q, n, extra)"
  "length q = 16 \<Longrightarrow> octets q \<Longrightarrow> n < 65536 \<Longrightarrow>
   rfc1928_request ([5, 1, 0] @ [4] @ map word_of_nat q @ put16 n @ extra) = Some (IPv6 q, n, extra)"
  "k \<le> 255 \<Longrightarrow>
   rfc1928_request ([5, 1, 0] @ [3, word_of_nat k] @ t) =
     (if length t < k + 2 then None
      else Some (Domain (go_string (take k t)), be16_at (drop k t) 0, drop (k + 2) t))"
proof -
  have k: "unat (word_of_nat k :: byte) = k" if "k \<le> 255" for k using that by (simp add: unat_of_nat)
  show "rfc1928_request ([5, 1, 0] @ [1] @ map word_of_nat q @ put16 n @ extra) = Some (IPv4 q, n, extra)"
    if "length q = 4" "octets q" "n < 65536"
    using that bytes_of_octets [OF that(2)] by (simp add: rfc1928_request_def Let_def del: map_map)
  show "rfc1928_request ([5, 1, 0] @ [4] @ map word_of_nat q @ put16 n @ extra) = Some (IPv6 q, n, extra)"
    if "length q = 16" "octets q" "n < 65536"
    using that bytes_of_octets [OF that(2)] by (simp add: rfc1928_request_def Let_def del: map_map)
  show "rfc1928_request ([5, 1, 0] @ [3, word_of_nat k] @ t) =
     (if length t < k + 2 then None
      else Some (Domain (go_string (take k t)), be16_at (drop k t) 0, drop (k + 2) t))"
    if "k \<le> 255"
    using that by (auto simp: rfc1928_request_def Let_def k)
qed

lemma request_parts:
  assumes "socks_request address = Inr b" and "SplitHostPort address = Some (host, port)"
  obtains n where "Atoi port = Some (int n)" "n \<le> 65535" "connect_request host n = Inr b"
proof -
  obtain k where k: "Atoi port = Some k" "1 \<le> k" "k \<le> 65535" "connect_request host (nat k) = Inr b"
    using assms by (auto simp: socks_request_def not_less split: option.splits if_splits)
  then show ?thesis using that [of "nat k"] by simp
qed

lemma connect_request_name:
  assumes "connect_request host n = Inr b" and "ParseIP host = None"
  shows "length host \<le> 255"
    and "b = [5, 1, 0] @ [3, word_of_nat (length host)] @ go_bytes (TrimSuffix host ''.'') @ put16 n"
  using assms by (auto simp: connect_request_def split: if_splits)

lemma connect_request_ip:
  assumes "connect_request host n = Inr b" and "ParseIP host = Some ip" and "n \<le> 65535"
  shows "rfc1928_request (b @ extra) = Some (address_target host, n, extra)"
proof -
  have ip: "length ip = 16" "octets ip" using ParseIP_octets [OF assms(2)] by auto
  show ?thesis
  proof (cases "To4 ip")
    case None
    then have "b = [5, 1, 0] @ [4] @ map word_of_nat ip @ put16 n"
      using assms(1,2) ip(1) by (simp add: connect_request_def To16_def nil_or_def)
    then show ?thesis
      using request_layouts(2) [OF ip, of n extra] assms(2,3) ip(1) None
      by (simp add: address_target_def To16_def nil_or_def)
  next
    case (Some q)
    then have "length q = 4" "octets q"
      using ip by (auto simp: To4_def octets_def split: if_splits dest: in_set_dropD)
    moreover have "b = [5, 1, 0] @ [1] @ map word_of_nat q @ put16 n"
      using assms(1,2) Some by (simp add: connect_request_def)
    ultimately show ?thesis
      using request_layouts(1) [of q n extra] assms(2,3) Some by (simp add: address_target_def)
  qed
qed

text \<open>the connect request is the RFC 1928 message for the address: the other end reads back its host, as an
  IPv4 address, an IPv6 address or a name, and its port, and nothing else, for every address whose
  name does not end in a dot.\<close>

theorem socks_request_decodes:
  assumes "socks_request address = Inr b" and "SplitHostPort address = Some (host, port)"
    and "ParseIP host \<noteq> None \<or> \<not> HasSuffix host ''.''"
  shows "\<exists>n. Atoi port = Some (int n) \<and> rfc1928_request (b @ extra) = Some (address_target host, n, extra)"
proof -
  obtain n where n: "Atoi port = Some (int n)" "n \<le> 65535" "connect_request host n = Inr b"
    by (rule request_parts [OF assms(1,2)])
  have "rfc1928_request (b @ extra) = Some (address_target host, n, extra)"
  proof (cases "ParseIP host")
    case None
    then have t: "TrimSuffix host ''.'' = host" using assms(3) by (simp add: TrimSuffix_def)
    have "rfc1928_request (b @ extra) = Some (Domain host, n, extra)"
      using request_layouts(3) [OF connect_request_name(1) [OF n(3) None], of "go_bytes host @ put16 n @ extra"] n(2)
      unfolding connect_request_name(2) [OF n(3) None] t by simp
    then show ?thesis using None by (simp add: address_target_def)
  next
    case (Some ip)
    show ?thesis by (rule connect_request_ip [OF n(3) Some n(2)])
  qed
  with n(1) show ?thesis by blast
qed

text \<open>a name that ends in a dot is sent with a wrong length. The length byte counts the dot, which is not
  sent, so the request is one byte short: a proxy that follows RFC 1928 takes the first byte of the
  port for the end of the name and waits for another byte, which never comes.\<close>

theorem socks_trailing_dot:
  assumes "socks_request address = Inr b" and "SplitHostPort address = Some (host, port)"
    and "ParseIP host = None" and "HasSuffix host ''.''"
  shows "rfc1928_request b = None
    \<and> (\<exists>n. Atoi port = Some (int n) \<and> rfc1928_request (b @ [x]) =
         Some (Domain (TrimSuffix host ''.'' @ [char_of (n div 256)]), be16 (word_of_nat n) x, []))"
proof -
  obtain n where n: "Atoi port = Some (int n)" "n \<le> 65535" "connect_request host n = Inr b"
    by (rule request_parts [OF assms(1,2)])
  note b = connect_request_name(2) [OF n(3) assms(3)]
  note layout = request_layouts(3) [OF connect_request_name(1) [OF n(3) assms(3)]]
  define h where "h = TrimSuffix host ''.''"
  have "1 \<le> length host" using assms(4) by (simp add: HasSuffix_def)
  then have h: "TrimSuffix host ''.'' = h" "length host = Suc (length h)"
    using assms(4) by (auto simp: h_def TrimSuffix_def)
  have "unat (word_of_nat (n div 256) :: byte) = n div 256" using n(2) by (simp add: unat_of_nat)
  then have "rfc1928_request (b @ [x]) = Some (Domain (h @ [char_of (n div 256)]), be16 (word_of_nat n) x, [])"
    using layout [of "go_bytes h @ put16 n @ [x]"]
    unfolding b h by (simp add: put16_def be16_at_def go_string_def [of "[_]"])
  moreover have "rfc1928_request b = None"
    using layout [of "go_bytes h @ put16 n"] unfolding b h by simp
  ultimately show ?thesis using n(1) h(1) by blast
qed

section \<open>What is read\<close>

lemma ReadFull_Some:
  assumes "ReadFull n c = (Some p, c')"
  shows "length p = n" and "fst (content (inbound c)) = p @ fst (content (inbound c'))"
    and "outbound c' = outbound c"
  using assms read_full_spec [of n "[]" "inbound c" p]
  by (auto simp: ReadFull_def split: prod.splits option.splits)

text \<open>The replies of RFC 1928 that grant a request.\<close>

definition granting_reply :: "bytes \<Rightarrow> bool" where
  "granting_reply r \<longleftrightarrow> 4 \<le> length r \<and> r ! 1 = 0
     \<and> (r ! 3 = 1 \<and> length r = 10 \<or> r ! 3 = 4 \<and> length r = 22
        \<or> r ! 3 = 3 \<and> 5 \<le> length r \<and> length r = 7 + unat (r ! 4))"

lemma socks_reply_reads:
  assumes "socks_reply c = (None, c')"
  shows "\<exists>r. granting_reply r \<and> fst (content (inbound c)) = r @ fst (content (inbound c')) \<and> outbound c' = outbound c"
proof -
  obtain h c1 where h: "ReadFull 4 c = (Some h, c1)" "h ! 1 = 0"
    using assms by (auto simp: socks_reply_def split: prod.splits option.splits if_splits)
  note fh = ReadFull_Some [OF h(1)]
  consider (v4) "h ! 3 = 1" | (v6) "h ! 3 = 4" | (name) "h ! 3 = 3"
    using assms h by (auto simp: socks_reply_def split: if_splits)
  then show ?thesis
  proof cases
    case v4
    then obtain a where a: "ReadFull 6 c1 = (Some a, c')"
      using assms h by (auto simp: socks_reply_def split: prod.splits option.splits)
    show ?thesis
      using ReadFull_Some [OF a] fh h v4
      by (intro exI [of _ "h @ a"]) (simp add: granting_reply_def nth_append)
  next
    case v6
    then obtain a where a: "ReadFull 18 c1 = (Some a, c')"
      using assms h by (auto simp: socks_reply_def split: prod.splits option.splits)
    show ?thesis
      using ReadFull_Some [OF a] fh h v6
      by (intro exI [of _ "h @ a"]) (simp add: granting_reply_def nth_append)
  next
    case name
    then obtain k c2 where k: "ReadFull 1 c1 = (Some k, c2)"
      using assms h by (auto simp: socks_reply_def split: prod.splits option.splits)
    then obtain a where a: "ReadFull (unat (k ! 0) + 2) c2 = (Some a, c')"
      using assms h name by (auto simp: socks_reply_def split: prod.splits option.splits)
    show ?thesis
      using ReadFull_Some [OF k] ReadFull_Some [OF a] fh h name
      by (intro exI [of _ "h @ k @ a"]) (simp add: granting_reply_def nth_append)
  qed
qed

text \<open>C37: a tunnel starts clean. When \<open>socks5Connect\<close> succeeds it has written the greeting and the request and
  nothing else, the proxy has accepted the method and granted the request, and of the bytes from the
  proxy exactly its two replies are consumed: the tunnelled stream begins with its first byte.\<close>

theorem socks5Connect_tunnel:
  assumes "socks5Connect c address = (None, c')"
  shows "\<exists>request reply. socks_request address = Inr request
    \<and> outbound c' = outbound c @ [5, 1, 0] @ request
    \<and> fst (content (inbound c)) = [5, 0] @ reply @ fst (content (inbound c')) \<and> granting_reply reply"
proof -
  obtain c1 where c1: "conn_Write [5, 1, 0] c = (True, c1)"
    using assms by (auto simp: socks5Connect_def split: prod.splits bool.splits)
  obtain g c2 where g: "ReadFull 2 c1 = (Some g, c2)" "g ! 0 = 5" "g ! 1 = 0"
    using assms c1 by (auto simp: socks5Connect_def split: prod.splits option.splits if_splits)
  obtain request where r: "socks_request address = Inr request"
    using assms c1 g by (auto simp: socks5Connect_def split: sum.splits)
  obtain c3 where c3: "conn_Write request c2 = (True, c3)" "socks_reply c3 = (None, c')"
    using assms c1 g r by (auto simp: socks5Connect_def split: prod.splits bool.splits)
  have w: "outbound d' = outbound d @ q \<and> inbound d' = inbound d" if "conn_Write q d = (True, d')" for q d d'
    using that by (auto simp: conn_Write_def split: list.splits bool.splits)
  note f = ReadFull_Some [OF g(1)]
  have "g = [5, 0]" using f(1) g(2,3) by (auto simp: numeral_2_eq_2 length_Suc_conv)
  with f w [OF c1] w [OF c3(1)] socks_reply_reads [OF c3(2)] r show ?thesis by auto
qed

section \<open>Concrete addresses\<close>

lemma sample_addresses:
  "SplitHostPort ''a.b:443'' = Some (''a.b'', ''443'')" "ParseIP ''a.b'' = None"
  "socks_request ''a.b:443'' = Inr [5, 1, 0, 3, 3, 97, 46, 98, 1, 187]" "\<not> HasSuffix ''a.b'' ''.''"
  "SplitHostPort ''a.:443'' = Some (''a.'', ''443'')" "ParseIP ''a.'' = None"
  "socks_request ''a.:443'' = Inr [5, 1, 0, 3, 2, 97, 1, 187]" "HasSuffix ''a.'' ''.''"
  by code_simp+

theorem socks_request_decodes_witness:
  "rfc1928_request [5, 1, 0, 3, 3, 97, 46, 98, 1, 187] = Some (Domain ''a.b'', 443, [])"
proof -
  obtain n where "Atoi ''443'' = Some (int n)"
    "rfc1928_request ([5, 1, 0, 3, 3, 97, 46, 98, 1, 187] @ []) = Some (address_target ''a.b'', n, [])"
    using socks_request_decodes [OF sample_addresses(3,1), of "[]"] sample_addresses(4) by blast
  moreover have "Atoi ''443'' = Some 443" by code_simp
  ultimately show ?thesis by (simp add: address_target_def sample_addresses(2))
qed

theorem socks_trailing_dot_witness: "rfc1928_request [5, 1, 0, 3, 2, 97, 1, 187] = None"
  using socks_trailing_dot [OF sample_addresses(7,5,6,8)] by blast

definition sample_conn :: conn where
  "sample_conn = \<lparr>inbound = [([5], None), ([0, 5, 0, 0, 1], None), ([0, 0, 0, 0, 0, 0, 22, 3], None)],
     outbound = [], write_faults = [], open_conn = True\<rparr>"

theorem socks5Connect_tunnel_witness:
  "outbound (snd (socks5Connect sample_conn ''a.b:443'')) = [5, 1, 0, 5, 1, 0, 3, 3, 97, 46, 98, 1, 187]"
proof -
  obtain c' where "socks5Connect sample_conn ''a.b:443'' = (None, c')"
    by (simp add: socks5Connect_def conn_Write_def sample_conn_def ReadFull_def read_full.simps
        sample_addresses(3) socks_reply_def)
  with socks5Connect_tunnel [OF this] sample_addresses(3) show ?thesis by (auto simp: sample_conn_def)
qed

section \<open>The upstream transport\<close>

text \<open>
  The timeouts of \<open>http.Transport\<close> that \<open>newUpstreamTransport\<close> and \<open>applyUpstreamTimeoutDefaults\<close> set, in
  nanoseconds; 0 means no limit. \<open>SetUpstreamSocks5\<close> replaces the dialer.
\<close>

datatype dialer = NetDialer int | Socks5Dialer string

record transport =
  DialContext :: "dialer option"
  TLSHandshakeTimeout :: int
  ResponseHeaderTimeout :: int
  ExpectContinueTimeout :: int
  IdleConnTimeout :: int

definition upstreamDialTimeout :: int where "upstreamDialTimeout = 10000000000"
definition upstreamTLSHandshakeTimeout :: int where "upstreamTLSHandshakeTimeout = 10000000000"
definition upstreamResponseHeaderTimeout :: int where "upstreamResponseHeaderTimeout = 15000000000"
definition upstreamExpectContinueTimeout :: int where "upstreamExpectContinueTimeout = 1000000000"
definition upstreamIdleConnTimeout :: int where "upstreamIdleConnTimeout = 30000000000"

definition newUpstreamTransport :: transport where
  "newUpstreamTransport = \<lparr>DialContext = Some (NetDialer upstreamDialTimeout),
     TLSHandshakeTimeout = upstreamTLSHandshakeTimeout, ResponseHeaderTimeout = upstreamResponseHeaderTimeout,
     ExpectContinueTimeout = upstreamExpectContinueTimeout, IdleConnTimeout = upstreamIdleConnTimeout\<rparr>"

definition applyUpstreamTimeoutDefaults :: "transport \<Rightarrow> transport" where
  "applyUpstreamTimeoutDefaults t =
     (let t = (if DialContext t = None then t\<lparr>DialContext := Some (NetDialer upstreamDialTimeout)\<rparr> else t);
          t = (if TLSHandshakeTimeout t = 0 then t\<lparr>TLSHandshakeTimeout := upstreamTLSHandshakeTimeout\<rparr> else t);
          t = (if ResponseHeaderTimeout t = 0 then t\<lparr>ResponseHeaderTimeout := upstreamResponseHeaderTimeout\<rparr> else t);
          t = (if ExpectContinueTimeout t = 0 then t\<lparr>ExpectContinueTimeout := upstreamExpectContinueTimeout\<rparr> else t)
      in if IdleConnTimeout t = 0 then t\<lparr>IdleConnTimeout := upstreamIdleConnTimeout\<rparr> else t)"

text \<open>\<open>Server.transport\<close> may be \<open>nil\<close>; an empty endpoint leaves everything as it is.\<close>

definition SetUpstreamSocks5 :: "string \<Rightarrow> transport option \<Rightarrow> dial_error option \<times> transport option" where
  "SetUpstreamSocks5 endpoint t =
     (if endpoint = '''' then (None, t)
      else case newSOCKS5Dialer endpoint of
        Inl e \<Rightarrow> (Some e, t)
      | Inr _ \<Rightarrow>
          let t' = (case t of None \<Rightarrow> newUpstreamTransport | Some t \<Rightarrow> t)
          in (None, Some (applyUpstreamTimeoutDefaults (t'\<lparr>DialContext := Some (Socks5Dialer endpoint)\<rparr>))))"

definition bounded_transport :: "transport \<Rightarrow> bool" where
  "bounded_transport t \<longleftrightarrow> DialContext t \<noteq> None \<and> TLSHandshakeTimeout t \<noteq> 0 \<and> ResponseHeaderTimeout t \<noteq> 0
     \<and> ExpectContinueTimeout t \<noteq> 0 \<and> IdleConnTimeout t \<noteq> 0"

lemmas timeout_defs = upstreamDialTimeout_def upstreamTLSHandshakeTimeout_def
  upstreamResponseHeaderTimeout_def upstreamExpectContinueTimeout_def upstreamIdleConnTimeout_def

lemma bounded_defaults: "bounded_transport newUpstreamTransport" "bounded_transport (applyUpstreamTimeoutDefaults t)"
  by (simp_all add: bounded_transport_def newUpstreamTransport_def applyUpstreamTimeoutDefaults_def Let_def timeout_defs)

lemma defaults_keep: "bounded_transport t \<Longrightarrow> applyUpstreamTimeoutDefaults t = t"
  by (simp add: bounded_transport_def applyUpstreamTimeoutDefaults_def Let_def)

lemma SetUpstreamSocks5_bounded:
  "SetUpstreamSocks5 endpoint t = (None, Some t') \<Longrightarrow> endpoint \<noteq> '''' \<Longrightarrow>
   bounded_transport t' \<and> DialContext t' = Some (Socks5Dialer endpoint)"
  by (auto simp: SetUpstreamSocks5_def Let_def bounded_defaults split: sum.splits)
    (simp_all add: applyUpstreamTimeoutDefaults_def Let_def)

end
