(* ===== verification/Runtime.thy ===== *)
theory Runtime
  imports Config_Text Wloc_Correct Control Socks5
begin

text \<open>
  The daemon, \<open>cmd/locspoofd/runtime.go\<close> and the wiring of \<open>main.go\<close>: the policy that can be replaced while
  the gateway runs, the rewriters it gives the proxy, the hot reload, the ARP lookup, and the data
  plane that a configuration starts.

  The entropy of the rewriter (\<open>crypto/rand\<close>), the texts of its errors and the gzip codec are arguments.
\<close>

section \<open>The host allowlist\<close>

definition compiledWLocHosts :: "string list" where
  "compiledWLocHosts = [''gsp-ssl.ls.apple.com'', ''gspe1-ssl.ls.apple.com'', ''gs-loc.apple.com'',
     ''gs-loc-cn.apple.com'', ''bluedot.is.autonavi.com'', ''bluedot.is.autonavi.com.gds.alibabadns.com'']"

definition compiledAllowlist :: "(string \<times> bool) list" where
  "compiledAllowlist = map (\<lambda>host. (NormalizeSNI host, True)) compiledWLocHosts"

definition buildAllowlist :: "config \<Rightarrow> (string \<times> bool) list" where
  "buildAllowlist c = map (\<lambda>host. (NormalizeSNI host, True)) (WLocHosts c)"

section \<open>Rewriters\<close>

text \<open>The atomic pointer of \<open>runtimePolicy\<close>; \<open>None\<close> is \<open>nil\<close>.\<close>

type_synonym runtimePolicy = "config option"

definition policy_Store :: "config \<Rightarrow> runtimePolicy \<Rightarrow> runtimePolicy" where
  "policy_Store c p = Some c"

definition newRuntimePolicy :: "config \<Rightarrow> runtimePolicy" where
  "newRuntimePolicy c = policy_Store c None"

record rewriter_env =
  plat :: platform
  entropy :: "bytes option"
  error_text :: "wloc_error \<Rightarrow> string"

definition run_rewrite :: "rewriter_env \<Rightarrow> profile \<Rightarrow> bytes \<Rightarrow> detailed" where
  "run_rewrite E p b =
     (case RewriteBody (plat E) (entropy E) b p of
        Inl e \<Rightarrow> \<lparr>d_changed = [], d_meta = \<lparr>m_Envelope = '''', m_Locations = 0, m_Unsupported = is_ErrUnsupported e\<rparr>,
                  d_failed = True, d_events = [LastError (error_text E e)]\<rparr>
      | Inr (out, r) \<Rightarrow>
          \<lparr>d_changed = out, d_meta = \<lparr>m_Envelope = kind_name (Envelope r), m_Locations = Locations r, m_Unsupported = False\<rparr>,
           d_failed = False, d_events = []\<rparr>)"

definition DetailedRewrite :: "rewriter_env \<Rightarrow> runtimePolicy \<Rightarrow> bytes \<Rightarrow> detailed" where
  "DetailedRewrite E pol b =
     (case pol of
        Some c \<Rightarrow>
          if \<not> Enabled c \<or> \<not> ProfileSet c
          then \<lparr>d_changed = b, d_meta = \<lparr>m_Envelope = '''', m_Locations = 0, m_Unsupported = True\<rparr>,
                d_failed = True, d_events = []\<rparr>
          else run_rewrite E (Profile c) b
      | None \<Rightarrow>
          \<lparr>d_changed = b, d_meta = \<lparr>m_Envelope = '''', m_Locations = 0, m_Unsupported = True\<rparr>,
           d_failed = True, d_events = []\<rparr>)"

definition buildRewrite :: "rewriter_env \<Rightarrow> config \<Rightarrow> (bytes \<Rightarrow> bytes \<times> bool) option" where
  "buildRewrite E c =
     (if \<not> Enabled c \<or> \<not> ProfileSet c then None
      else Some (\<lambda>b. case RewriteBody (plat E) (entropy E) b (Profile c) of
        Inl e \<Rightarrow> ([], False) | Inr (out, r) \<Rightarrow> (out, True)))"

definition buildDetailedRewrite :: "rewriter_env \<Rightarrow> config \<Rightarrow> (bytes \<Rightarrow> detailed) option" where
  "buildDetailedRewrite E c =
     (if \<not> Enabled c \<or> \<not> ProfileSet c then None else Some (run_rewrite E (Profile c)))"

section \<open>Hot reload\<close>

definition hotReloadCompatible :: "config \<Rightarrow> config \<Rightarrow> bool" where
  "hotReloadCompatible current nxt \<longleftrightarrow>
     ListenAddr current = ListenAddr nxt \<and> ListenPort current = ListenPort nxt \<and> ProxyPort current = ProxyPort nxt
     \<and> SocketPath current = SocketPath nxt \<and> UpstreamSocks5 current = UpstreamSocks5 nxt
     \<and> MaxConnections current = MaxConnections nxt \<and> MaxBodyBytes current = MaxBodyBytes nxt
     \<and> MaxBufferedBytes current = MaxBufferedBytes nxt"

text \<open>The function \<open>main\<close> gives to \<open>SetReload\<close>; \<open>pf\<close> and the file's content are those of \<open>config.Load\<close>.\<close>

definition reload_config ::
  "(string \<Rightarrow> float64 option) \<Rightarrow> string option \<Rightarrow> config \<Rightarrow> runtimePolicy \<times> state \<Rightarrow> string option \<times> runtimePolicy \<times> state"
where
  "reload_config pf file_content current ps =
     (let (pol, hs) = ps in
      case Load pf file_content of
        Inl e \<Rightarrow> (Some ''invalid reload configuration'', pol, hs)
      | Inr nxt \<Rightarrow>
          if \<not> Enabled nxt \<or> \<not> ProfileSet nxt
          then (Some ''reload requires an enabled service and complete profile'', pol, hs)
          else if \<not> hotReloadCompatible current nxt
          then (Some ''configuration requires a service restart'', pol, hs)
          else (None, policy_Store nxt pol, SetEnabled (Enabled nxt) hs))"

section \<open>The ARP table\<close>

text \<open>\<open>bufio.Scanner\<close>: lines without their end, up to the first one that does not fit its buffer.\<close>

definition strip_cr :: "string \<Rightarrow> string" where
  "strip_cr l = (if l \<noteq> [] \<and> last l = CHR 0x0D then butlast l else l)"

definition scan_lines :: "string \<Rightarrow> string list" where
  "scan_lines s =
     (let ls = split_on CHR 0x0A s; ls = (if last ls = [] then butlast ls else ls)
      in map strip_cr (takeWhile (\<lambda>l. length l < 65536) ls))"

fun arp_lookup :: "string \<Rightarrow> string list \<Rightarrow> string" where
  "arp_lookup clientIP [] = ''''"
| "arp_lookup clientIP (l # ls) =
     (let fields = Fields l in
      if length fields < 4 \<or> fields ! 0 \<noteq> clientIP then arp_lookup clientIP ls
      else case ParseMAC (fields ! 3) of
        None \<Rightarrow> arp_lookup clientIP ls
      | Some mac \<Rightarrow> if length mac = 6 then MAC_String mac else arp_lookup clientIP ls)"

definition resolveMACFromARPReader :: "string \<Rightarrow> string \<Rightarrow> string" where
  "resolveMACFromARPReader table clientIP =
     (case Option.bind (ParseIP clientIP) To4 of
        None \<Rightarrow> ''''
      | Some ip4 \<Rightarrow> arp_lookup clientIP (scan_lines table))"

definition resolveMACFromARP :: "string option \<Rightarrow> string \<Rightarrow> string" where
  "resolveMACFromARP arp_file clientIP =
     (case arp_file of None \<Rightarrow> '''' | Some table \<Rightarrow> resolveMACFromARPReader table clientIP)"

section \<open>The data plane\<close>

definition gateway_limits :: "config \<Rightarrow> server" where
  "gateway_limits c = SetLimits (MaxConnections c) (MaxBodyBytes c) (MaxBufferedBytes c) new_limits"

definition gateway_proxy ::
  "rewriter_env \<Rightarrow> gzip_codec \<Rightarrow> (request \<Rightarrow> response option) \<Rightarrow> config \<Rightarrow> runtimePolicy \<Rightarrow> proxy"
where
  "gateway_proxy E z upstream c pol =
     \<lparr>allow_sni = normalizeAllowlist compiledAllowlist, transport = upstream, rewrite = buildRewrite E c,
      rewriteDetailed = Some (DetailedRewrite E pol), observer = ObservingErrors, codec = z\<rparr>"

datatype start_error = EnabledWithoutProfile | BadUpstreamSocks5 dial_error

definition startup ::
  "rewriter_env \<Rightarrow> gzip_codec \<Rightarrow> (request \<Rightarrow> response option) \<Rightarrow> string \<Rightarrow> config \<Rightarrow> start_error + server \<times> proxy \<times> transport option"
where
  "startup E z upstream upstream_flag c =
     (if Enabled c \<and> \<not> ProfileSet c then Inl EnabledWithoutProfile
      else let endpoint = (if upstream_flag = '''' then UpstreamSocks5 c else upstream_flag) in
        (case SetUpstreamSocks5 endpoint (Some newUpstreamTransport) of
           (Some e, t) \<Rightarrow> Inl (BadUpstreamSocks5 e)
         | (None, t) \<Rightarrow> Inr (gateway_limits c, gateway_proxy E z upstream c (newRuntimePolicy c), t)))"

section \<open>A validated configuration starts and admits requests\<close>

lemma validated_limits:
  assumes "valid_config c"
  shows "bodyLimit (gateway_limits c) = MaxBodyBytes c"
    and "byte_budget (gateway_limits c) = Some (newByteBudget (MaxBufferedBytes c))"
    and "in_use (workSlots (gateway_limits c)) = 0" and "1 \<le> slot_cap (workSlots (gateway_limits c))"
    and "settled (gateway_limits c)"
proof -
  have l: "0 < MaxConnections c" "0 < MaxBodyBytes c" "0 < MaxBufferedBytes c" "MaxBufferedBytes c \<le> maxInt64"
    "MaxBodyBytes c \<le> MaxBufferedBytes c"
    using assms by (auto simp: valid_config_def limits_ok_def maxInt64_def)
  note s = SetLimits_simps [OF l(1-3), of new_limits]
  show b: "bodyLimit (gateway_limits c) = MaxBodyBytes c"
    and y: "byte_budget (gateway_limits c) = Some (newByteBudget (MaxBufferedBytes c))"
    and u: "in_use (workSlots (gateway_limits c)) = 0"
    by (simp_all add: gateway_limits_def s make_slots_def)
  have "0 < nat (if wrap64 (MaxConnections c * MaxBodyBytes c) > MaxBufferedBytes c
      then max 1 (MaxBufferedBytes c div MaxBodyBytes c) else MaxConnections c)"
    using l(1) by auto
  then show "1 \<le> slot_cap (workSlots (gateway_limits c))"
    by (simp add: gateway_limits_def s make_slots_def Suc_le_eq)
  show "settled (gateway_limits c)"
    using l b y u by (simp add: settled_def newByteBudget_def budget_ok_def)
qed

lemma idle_handle:
  assumes "valid_config c"
  shows "h_server (handle p r (gateway_limits c) w) = gateway_limits c"
    and "h_writer (handle p r (gateway_limits c) w) = fst (serve p r (MaxBodyBytes c) w)"
    and "h_sent (handle p r (gateway_limits c) w) = snd (snd (serve p r (MaxBodyBytes c) w))"
proof -
  note v = validated_limits [OF assms]
  have l: "0 < MaxBodyBytes c" "4 * (MaxBodyBytes c + 1) \<le> MaxBufferedBytes c" "MaxBufferedBytes c \<le> 2 ^ 28"
    using assms by (auto simp: valid_config_def limits_ok_def)
  obtain n where n: "n = 4 * (MaxBodyBytes c + 1)" by simp
  have res: "bufferReservation (MaxBodyBytes c) = Some n"
    using l by (simp add: n bufferReservation_def maxInt64_def wrap64_def)
  have acq: "try_acquire n (newByteBudget (MaxBufferedBytes c)) =
      Some (take_bytes n (newByteBudget (MaxBufferedBytes c)))"
    using l by (simp add: n try_acquire_def admissible_def newByteBudget_def)
  have send: "try_send (workSlots (gateway_limits c)) = Some ((workSlots (gateway_limits c))\<lparr>in_use := 1\<rparr>)"
    using v(3,4) by (simp add: try_send_def)
  have get: "getBudget ((gateway_limits c)\<lparr>workSlots := x\<rparr>) = ((gateway_limits c)\<lparr>workSlots := x\<rparr>, newByteBudget (MaxBufferedBytes c))"
    for x using v(1,2) l by (simp add: getBudget_def)
  note body = handle_def send get res acq v(1) case_prod_beta Let_def
  show "h_writer (handle p r (gateway_limits c) w) = fst (serve p r (MaxBodyBytes c) w)"
    and "h_sent (handle p r (gateway_limits c) w) = snd (snd (serve p r (MaxBodyBytes c) w))"
    using l(1) by (simp_all add: body)
  show "h_server (handle p r (gateway_limits c) w) = gateway_limits c"
    by (rule handle_restores [OF v(5)])
qed

section \<open>The gateway as a whole\<close>

lemma compiled_plain: "host \<in> set compiledWLocHosts \<Longrightarrow> list_all plain_char host \<and> \<not> HasSuffix host ''.''"
  by (auto simp: compiledWLocHosts_def plain_char_def HasSuffix_def)

lemma NormalizeSNI_compiled: "host \<in> set compiledWLocHosts \<Longrightarrow> NormalizeSNI host = host"
  using compiled_plain [of host] by (simp add: NormalizeSNI_plain TrimSuffix_def)

lemma compiled_allowed: "normalizeAllowlist compiledAllowlist host \<longleftrightarrow> host \<in> set compiledWLocHosts"
  by (force simp: normalizeAllowlist_def compiledAllowlist_def NormalizeSNI_compiled)

text \<open>What the rewriter makes of a decoded body under a policy, and what the client is sent for a body in an encoding.\<close>

definition policy_rewrite :: "rewriter_env \<Rightarrow> config \<Rightarrow> bytes \<Rightarrow> bytes option" where
  "policy_rewrite E n b =
     (if Enabled n
      then (case RewriteBody (plat E) (entropy E) b (Profile n) of Inr (out, res) \<Rightarrow> Some out | Inl e \<Rightarrow> None)
      else None)"

definition wloc_answer :: "rewriter_env \<Rightarrow> gzip_codec \<Rightarrow> config \<Rightarrow> int \<Rightarrow> string \<Rightarrow> bytes \<Rightarrow> bytes" where
  "wloc_answer E z n mx encoding b =
     (if int (length b) > mx then b
      else if encoding = '''' then
        (case policy_rewrite E n b of
           Some out \<Rightarrow> if int (length out) \<le> mx then out else b
         | None \<Rightarrow> b)
      else if encoding = ''gzip'' then
        (case gunzipBounded z b mx of
           None \<Rightarrow> b
         | Some decoded \<Rightarrow>
             (case policy_rewrite E n decoded of
                None \<Rightarrow> b
              | Some out \<Rightarrow> if out = decoded then b else (case gzipBounded z out mx of Some packed \<Rightarrow> packed | None \<Rightarrow> b)))
      else b)"

lemma DetailedRewrite_policy:
  assumes "Enabled n \<longrightarrow> ProfileSet n"
  shows "(if d_failed (DetailedRewrite E (Some n) b) then None else Some (d_changed (DetailedRewrite E (Some n) b)))
    = policy_rewrite E n b"
  using assms by (auto simp: DetailedRewrite_def run_rewrite_def policy_rewrite_def split: sum.splits)

lemma rewrite_body_policy:
  assumes "Path r = wloc_path" and "rewriteDetailed p = Some (DetailedRewrite E (Some n))" and "Enabled n \<longrightarrow> ProfileSet n"
    and "int (length b) \<le> mx"
  shows "Mitm.body (fst (rewrite_body p r resp mx b)) = wloc_answer E (codec p) n mx (response_encoding resp) b"
proof -
  have k: "d_failed (DetailedRewrite E (Some n) x) \<longleftrightarrow> policy_rewrite E n x = None"
    "policy_rewrite E n x = Some y \<Longrightarrow> d_changed (DetailedRewrite E (Some n) x) = y" for x y
    using DetailedRewrite_policy [OF assms(3), of E x]
    by (cases "policy_rewrite E n x"; simp split: if_splits)+
  consider "response_encoding resp = ''''" | "response_encoding resp = ''gzip''"
    | "response_encoding resp \<noteq> ''''" "response_encoding resp \<noteq> ''gzip''" by blast
  then show ?thesis
  proof cases
    case 1
    have "Mitm.body (fst (rewrite_plain p mx b)) = wloc_answer E (codec p) n mx '''' b"
      using assms(2,4) k [of b]
      by (cases "policy_rewrite E n b") (auto simp: rewrite_plain_def wloc_answer_def untouched_def Let_def)
    with 1 assms(1,2) show ?thesis by (simp add: rewrite_body_def response_encoding_def)
  next
    case 2
    have "Mitm.body (fst (rewrite_gzip p mx b)) = wloc_answer E (codec p) n mx ''gzip'' b"
    proof (cases "gunzipBounded (codec p) b mx")
      case (Some d)
      show ?thesis
        using assms(2,4) k [of d]
        by (cases "policy_rewrite E n d")
          (auto simp: rewrite_gzip_def wloc_answer_def untouched_def Some Let_def split: option.split)
    qed (use assms(4) in \<open>simp add: rewrite_gzip_def wloc_answer_def untouched_def\<close>)
    with 2 assms(1,2) show ?thesis by (simp add: rewrite_body_def response_encoding_def)
  next
    case 3
    with assms(1,2,4) show ?thesis
      by (simp add: rewrite_body_def response_encoding_def wloc_answer_def untouched_def Let_def)
  qed
qed

lemma deliver_sends:
  "w_status (fst (deliver p r resp mx b (new_writer None))) = Some (StatusCode resp)
   \<and> w_body (fst (deliver p r resp mx b (new_writer None))) = Mitm.body (fst (rewrite_body p r resp mx b))"
  by (auto simp: deliver_def Let_def copyHeaders_def WriteHeader_def Write_def new_writer_def split: prod.splits)

lemma answer_policy:
  assumes "Path r = wloc_path" and "rewriteDetailed p = Some (DetailedRewrite E (Some n))" and "Enabled n \<longrightarrow> ProfileSet n"
    and "lively (RespBody resp)" and "content (RespBody resp) = (b, EOF)" and "0 \<le> mx" and "mx < maxInt64"
  shows "w_status (fst (answer p r resp mx (new_writer None))) = Some (StatusCode resp)
    \<and> w_body (fst (answer p r resp mx (new_writer None))) = wloc_answer E (codec p) n mx (response_encoding resp) b"
proof (cases "int (length b) \<le> mx")
  case True
  then obtain s' where "readBounded read_stream mx (RespBody resp) = (Complete b, s')"
    using readBounded_lively [OF assms(4-7)] by auto
  then have "answer p r resp mx (new_writer None) = deliver p r resp mx b (new_writer None)"
    using True by (simp add: answer_def)
  then show ?thesis using deliver_sends [of p r resp mx b] rewrite_body_policy [OF assms(1-3) True] by simp
next
  case False
  then obtain s' where "readBounded read_stream mx (RespBody resp) = (OverLimit (take (nat mx + 1) b), s')"
    and s': "content s' = (drop (nat mx + 1) b, EOF)"
    using readBounded_lively [OF assms(4-7)] by auto
  then have a: "answer p r resp mx (new_writer None) = stream_over_limit p r resp (take (nat mx + 1) b) s' (new_writer None)"
    by (simp add: answer_def)
  obtain w ev where w: "stream_over_limit p r resp (take (nat mx + 1) b) s' (new_writer None) = (w, ev)" by (metis surj_pair)
  have "w_status w = Some (StatusCode resp) \<and> w_body w = take (nat mx + 1) b @ fst (content s')"
    by (rule stream_over_limit_all [OF w]) (simp_all add: new_writer_def)
  with False a w s' show ?thesis by (simp add: wloc_answer_def)
qed

lemma serve_allowed:
  assumes "TLS r = Some name" and "allow_sni p (NormalizeSNI name)" and "Host r \<noteq> ''''"
    and "NormalizeSNI (host_only (Host r)) = NormalizeSNI name" and "transport p (upstream_request r) = Some resp"
  shows "fst (serve p r mx w) = fst (answer p (upstream_request r) resp mx w)"
    and "snd (snd (serve p r mx w)) = [upstream_request r]"
  using assms by (simp_all add: serve_def Let_def case_prod_beta)

text \<open>
  The gateway as \<open>main\<close> puts it together, started from a validated configuration and idle: a WLoc request for an
  allowlisted host is forwarded once and answered with the upstream's status and what the policy in force makes of
  the body; the limits are as before.
\<close>

lemma gateway_answers:
  assumes "valid_config c" and "Enabled n \<longrightarrow> ProfileSet n"
    and "TLS r = Some name" and "NormalizeSNI name \<in> set compiledWLocHosts" and "Host r \<noteq> ''''"
    and "NormalizeSNI (host_only (Host r)) = NormalizeSNI name" and "Path r = wloc_path"
    and "up_stream (upstream_request r) = Some resp"
    and "lively (RespBody resp)" and "content (RespBody resp) = (b, EOF)"
    and "hn = handle (gateway_proxy E z up_stream c (Some n)) r (gateway_limits c) (new_writer None)"
  shows "h_server hn = gateway_limits c \<and> h_sent hn = [upstream_request r]
    \<and> w_status (h_writer hn) = Some (StatusCode resp)
    \<and> w_body (h_writer hn) = wloc_answer E z n (MaxBodyBytes c) (response_encoding resp) b"
proof -
  let ?p = "gateway_proxy E z up_stream c (Some n)" and ?mx = "MaxBodyBytes c"
  have "allow_sni ?p (NormalizeSNI name)" using assms(4) by (simp add: gateway_proxy_def compiled_allowed)
  moreover have "Mitm.transport ?p (upstream_request r) = Some resp" using assms(8) by (simp add: gateway_proxy_def)
  ultimately have sv: "fst (serve ?p r ?mx w) = fst (answer ?p (upstream_request r) resp ?mx w)"
    "snd (snd (serve ?p r ?mx w)) = [upstream_request r]" for w
    using serve_allowed [OF assms(3) _ assms(5,6)] by blast+
  have mx: "0 \<le> ?mx" "?mx < maxInt64"
    using assms(1) by (auto simp: valid_config_def limits_ok_def maxInt64_def)
  have f: "rewriteDetailed ?p = Some (DetailedRewrite E (Some n))" "codec ?p = z" by (simp_all add: gateway_proxy_def)
  have path: "Path (upstream_request r) = wloc_path" using assms(7) by (simp add: upstream_request_def)
  from answer_policy [OF path f(1) assms(2,9,10) mx] idle_handle [OF assms(1), of ?p r "new_writer None"] sv
  show ?thesis by (simp add: assms(11) f(2))
qed

section \<open>Reloading\<close>

lemma Load_valid: "Load pf f = Inr c \<Longrightarrow> valid_config c"
  by (auto simp: Load_def ParseUCI_def finish_def Let_def Validate_None split: option.splits sum.splits if_splits)

text \<open>a reload is all or nothing. When it fails, the policy and the health state are untouched. When it
  succeeds, the new policy is a validated, enabled configuration with a profile, every limit and
  listener of the running data plane is the one this configuration would start, and the reload never
  touches the bypass flag or the connection count.\<close>

theorem reload_all_or_nothing:
  assumes "reload_config pf file_content current (pol, hs) = (err, pol', hs')"
  shows "(err \<noteq> None \<longrightarrow> pol' = pol \<and> hs' = hs)
    \<and> (err = None \<longrightarrow> (\<exists>nxt. pol' = Some nxt \<and> Load pf file_content = Inr nxt \<and> valid_config nxt
         \<and> Enabled nxt \<and> ProfileSet nxt \<and> gateway_limits nxt = gateway_limits current
         \<and> ListenAddr nxt = ListenAddr current \<and> ListenPort nxt = ListenPort current
         \<and> UpstreamSocks5 nxt = UpstreamSocks5 current))
    \<and> bypass hs' = bypass hs \<and> active hs' = active hs"
  using assms
  by (auto simp: reload_config_def policy_Store_def SetEnabled_def hotReloadCompatible_def gateway_limits_def
      dest: Load_valid split: sum.splits if_splits)

text \<open>It is therefore a reload function the control socket may call.\<close>

lemma reload_keeps_bypass:
  "keeps_bypass (SetReload (reload_config pf file_content current) new_control_with_state)"
  by (auto simp: keeps_bypass_def SetReload_def new_control_with_state_def reload_config_def SetEnabled_def
      split: sum.splits)

section \<open>A concrete gateway\<close>

definition sample_env :: rewriter_env where
  "sample_env = \<lparr>plat = sample_platform, entropy = None, error_text = \<lambda>_. ''failed''\<rparr>"

definition wloc_request :: request where
  "wloc_request = \<lparr>TLS = Some ''gs-loc.apple.com'', Host = ''gs-loc.apple.com'', Path = wloc_path,
     RemoteAddr = ''10.0.0.2:5000'', Scheme = '''', URLHost = '''', RequestURI = wloc_path, ReqHeader = []\<rparr>"

definition wloc_response :: response where
  "wloc_response = \<lparr>StatusCode = 200, RespHeader = [], RespBody = [(sample_body, Some EOF)]\<rparr>"

lemma wloc_sample:
  "NormalizeSNI ''gs-loc.apple.com'' = ''gs-loc.apple.com''" "NormalizeSNI (host_only ''gs-loc.apple.com'') = ''gs-loc.apple.com''"
  "response_encoding wloc_response = ''''"
proof -
  show "NormalizeSNI ''gs-loc.apple.com'' = ''gs-loc.apple.com''"
    by (rule NormalizeSNI_compiled) (simp add: compiledWLocHosts_def)
  moreover have "host_only ''gs-loc.apple.com'' = ''gs-loc.apple.com''" by (simp add: host_only_def)
  ultimately show "NormalizeSNI (host_only ''gs-loc.apple.com'') = ''gs-loc.apple.com''" by simp
  show "response_encoding wloc_response = ''''"
    by (simp add: response_encoding_def wloc_response_def h_Get_def h_values_def TrimSpace_plain ToLower_plain)
qed

lemma sample_gateway_rewrites:
  "w_body (h_writer (handle (gateway_proxy sample_env sample_codec (\<lambda>_. Some wloc_response) sample_config
     (Some (sample_config\<lparr>Profile := sample_profile\<rparr>))) wloc_request (gateway_limits sample_config) (new_writer None)))
   = sample_out"
proof -
  have b: "content (RespBody wloc_response) = (sample_body, EOF)" "lively (RespBody wloc_response)"
    by (simp_all add: wloc_response_def lively_def)
  have len: "int (length sample_body) \<le> MaxBodyBytes sample_config" "int (length sample_out) \<le> MaxBodyBytes sample_config"
    by (simp_all add: sample_body_def sample_payload_def sample_out_def sample_location_def sample_config_def Default_def)
  have r: "RewriteBody (plat sample_env) (entropy sample_env) sample_body sample_profile =
      Inr (sample_out, \<lparr>Envelope = FixedPrefix, Locations = 1\<rparr>)"
    using sample_rewrite by (simp add: sample_env_def)
  let ?n = "sample_config\<lparr>Profile := sample_profile\<rparr>"
  let ?hn = "handle (gateway_proxy sample_env sample_codec (\<lambda>_. Some wloc_response) sample_config (Some ?n))
     wloc_request (gateway_limits sample_config) (new_writer None)"
  have "w_body (h_writer ?hn) = wloc_answer sample_env sample_codec ?n (MaxBodyBytes sample_config) '''' sample_body"
    using gateway_answers [OF sample_config_valid _ _ _ _ _ _ _ b(2,1) refl,
        of ?n wloc_request "''gs-loc.apple.com''" "\<lambda>_. Some wloc_response" sample_env sample_codec] wloc_sample
    by (simp add: wloc_request_def compiledWLocHosts_def sample_config_def Default_def)
  moreover have "Enabled ?n" by (simp add: sample_config_def)
  ultimately show ?thesis using r len by (simp add: wloc_answer_def policy_rewrite_def)
qed

lemma sample_reload:
  "reload_config (\<lambda>s. Some (f_int 0)) (Some (text_of (config_lines (\<lambda>x. ''0'') sample_config))) sample_config
     (None, new_state) = (None, Some sample_config, SetEnabled True new_state)"
proof -
  have "ParseUCI (\<lambda>s. Some (f_int 0)) (text_of (config_lines (\<lambda>x. ''0'') sample_config)) = Inr sample_config"
    by (rule config_read_back [OF sample_config_valid sample_config_strings])
      (use sample_config_profile in \<open>simp add: sample_config_def\<close>)
  then show ?thesis
    by (simp add: reload_config_def Load_def hotReloadCompatible_def policy_Store_def sample_config_def)
qed

theorem reload_all_or_nothing_witness:
  "\<exists>nxt. Some sample_config = Some nxt \<and> valid_config nxt \<and> gateway_limits nxt = gateway_limits sample_config"
  using reload_all_or_nothing [OF sample_reload] by auto

end
