(* ===== verification/Enrollment.thy ===== *)
theory Enrollment
  imports Mitm
begin

text \<open>
  Certificates as the package \<open>crypto/x509\<close> shows them, and what the proxy does with them
  (\<open>internal/proxy/mitm.go\<close>): the loading of leaf certificates by server name, the enrollment page that hands
  out the public CA certificate, and the configuration profile built from it.

  Parsing, hashing and PEM are functions of the record \<open>x509\<close>; base64 is written out.
\<close>

section \<open>Certificates\<close>

type_synonym public_key = nat
type_synonym private_key = nat

datatype ext_usage = ServerAuth | CodeSigning | EmailProtection | OtherUsage nat

text \<open>The fields of \<open>x509.Certificate\<close> the code reads or sets; \<open>PublicKey\<close> is \<open>None\<close> in a template.\<close>

record certificate =
  Raw :: bytes
  CommonName :: string
  Organization :: "string list"
  SerialNumber :: "nat option"
  DNSNames :: "string list"
  NotBefore :: int
  NotAfter :: int
  IsCA :: bool
  BasicConstraintsValid :: bool
  KeyUsage :: u64
  ExtKeyUsage :: "ext_usage list"
  PublicKey :: "public_key option"

record x509 =
  parse_cert :: "bytes \<Rightarrow> certificate option"
  parse_key :: "bytes \<Rightarrow> private_key option"
  pem_decode :: "bytes \<Rightarrow> bytes option"
  load_pair :: "bytes \<Rightarrow> bytes \<Rightarrow> bytes list option"
  sha256 :: "bytes \<Rightarrow> bytes"

section \<open>Leaf certificates by server name\<close>

text \<open>
  \<open>leaf_file\<close> is the content of \<open>leafDir/host.pem\<close>. \<open>tls.LoadX509KeyPair\<close> reads certificate and key from
  that one file.
\<close>

definition LoadX509KeyPair :: "'a x509_scheme \<Rightarrow> (string \<Rightarrow> bytes option) \<Rightarrow> string \<Rightarrow> bytes list option" where
  "LoadX509KeyPair X leaf_file host =
     (case leaf_file host of None \<Rightarrow> None | Some b \<Rightarrow> load_pair X b b)"

definition GetCertificate ::
  "'a x509_scheme \<Rightarrow> (string \<Rightarrow> bytes option) \<Rightarrow> (string \<Rightarrow> bool) \<Rightarrow> string \<Rightarrow> bytes list option"
where
  "GetCertificate X leaf_file allowed server_name =
     (let host = NormalizeSNI server_name
      in if \<not> allowed host then None else LoadX509KeyPair X leaf_file host)"

text \<open>The keys of the normalized allowlist, and the loop that looks for each one's certificate.\<close>

definition allowlist_keys :: "(string \<times> bool) list \<Rightarrow> string list" where
  "allowlist_keys hosts = remdups (map (\<lambda>(host, _). NormalizeSNI host) (filter snd hosts))"

fun leaves_present :: "'a x509_scheme \<Rightarrow> (string \<Rightarrow> bytes option) \<Rightarrow> string list \<Rightarrow> string option" where
  "leaves_present X leaf_file [] = None"
| "leaves_present X leaf_file (host # hosts) =
     (case LoadX509KeyPair X leaf_file host of
        None \<Rightarrow> Some host
      | Some _ \<Rightarrow> leaves_present X leaf_file hosts)"

text \<open>\<open>NewServerWithLeaves\<close>: the host without a certificate, or the function that finds certificates.\<close>

definition NewServerWithLeaves ::
  "'a x509_scheme \<Rightarrow> (string \<Rightarrow> bytes option) \<Rightarrow> (string \<times> bool) list \<Rightarrow> string + (string \<Rightarrow> bytes list option)"
where
  "NewServerWithLeaves X leaf_file allow =
     (case leaves_present X leaf_file (allowlist_keys allow) of
        Some host \<Rightarrow> Inl host
      | None \<Rightarrow> Inr (GetCertificate X leaf_file (normalizeAllowlist allow)))"

section \<open>Base64\<close>

definition b64_alphabet :: string where
  "b64_alphabet = ''ABCDEFGHIJKLMNOPQRSTUVWXYZabcdefghijklmnopqrstuvwxyz0123456789+/''"

definition b64_char :: "nat \<Rightarrow> char" where
  "b64_char n = b64_alphabet ! n"

fun base64 :: "bytes \<Rightarrow> string" where
  "base64 [] = ''''"
| "base64 [a] = (let n = unat a * 16 in [b64_char (n div 64), b64_char (n mod 64), CHR ''='', CHR ''=''])"
| "base64 [a, b] =
     (let n = (unat a * 256 + unat b) * 4
      in [b64_char (n div 4096), b64_char (n div 64 mod 64), b64_char (n mod 64), CHR ''=''])"
| "base64 (a # b # c # r) =
     (let n = be24 a b c
      in [b64_char (n div 262144), b64_char (n div 4096 mod 64), b64_char (n div 64 mod 64), b64_char (n mod 64)]
         @ base64 r)"

section \<open>The configuration profile\<close>

definition hex_upper :: "nat \<Rightarrow> char" where "hex_upper n = ''0123456789ABCDEF'' ! n"
definition hex_lower :: "nat \<Rightarrow> char" where "hex_lower n = ''0123456789abcdef'' ! n"

text \<open>\<open>%X\<close> and \<open>%x\<close> of a byte slice.\<close>

definition fmt_X :: "bytes \<Rightarrow> string" where
  "fmt_X b = concat (map (\<lambda>w. [hex_upper (unat w div 16), hex_upper (unat w mod 16)]) b)"

definition fmt_x :: "bytes \<Rightarrow> string" where
  "fmt_x b = concat (map (\<lambda>w. [hex_lower (unat w div 16), hex_lower (unat w mod 16)]) b)"

definition uuid_text :: "bytes \<Rightarrow> string" where
  "uuid_text b = fmt_X (gslice 0 4 b) @ ''-'' @ fmt_X (gslice 4 6 b) @ ''-'' @ fmt_X (gslice 6 8 b) @ ''-''
     @ fmt_X (gslice 8 10 b) @ ''-'' @ fmt_X (gslice 10 16 b)"

definition text_lines :: "string list \<Rightarrow> string" where
  "text_lines ls = concat (map (\<lambda>l. l @ [CHR 0x0A]) ls)"

definition mobileconfig_lines :: "'a x509_scheme \<Rightarrow> certificate \<Rightarrow> string list" where
  "mobileconfig_lines X cert =
     (let sum = sha256 X (Raw cert);
          payloadUUID = uuid_text (gslice 0 16 sum);
          profileUUID = uuid_text (gslice 16 32 sum);
          identifier = ''com.ils-gateway.ca.'' @ fmt_x (take 8 sum)
      in
        [''<?xml version=\"1.0\" encoding=\"UTF-8\"?>'',
         ''<!DOCTYPE plist PUBLIC \"-//Apple//DTD PLIST 1.0//EN\" \"http://www.apple.com/DTDs/PropertyList-1.0.dtd\">'',
         ''<plist version=\"1.0\">'',
         ''<dict>'',
         ''<key>PayloadContent</key><array><dict>'',
         ''<key>PayloadCertificateFileName</key><string>iLS Gateway CA</string>'',
         ''<key>PayloadContent</key><data>'' @ base64 (Raw cert) @ ''</data>'',
         ''<key>PayloadDescription</key><string>iLS Gateway '' @ go_string [0xE5, 0xAE, 0x9A, 0xE4, 0xBD, 0x8D, 0xE6, 0x9C, 0x8D, 0xE5, 0x8A, 0xA1, 0xE6, 0xA0, 0xB9, 0xE8, 0xAF, 0x81, 0xE4, 0xB9, 0xA6] @ ''</string>'',
         ''<key>PayloadDisplayName</key><string>iLS Gateway CA</string>'',
         ''<key>PayloadIdentifier</key><string>'' @ identifier @ ''.root</string>'',
         ''<key>PayloadType</key><string>com.apple.security.root</string>'',
         ''<key>PayloadUUID</key><string>'' @ payloadUUID @ ''</string>'',
         ''<key>PayloadVersion</key><integer>1</integer>'',
         ''</dict></array>'',
         ''<key>PayloadDescription</key><string>'' @ go_string [0xE4, 0xB8, 0xBA, 0xE6, 0x8E, 0x88, 0xE6, 0x9D, 0x83, 0xE8, 0xAE, 0xBE, 0xE5, 0xA4, 0x87, 0xE5, 0xAE, 0x89, 0xE8, 0xA3, 0x85] @ '' iLS Gateway '' @ go_string [0xE6, 0xA0, 0xB9, 0xE8, 0xAF, 0x81, 0xE4, 0xB9, 0xA6] @ ''</string>'',
         ''<key>PayloadDisplayName</key><string>iLS Gateway CA</string>'',
         ''<key>PayloadIdentifier</key><string>'' @ identifier @ ''</string>'',
         ''<key>PayloadOrganization</key><string>iLS Gateway</string>'',
         ''<key>PayloadRemovalDisallowed</key><false/>'',
         ''<key>PayloadType</key><string>Configuration</string>'',
         ''<key>PayloadUUID</key><string>'' @ profileUUID @ ''</string>'',
         ''<key>PayloadVersion</key><integer>1</integer>'',
         ''</dict>'',
         ''</plist>''])"

definition EnrollmentMobileConfig :: "'a x509_scheme \<Rightarrow> certificate \<Rightarrow> string" where
  "EnrollmentMobileConfig X cert = text_lines (mobileconfig_lines X cert)"

section \<open>The enrollment page\<close>

text \<open>The two files the handler reads, \<open>certPath\<close> and \<open>ca.mobileconfig\<close> beside it.\<close>

record enrollment_files =
  cert_file :: "bytes option"
  profile_file :: "bytes option"

text \<open>\<open>w.Write\<close> without an earlier \<open>WriteHeader\<close>.\<close>

definition write_ok :: "bytes \<Rightarrow> response_writer \<Rightarrow> response_writer" where
  "write_ok b w = fst (Write b (WriteHeader 200 w))"

definition with_header :: "string \<Rightarrow> string \<Rightarrow> response_writer \<Rightarrow> response_writer" where
  "with_header k v w = w\<lparr>w_header := h_Set k v (w_header w)\<rparr>"

definition enrollment_paths :: "string list" where
  "enrollment_paths = [''/ca.pem'', ''/ca.cer'', ''/ca.mobileconfig'', ''/fingerprint'']"

definition EnrollmentHandler :: "'a x509_scheme \<Rightarrow> enrollment_files \<Rightarrow> string \<Rightarrow> response_writer \<Rightarrow> response_writer" where
  "EnrollmentHandler X fs url_path w =
     (if url_path \<notin> set enrollment_paths then http_Error ''404 page not found'' 404 w
      else case cert_file fs of
        None \<Rightarrow> http_Error ''CA unavailable'' StatusServiceUnavailable w
      | Some cert \<Rightarrow>
          let w = with_header ''Cache-Control'' ''no-store'' w;
              w = with_header ''X-Content-Type-Options'' ''nosniff'' w in
          if url_path = ''/ca.pem'' then
            write_ok cert
              (with_header ''Content-Disposition'' ''attachment; filename=\"ils-gateway-ca.pem\"''
                (with_header ''Content-Type'' ''application/x-pem-file'' w))
          else (case pem_decode X cert of
            None \<Rightarrow> http_Error ''invalid CA'' StatusServiceUnavailable w
          | Some block \<Rightarrow>
              (case parse_cert X block of
                 None \<Rightarrow> http_Error ''invalid CA'' StatusServiceUnavailable w
               | Some parsed \<Rightarrow>
                   if url_path = ''/fingerprint'' then
                     write_ok (go_bytes (fmt_X (sha256 X (Raw parsed)) @ [CHR 0x0A]))
                       (with_header ''Content-Type'' ''text/plain; charset=utf-8'' w)
                   else if url_path = ''/ca.cer'' then
                     write_ok (Raw parsed)
                       (with_header ''Content-Disposition'' ''inline; filename=\"ils-gateway-ca.cer\"''
                         (with_header ''Content-Type'' ''application/x-x509-ca-cert'' w))
                   else (case profile_file fs of
                      None \<Rightarrow> http_Error ''configuration profile unavailable'' StatusServiceUnavailable w
                    | Some profile \<Rightarrow>
                        if profile = [] then http_Error ''configuration profile unavailable'' StatusServiceUnavailable w
                        else write_ok profile
                          (with_header ''Content-Disposition'' ''attachment; filename=\"ils-gateway-ca.mobileconfig\"''
                            (with_header ''Content-Type'' ''application/x-apple-aspen-config'' w))))))"

section \<open>Every intercepted name has a certificate\<close>

lemma leaves_present_None: "leaves_present X leaf_file hosts = None \<longleftrightarrow> (\<forall>h \<in> set hosts. LoadX509KeyPair X leaf_file h \<noteq> None)"
  by (induction hosts) (auto split: option.splits)

lemma leaves_present_Some:
  "leaves_present X leaf_file hosts = Some h \<Longrightarrow> h \<in> set hosts \<and> LoadX509KeyPair X leaf_file h = None"
  by (induction hosts) (auto split: option.splits)

lemma allowlist_keys_set: "h \<in> set (allowlist_keys allow) \<longleftrightarrow> normalizeAllowlist allow h"
  by (force simp: allowlist_keys_def normalizeAllowlist_def)

lemma NewServerWithLeaves_cases:
  "case NewServerWithLeaves X leaf_file allow of
     Inl host \<Rightarrow> normalizeAllowlist allow host \<and> LoadX509KeyPair X leaf_file host = None
   | Inr get \<Rightarrow> get = GetCertificate X leaf_file (normalizeAllowlist allow)
       \<and> (\<forall>h. normalizeAllowlist allow h \<longrightarrow> LoadX509KeyPair X leaf_file h \<noteq> None)"
  using leaves_present_Some [of X leaf_file "allowlist_keys allow"]
    leaves_present_None [of X leaf_file "allowlist_keys allow"]
  by (auto simp: NewServerWithLeaves_def allowlist_keys_set split: option.splits)

text \<open>a data plane that was built can terminate every connection it intercepts. \<open>NewServerWithLeaves\<close>
  fails exactly when a host of the allowlist has no certificate, and names such a host; otherwise, while the
  files stay, the server finds a certificate for exactly the server names the allowlist enables.\<close>

theorem server_has_leaves:
  "case NewServerWithLeaves X leaf_file allow of
     Inl host \<Rightarrow> normalizeAllowlist allow host \<and> LoadX509KeyPair X leaf_file host = None
   | Inr get \<Rightarrow> \<forall>server_name. get server_name \<noteq> None \<longleftrightarrow> normalizeAllowlist allow (NormalizeSNI server_name)"
  using NewServerWithLeaves_cases [of allow X leaf_file] by (auto simp: GetCertificate_def Let_def split: sum.splits)

section \<open>The profile carries the certificate\<close>

definition b64_value :: "char \<Rightarrow> nat" where
  "b64_value c = length (takeWhile (\<lambda>x. x \<noteq> c) b64_alphabet)"

text \<open>The decoder of RFC 4648.\<close>

fun base64_decode :: "string \<Rightarrow> bytes option" where
  "base64_decode [] = Some []"
| "base64_decode (p # q # r # t # rest) =
     (if t = CHR ''='' then
        (if rest \<noteq> [] then None
         else if r = CHR ''='' then Some [word_of_nat ((b64_value p * 64 + b64_value q) div 16)]
         else let n = (b64_value p * 4096 + b64_value q * 64 + b64_value r) div 4
              in Some [word_of_nat (n div 256), word_of_nat (n mod 256)])
      else let n = b64_value p * 262144 + b64_value q * 4096 + b64_value r * 64 + b64_value t
           in map_option (\<lambda>b. word_of_nat (n div 65536) # word_of_nat (n div 256 mod 256) # word_of_nat (n mod 256) # b)
                (base64_decode rest))"
| "base64_decode _ = None"

lemma b64_table:
  "list_all (\<lambda>n. b64_value (b64_char n) = n \<and> b64_char n \<noteq> CHR ''='' \<and> b64_char n \<noteq> CHR ''<'') [0..<64]"
  by code_simp

lemma b64_char_facts [simp]:
  "n < 64 \<Longrightarrow> b64_value (b64_char n) = n" "n < 64 \<Longrightarrow> b64_char n \<noteq> CHR ''=''"
  "n < 64 \<Longrightarrow> b64_char n \<noteq> CHR ''<''" "n < 64 \<Longrightarrow> CHR ''<'' \<noteq> b64_char n"
  using b64_table by (auto simp: list_all_iff)

lemma digits64:
  "(n div 262144) * 262144 + (n div 4096 mod 64) * 4096 + (n div 64 mod 64) * 64 + n mod 64 = (n :: nat)"
  "(n div 4096) * 4096 + (n div 64 mod 64) * 64 + n mod 64 = n"
  "(n div 64) * 64 + n mod 64 = n"
proof -
  have d: "n div 4096 = n div 64 div 64" "n div 262144 = n div 4096 div 64"
    by (simp_all add: div_mult2_eq [symmetric])
  have e: "x = x div 64 * 64 + x mod 64" for x :: nat by simp
  show "(n div 64) * 64 + n mod 64 = n" by simp
  show f: "(n div 4096) * 4096 + (n div 64 mod 64) * 64 + n mod 64 = n"
    using e [of n] e [of "n div 64"] unfolding d by linarith
  show "(n div 262144) * 262144 + (n div 4096 mod 64) * 4096 + (n div 64 mod 64) * 64 + n mod 64 = n"
    using f e [of "n div 4096"] unfolding d(2) by linarith
qed

lemma bytes_of_be24:
  assumes "a < 256" "b < 256" "c < 256"
  shows "(65536 * a + 256 * b + c) div 65536 = (a :: nat)" "(65536 * a + 256 * b + c) div 256 mod 256 = b"
    "(65536 * a + 256 * b + c) mod 256 = c" "(65536 * a + 256 * b + c) div 262144 < 64"
proof -
  show "(65536 * a + 256 * b + c) div 65536 = a" by (rule div_nat_eqI) (use assms in simp_all)
  have "(65536 * a + 256 * b + c) div 256 = 256 * a + b" by (rule div_nat_eqI) (use assms in simp_all)
  then show "(65536 * a + 256 * b + c) div 256 mod 256 = b" using assms by simp
  have "65536 * a + 256 * b + c = 256 * (256 * a + b) + c" by simp
  then show "(65536 * a + 256 * b + c) mod 256 = c" using assms by (simp only: mod_mult_self4 mod_less)
  show "(65536 * a + 256 * b + c) div 262144 < 64" by (rule less_mult_imp_div_less) (use assms in simp)
qed

text \<open>The groups at the end, of one and of two bytes.\<close>

lemma short_groups:
  assumes "a < 256" "b < 256"
  shows "a * 16 div 64 < 64" "a * 16 div 16 = (a :: nat)"
    "(a * 256 + b) * 4 div 4096 < 64" "(a * 256 + b) * 4 div 4 = a * 256 + b"
    "(a * 256 + b) div 256 = a" "(a * 256 + b) mod 256 = b"
proof -
  show "a * 16 div 64 < 64" by (rule less_mult_imp_div_less) (use assms in simp)
  show "(a * 256 + b) * 4 div 4096 < 64" by (rule less_mult_imp_div_less) (use assms in simp)
qed (use assms in simp_all)

lemma base64_roundtrip: "base64_decode (base64 b) = Some b"
proof (induction b rule: base64.induct)
  case (2 a)
  obtain n where n: "n = unat a * 16" by simp
  have "n div 64 < 64" "n div 16 = unat a"
    using short_groups(1,2) [of "unat a" 0] byte_less [of a] unfolding n by simp_all
  then show ?case by (simp add: Let_def n [symmetric] digits64)
next
  case (3 a b)
  show ?case using short_groups(3-6) [OF byte_less [of a] byte_less [of b]]
    by (simp add: Let_def digits64 del: nonzero_mult_div_cancel_right)
next
  case (4 a b c r)
  have l: "unat a < 256" "unat b < 256" "unat c < 256" by (rule byte_less)+
  show ?case using "4.IH" bytes_of_be24 [OF l] by (simp add: Let_def be24_def digits64)
qed simp

lemma base64_chars: "c \<in> set (base64 b) \<Longrightarrow> c \<noteq> CHR ''<''"
proof (induction b rule: base64.induct)
  case (2 a)
  obtain n where n: "n = unat a * 16" by simp
  have "n div 64 < 64" using short_groups(1) [of "unat a" 0] byte_less [of a] unfolding n by simp
  with 2 show ?case by (auto simp: Let_def n [symmetric])
next
  case (3 a b)
  with short_groups(3) [OF byte_less [of a] byte_less [of b]] show ?case by (auto simp: Let_def)
next
  case (4 a b c r)
  with bytes_of_be24(4) [OF byte_less [of a] byte_less [of b] byte_less [of c]] show ?case
    by (auto simp: Let_def be24_def)
qed simp

text \<open>The text of the first \<open>data\<close> element.\<close>

fun starts :: "string \<Rightarrow> string \<Rightarrow> bool" where
  "starts [] s = True"
| "starts (t # ts) [] = False"
| "starts (t # ts) (c # s) = (t = c \<and> starts ts s)"

fun after_tag :: "string \<Rightarrow> string \<Rightarrow> string" where
  "after_tag tag [] = []"
| "after_tag tag (c # s) = (if starts tag (c # s) then drop (length tag) (c # s) else after_tag tag s)"

definition profile_payload :: "string \<Rightarrow> bytes option" where
  "profile_payload s = base64_decode (takeWhile (\<lambda>c. c \<noteq> CHR ''<'') (after_tag ''<data>'' s))"

lemma text_lines_nth:
  "n < length ls \<Longrightarrow> text_lines ls = text_lines (take n ls) @ ls ! n @ CHR 0x0A # text_lines (drop (Suc n) ls)"
  by (subst id_take_nth_drop [of n ls]) (auto simp: text_lines_def)

lemma mobileconfig_head:
  "after_tag ''<data>'' (text_lines (take 6 (mobileconfig_lines X cert)) @ ''<key>PayloadContent</key><data>'' @ r) = r"
  by (simp add: mobileconfig_lines_def Let_def text_lines_def)

lemma payload_of_profile: "profile_payload (EnrollmentMobileConfig X cert) = Some (Raw cert)"
proof -
  have "mobileconfig_lines X cert ! 6 = ''<key>PayloadContent</key><data>'' @ base64 (Raw cert) @ ''</data>''"
    "6 < length (mobileconfig_lines X cert)"
    by (simp_all add: mobileconfig_lines_def Let_def)
  then obtain r where r: "EnrollmentMobileConfig X cert = text_lines (take 6 (mobileconfig_lines X cert))
      @ ''<key>PayloadContent</key><data>'' @ (base64 (Raw cert) @ CHR ''<'' # r)"
    using text_lines_nth [of 6 "mobileconfig_lines X cert"] by (simp add: EnrollmentMobileConfig_def)
  show ?thesis using base64_chars [of _ "Raw cert"]
    unfolding profile_payload_def r mobileconfig_head by (simp add: takeWhile_append base64_roundtrip)
qed

lemma profile_of_raw: "Raw cert = Raw cert' \<Longrightarrow> EnrollmentMobileConfig X cert = EnrollmentMobileConfig X cert'"
  by (simp only: EnrollmentMobileConfig_def mobileconfig_lines_def)

text \<open>an installed profile installs exactly the certificate it was built from. Whatever the certificate's
  bytes, the content of the profile's first data element decodes, by the rules of base64, to exactly these
  bytes; so a profile built from a certificate without them carries an empty root certificate.\<close>

theorem profile_carries_ca:
  "profile_payload (EnrollmentMobileConfig X cert) = Some (Raw cert)
   \<and> (EnrollmentMobileConfig X cert = EnrollmentMobileConfig X cert' \<longleftrightarrow> Raw cert = Raw cert')"
proof
  show p: "profile_payload (EnrollmentMobileConfig X cert) = Some (Raw cert)" by (rule payload_of_profile)
  show "EnrollmentMobileConfig X cert = EnrollmentMobileConfig X cert' \<longleftrightarrow> Raw cert = Raw cert'"
    using payload_of_profile [of X cert] payload_of_profile [of X cert'] profile_of_raw [of cert cert' X]
    by (metis option.inject)
qed

section \<open>What the enrollment page answers\<close>

text \<open>The document each address names, where it can be served.\<close>

definition enrollment_document :: "'a x509_scheme \<Rightarrow> enrollment_files \<Rightarrow> string \<Rightarrow> bytes option" where
  "enrollment_document X fs url_path =
     (if url_path = ''/ca.pem'' then cert_file fs
      else let parsed = Option.bind (Option.bind (cert_file fs) (pem_decode X)) (parse_cert X) in
        if url_path = ''/ca.cer'' then map_option Raw parsed
        else if url_path = ''/fingerprint'' then map_option (\<lambda>c. go_bytes (fmt_X (sha256 X (Raw c)) @ [CHR 0x0A])) parsed
        else if url_path = ''/ca.mobileconfig'' then
          (case parsed of None \<Rightarrow> None | Some _ \<Rightarrow> if profile_file fs = Some [] then None else profile_file fs)
        else None)"

lemma http_Error_status: "w_status w = None \<Longrightarrow> w_status (http_Error msg code w) = Some code"
  by (simp add: http_Error_def keep_simps WriteHeader_def)

lemma with_header_simps [simp]:
  "w_status (with_header k v w) = w_status w" "w_body (with_header k v w) = w_body w"
  "accepts (with_header k v w) = accepts w" "w_header (with_header k v w) = h_Set k v (w_header w)"
  by (simp_all add: with_header_def)

lemma write_ok_fresh:
  "w_status w = None \<Longrightarrow> accepts w = None \<Longrightarrow> w_status (write_ok b w) = Some 200"
  "w_status w = None \<Longrightarrow> accepts w = None \<Longrightarrow> w_body (write_ok b w) = w_body w @ b"
  "w_header (write_ok b w) = w_header w"
  by (simp_all add: write_ok_def keep_simps Write_all) (simp_all add: WriteHeader_def)

lemma enrollment_case:
  assumes "w = new_writer None"
  shows "(enrollment_document X fs url_path = None \<and>
      w_status (EnrollmentHandler X fs url_path w) = Some (if url_path \<in> set enrollment_paths then 503 else 404))
    \<or> (\<exists>d. enrollment_document X fs url_path = Some d \<and> w_status (EnrollmentHandler X fs url_path w) = Some 200
        \<and> w_body (EnrollmentHandler X fs url_path w) = d
        \<and> h_Get ''Cache-Control'' (w_header (EnrollmentHandler X fs url_path w)) = ''no-store'')"
proof -
  have w: "w_status w = None" "accepts w = None" "w_body w = []" using assms by (simp_all add: new_writer_def)
  have keys: "CanonicalKey ''Cache-Control'' = ''Cache-Control''" "CanonicalKey ''Content-Type'' = ''Content-Type''"
    "CanonicalKey ''X-Content-Type-Options'' = ''X-Content-Type-Options''"
    "CanonicalKey ''Content-Disposition'' = ''Content-Disposition''"
    by code_simp+
  note s = EnrollmentHandler_def enrollment_document_def Let_def write_ok_fresh http_Error_status w
    StatusServiceUnavailable_def h_Get_def h_values_Set keys
  consider "url_path \<notin> set enrollment_paths" | "url_path = ''/ca.pem''" | "url_path = ''/ca.cer''"
    | "url_path = ''/fingerprint''" | "url_path = ''/ca.mobileconfig''"
    by (auto simp: enrollment_paths_def)
  then show ?thesis
  proof cases
    case 1
    then show ?thesis by (auto simp: s enrollment_paths_def)
  next
    case 2
    then show ?thesis by (simp add: s enrollment_paths_def split: option.splits)
  next
    case 3
    then show ?thesis by (simp add: s enrollment_paths_def split: option.splits)
  next
    case 4
    then show ?thesis by (simp add: s enrollment_paths_def split: option.splits)
  next
    case 5
    then show ?thesis by (simp add: s enrollment_paths_def split: option.splits)
  qed
qed

text \<open>the enrollment page serves the public CA and nothing else. Every address is answered with 200 and
  exactly the document it names, marked as not to be stored, or with 404 for an address the page does not
  have, or with 503 where the certificate or the profile cannot be read.\<close>

theorem enrollment_serves_ca:
  "let w = EnrollmentHandler X fs url_path (new_writer None) in
   case enrollment_document X fs url_path of
     Some d \<Rightarrow> w_status w = Some 200 \<and> w_body w = d \<and> h_Get ''Cache-Control'' (w_header w) = ''no-store''
   | None \<Rightarrow> w_status w = Some (if url_path \<in> set enrollment_paths then 503 else 404)"
  using enrollment_case [OF refl, of X fs url_path] by (auto simp: Let_def)

end
