(* ===== verification/File_System.thy ===== *)
theory File_System
  imports Go_Strings
begin

text \<open>
  The directory \<open>locspoof-ca\<close> writes, as the package \<open>os\<close> shows it, and \<open>atomicWrite\<close>
  (\<open>cmd/locspoof-ca/main.go\<close>). A file is its content and its permission bits; the temporary files of
  \<open>os.CreateTemp\<close> have names of their own.

  Every system call has a number, and \<open>faults\<close> says which calls work and how much a failing write still
  writes. A process that is killed, or a machine that loses power, is the case where no call works from
  some number on: what the directory then holds is what the calls before it left.
\<close>

section \<open>Files\<close>

datatype path = Named string | Temp nat

record file_entry =
  f_data :: bytes
  f_mode :: nat

record sys =
  entries :: "path \<Rightarrow> file_entry option"
  dir_mode :: "nat option"
  calls_made :: nat

record faults =
  works :: "nat \<Rightarrow> bool"
  cut :: "nat \<Rightarrow> nat"

text \<open>The permission bits the code uses, in octal 0600, 0640 and 0750.\<close>

definition mode_0600 :: nat where "mode_0600 = 384"
definition mode_0640 :: nat where "mode_0640 = 416"
definition mode_0750 :: nat where "mode_0750 = 488"

definition set_entry :: "path \<Rightarrow> file_entry option \<Rightarrow> sys \<Rightarrow> sys" where
  "set_entry p f s = s\<lparr>entries := (entries s)(p := f)\<rparr>"

definition syscall :: "faults \<Rightarrow> (sys \<Rightarrow> sys option) \<Rightarrow> sys \<Rightarrow> bool \<times> sys" where
  "syscall F act s =
     (let s' = s\<lparr>calls_made := Suc (calls_made s)\<rparr> in
      if works F (calls_made s) then (case act s of None \<Rightarrow> (False, s') | Some t \<Rightarrow> (True, t\<lparr>calls_made := Suc (calls_made s)\<rparr>))
      else (False, s'))"

definition os_Chmod :: "faults \<Rightarrow> path \<Rightarrow> nat \<Rightarrow> sys \<Rightarrow> bool \<times> sys" where
  "os_Chmod F p m = syscall F (\<lambda>s. map_option (\<lambda>f. set_entry p (Some (f\<lparr>f_mode := m\<rparr>)) s) (entries s p))"

definition os_ChmodDir :: "faults \<Rightarrow> nat \<Rightarrow> sys \<Rightarrow> bool \<times> sys" where
  "os_ChmodDir F m = syscall F (\<lambda>s. map_option (\<lambda>_. s\<lparr>dir_mode := Some m\<rparr>) (dir_mode s))"

definition os_MkdirAll :: "faults \<Rightarrow> nat \<Rightarrow> sys \<Rightarrow> bool \<times> sys" where
  "os_MkdirAll F m =
     syscall F (\<lambda>s. Some (case dir_mode s of None \<Rightarrow> s\<lparr>dir_mode := Some m\<rparr> | Some _ \<Rightarrow> s))"

definition os_ReadFile :: "faults \<Rightarrow> path \<Rightarrow> sys \<Rightarrow> bytes option \<times> sys" where
  "os_ReadFile F p s =
     (case syscall F (\<lambda>s. map_option (\<lambda>_. s) (entries s p)) s of
        (ok, s') \<Rightarrow> (if ok then map_option f_data (entries s p) else None, s'))"

text \<open>\<open>fileExists\<close>: \<open>os.Stat\<close> as root, which fails only for a name that does not exist.\<close>

definition fileExists :: "path \<Rightarrow> sys \<Rightarrow> bool" where
  "fileExists p s \<longleftrightarrow> entries s p \<noteq> None"

text \<open>\<open>os.CreateTemp\<close>: a new empty file with the mode 0600. It never opens a file that exists.\<close>

definition os_CreateTemp :: "faults \<Rightarrow> sys \<Rightarrow> path option \<times> sys" where
  "os_CreateTemp F s =
     (let t = Temp (calls_made s) in
      case syscall F (\<lambda>s. if dir_mode s = None \<or> entries s t \<noteq> None then None
                          else Some (set_entry t (Some \<lparr>f_data = [], f_mode = mode_0600\<rparr>) s)) s of
        (ok, s') \<Rightarrow> (if ok then Some t else None, s'))"

definition os_Write :: "faults \<Rightarrow> path \<Rightarrow> bytes \<Rightarrow> sys \<Rightarrow> bool \<times> sys" where
  "os_Write F p b s =
     (case entries s p of
        None \<Rightarrow> syscall F (\<lambda>s. None) s
      | Some f \<Rightarrow>
          if works F (calls_made s) then syscall F (\<lambda>s. Some (set_entry p (Some (f\<lparr>f_data := f_data f @ b\<rparr>)) s)) s
          else (False, (set_entry p (Some (f\<lparr>f_data := f_data f @ take (cut F (calls_made s)) b\<rparr>)) s)
                         \<lparr>calls_made := Suc (calls_made s)\<rparr>))"

text \<open>Flushing, opening and closing change no content.\<close>

definition os_NoChange :: "faults \<Rightarrow> sys \<Rightarrow> bool \<times> sys" where
  "os_NoChange F = syscall F Some"

definition os_Rename :: "faults \<Rightarrow> path \<Rightarrow> path \<Rightarrow> sys \<Rightarrow> bool \<times> sys" where
  "os_Rename F p q = syscall F (\<lambda>s. map_option (\<lambda>f. set_entry q (Some f) (set_entry p None s)) (entries s p))"

definition os_Remove :: "faults \<Rightarrow> path \<Rightarrow> sys \<Rightarrow> bool \<times> sys" where
  "os_Remove F p = syscall F (\<lambda>s. map_option (\<lambda>_. set_entry p None s) (entries s p))"

lemmas os_defs = syscall_def os_Chmod_def os_ChmodDir_def os_MkdirAll_def os_ReadFile_def os_CreateTemp_def
  os_Write_def os_NoChange_def os_Rename_def os_Remove_def

lemma set_entry_simps [simp]:
  "entries (set_entry p f s) = (entries s)(p := f)" "dir_mode (set_entry p f s) = dir_mode s"
  "calls_made (set_entry p f s) = calls_made s"
  by (simp_all add: set_entry_def)

section \<open>\<open>atomicWrite\<close>\<close>

definition sync_dir :: "faults \<Rightarrow> sys \<Rightarrow> sys" where
  "sync_dir F s =
     (case os_NoChange F s of
        (False, s) \<Rightarrow> s
      | (True, s) \<Rightarrow> snd (os_NoChange F (snd (os_NoChange F s))))"

definition fill_temp :: "faults \<Rightarrow> path \<Rightarrow> bytes \<Rightarrow> nat \<Rightarrow> sys \<Rightarrow> bool \<times> sys" where
  "fill_temp F tmp data mode s =
     (let (ok, s) = os_Chmod F tmp mode s;
          (ok, s) = (if ok then os_Write F tmp data s else (False, s));
          (ok, s) = (if ok then os_NoChange F s else (False, s));
          (closed, s) = os_NoChange F s
      in (ok \<and> closed, s))"

definition atomicWrite :: "faults \<Rightarrow> path \<Rightarrow> bytes \<Rightarrow> nat \<Rightarrow> sys \<Rightarrow> bool \<times> sys" where
  "atomicWrite F p data mode s =
     (case os_CreateTemp F s of
        (None, s) \<Rightarrow> (False, s)
      | (Some tmp, s) \<Rightarrow>
          (case fill_temp F tmp data mode s of
             (False, s) \<Rightarrow> (False, snd (os_Remove F tmp s))
           | (True, s) \<Rightarrow>
               (case os_Rename F tmp p s of
                  (False, s) \<Rightarrow> (False, snd (os_Remove F tmp s))
                | (True, s) \<Rightarrow> (True, snd (os_Remove F tmp (sync_dir F s))))))"

section \<open>What a replacement promises\<close>

lemma os_frames:
  "q \<noteq> p \<Longrightarrow> entries (snd (os_Chmod F p m s)) q = entries s q"
  "entries (snd (os_ChmodDir F m s)) = entries s"
  "entries (snd (os_MkdirAll F m s)) = entries s"
  "entries (snd (os_ReadFile F p s)) = entries s"
  "entries (snd (os_NoChange F s)) = entries s"
  "q \<noteq> p \<Longrightarrow> entries (snd (os_Write F p b s)) q = entries s q"
  "q \<noteq> p \<Longrightarrow> entries (snd (os_Remove F p s)) q = entries s q"
  by (auto simp: os_defs Let_def split: option.splits)

lemma os_dirs:
  "dir_mode (snd (os_Chmod F p m s)) = dir_mode s"
  "dir_mode (snd (os_ReadFile F p s)) = dir_mode s"
  "dir_mode (snd (os_NoChange F s)) = dir_mode s"
  "dir_mode (snd (os_Write F p b s)) = dir_mode s"
  "dir_mode (snd (os_Remove F p s)) = dir_mode s"
  by (auto simp: os_defs Let_def split: option.splits)

lemma os_Chmod_done:
  "os_Chmod F p m s = (True, s') \<Longrightarrow> \<exists>f. entries s p = Some f \<and> entries s' p = Some (f\<lparr>f_mode := m\<rparr>)"
  by (auto simp: os_defs Let_def split: if_splits option.splits)

lemma os_Write_done:
  "os_Write F p b s = (True, s') \<Longrightarrow> \<exists>f. entries s p = Some f \<and> entries s' p = Some (f\<lparr>f_data := f_data f @ b\<rparr>)"
  by (auto simp: os_defs Let_def split: if_splits option.splits)

lemma fill_temp_frame:
  assumes "fill_temp F t d m s = (ok, s')"
  shows "q \<noteq> t \<Longrightarrow> entries s' q = entries s q" and "dir_mode s' = dir_mode s"
    and "ok \<Longrightarrow> entries s t = Some f \<Longrightarrow> entries s' t = Some \<lparr>f_data = f_data f @ d, f_mode = m\<rparr>"
proof -
  obtain b1 s1 b2 s2 b3 s3 b4 s4 where r: "os_Chmod F t m s = (b1, s1)" "os_Write F t d s1 = (b2, s2)"
    "os_NoChange F s2 = (b3, s3)" "os_NoChange F s1 = (b4, s4)"
    by (metis surj_pair)
  have k: "(case os_NoChange F u of (c, s) \<Rightarrow> (b \<and> c, s)) = (ok, s') \<Longrightarrow> entries s' = entries u \<and> dir_mode s' = dir_mode u \<and> (ok \<longrightarrow> b)"
    for u b using os_frames(5) [of F u] os_dirs(3) [of F u] by (auto split: prod.splits)
  note n = os_frames(5) [of F s2, unfolded r] os_dirs(3) [of F s2, unfolded r]
    os_frames(5) [of F s1, unfolded r] os_dirs(3) [of F s1, unfolded r]
  show "q \<noteq> t \<Longrightarrow> entries s' q = entries s q"
    using assms n k os_frames(1) [of q t F m s] os_frames(6) [of q t F d s1] r
    by (auto simp: fill_temp_def Let_def split: if_splits)
  show "dir_mode s' = dir_mode s"
    using assms n k os_dirs(1) [of F t m s] os_dirs(4) [of F t d s1] r
    by (auto simp: fill_temp_def Let_def split: if_splits)
  assume ok and f: "entries s t = Some f"
  then have t: "b1" "b2" "entries s' = entries s2"
    using assms n k r by (auto simp: fill_temp_def Let_def split: if_splits)
  with f os_Chmod_done [of F t m s s1] os_Write_done [of F t d s1 s2] r
  show "entries s' t = Some \<lparr>f_data = f_data f @ d, f_mode = m\<rparr>" by auto
qed

lemma os_CreateTemp_done:
  "os_CreateTemp F s = (r, s') \<Longrightarrow>
   (case r of None \<Rightarrow> entries s' = entries s
    | Some t \<Rightarrow> t = Temp (calls_made s) \<and> entries s t = None \<and> entries s' = (entries s)(t \<mapsto> \<lparr>f_data = [], f_mode = mode_0600\<rparr>))
   \<and> dir_mode s' = dir_mode s"
  by (auto simp: os_defs Let_def split: if_splits option.splits)

lemma os_Rename_done:
  "os_Rename F p q s = (ok, s') \<Longrightarrow> p \<noteq> q \<Longrightarrow>
   entries s' = (if ok then (entries s)(q := entries s p, p := None) else entries s) \<and> dir_mode s' = dir_mode s
   \<and> (ok \<longrightarrow> entries s p \<noteq> None)"
  by (auto simp: os_defs Let_def fun_upd_twist split: if_splits option.splits)

lemma sync_dir_frame: "entries (sync_dir F s) = entries s" "dir_mode (sync_dir F s) = dir_mode s"
  using os_frames(5) os_dirs(3) by (auto simp: sync_dir_def split: prod.splits bool.splits; metis snd_conv)+

lemma atomicWrite_spec:
  assumes "atomicWrite F (Named n) data mode s = (ok, s')"
  shows "entries s' (Named n) = (if ok then Some \<lparr>f_data = data, f_mode = mode\<rparr> else entries s (Named n))"
    and "k \<noteq> n \<Longrightarrow> entries s' (Named k) = entries s (Named k)" and "dir_mode s' = dir_mode s"
proof -
  obtain r s1 where c: "os_CreateTemp F s = (r, s1)" by (metis surj_pair)
  note c' = os_CreateTemp_done [OF c]
  have "entries s' (Named n) = (if ok then Some \<lparr>f_data = data, f_mode = mode\<rparr> else entries s (Named n))
    \<and> (\<forall>k. k \<noteq> n \<longrightarrow> entries s' (Named k) = entries s (Named k)) \<and> dir_mode s' = dir_mode s"
  proof (cases r)
    case None
    then show ?thesis using assms c c' by (auto simp: atomicWrite_def)
  next
    case (Some t)
    have t: "t = Temp (calls_made s)" "entries s1 = (entries s)(t \<mapsto> \<lparr>f_data = [], f_mode = mode_0600\<rparr>)"
      "dir_mode s1 = dir_mode s" using c' Some by auto
    obtain b s2 where f: "fill_temp F t data mode s1 = (b, s2)" by (metis surj_pair)
    obtain b' s3 where rn: "os_Rename F t (Named n) s2 = (b', s3)" by (metis surj_pair)
    note ff = fill_temp_frame [OF f]
    have rr: "entries s3 = (if b' then (entries s2)(Named n := entries s2 t, t := None) else entries s2)"
      "dir_mode s3 = dir_mode s2" using os_Rename_done [OF rn] t(1) by auto
    have gone: "Named k \<noteq> t" for k using t(1) by simp
    show ?thesis
      using assms c Some f rn ff(1,2) ff(3) [of "\<lparr>f_data = [], f_mode = mode_0600\<rparr>"] t(2,3) rr gone
      by (auto simp: atomicWrite_def os_frames os_dirs sync_dir_frame split: bool.splits)
  qed
  then show "entries s' (Named n) = (if ok then Some \<lparr>f_data = data, f_mode = mode\<rparr> else entries s (Named n))"
    "k \<noteq> n \<Longrightarrow> entries s' (Named k) = entries s (Named k)" "dir_mode s' = dir_mode s"
    by blast+
qed

text \<open>What is left of a temporary file has its final mode before the first byte of the data is in it.\<close>

definition leftover :: "bytes \<Rightarrow> nat \<Rightarrow> file_entry \<Rightarrow> bool" where
  "leftover data mode f \<longleftrightarrow> f = \<lparr>f_data = [], f_mode = mode_0600\<rparr> \<or> (\<exists>j. f = \<lparr>f_data = take j data, f_mode = mode\<rparr>)"

lemma fill_temp_leftover:
  assumes "fill_temp F t d m s = (ok, s')" and "entries s t = Some \<lparr>f_data = [], f_mode = mode_0600\<rparr>"
  shows "\<exists>f. entries s' t = Some f \<and> leftover d m f"
proof -
  obtain b1 s1 b2 s2 where r: "os_Chmod F t m s = (b1, s1)" "os_Write F t d s1 = (b2, s2)" by (metis surj_pair)
  have "entries s' = (if b1 then entries s2 else entries s1)"
    using assms(1) os_frames(5) [of F] by (auto simp: fill_temp_def r Let_def split: if_splits prod.splits) (metis snd_conv)+
  moreover have "\<exists>f. entries s1 t = Some f \<and> leftover d m f \<and> (b1 \<longrightarrow> f = \<lparr>f_data = [], f_mode = m\<rparr>)"
    using r(1) assms(2) by (auto simp: os_defs Let_def leftover_def split: if_splits)
  moreover have "\<exists>j. d = take j d" by (rule exI [of _ "length d"]) simp
  then have "\<exists>f. entries s2 t = Some f \<and> leftover d m f" if "entries s1 t = Some \<lparr>f_data = [], f_mode = m\<rparr>"
    using r(2) that by (auto simp: os_defs Let_def leftover_def split: if_splits)
  ultimately show ?thesis by (cases b1) auto
qed

lemma os_Remove_leaves: "entries (snd (os_Remove F t s)) t = None \<or> entries (snd (os_Remove F t s)) t = entries s t"
  by (auto simp: os_defs Let_def split: option.splits)

lemma atomicWrite_leftover:
  assumes "atomicWrite F (Named n) data mode s = (ok, s')" and "entries s' (Temp j) = Some f"
  shows "entries s (Temp j) = Some f \<or> leftover data mode f"
proof -
  obtain r s1 where c: "os_CreateTemp F s = (r, s1)" by (metis surj_pair)
  note c' = os_CreateTemp_done [OF c]
  show ?thesis
  proof (cases r)
    case None
    then show ?thesis using assms c c' by (auto simp: atomicWrite_def)
  next
    case (Some t)
    have t: "t = Temp (calls_made s)" "entries s1 = (entries s)(t \<mapsto> \<lparr>f_data = [], f_mode = mode_0600\<rparr>)"
      using c' Some by auto
    obtain b s2 where f: "fill_temp F t data mode s1 = (b, s2)" by (metis surj_pair)
    obtain b' s3 where rn: "os_Rename F t (Named n) s2 = (b', s3)" by (metis surj_pair)
    note ff = fill_temp_frame(1) [OF f] and fl = fill_temp_leftover [OF f]
    have rr: "entries s3 = (if b' then (entries s2)(Named n := entries s2 t, t := None) else entries s2)"
      using os_Rename_done [OF rn] t(1) by auto
    have removed: "entries u t = None \<or> (\<exists>f. entries u t = Some f \<and> leftover data mode f) \<Longrightarrow>
        entries (snd (os_Remove F t u)) t = None \<or> (\<exists>f. entries (snd (os_Remove F t u)) t = Some f \<and> leftover data mode f)" for u
      using os_Remove_leaves [of F t u] by auto
    show ?thesis
    proof (cases "Temp j = t")
      case False
      then show ?thesis using assms c Some f rn ff [of "Temp j"] t(2) rr
        by (auto simp: atomicWrite_def os_frames sync_dir_frame split: bool.splits)
    next
      case True
      show ?thesis
        using assms c Some f rn fl t(2) rr removed [of s2] removed [of s3] removed [of "sync_dir F s3"] True
        by (auto simp: atomicWrite_def sync_dir_frame split: bool.splits)
    qed
  qed
qed

section \<open>The interface of the writers\<close>

text \<open>
  What the code relies on where it writes a file: the file is replaced as a whole, or nothing changes, and
  the other files stay. \<open>data_of\<close> and \<open>mode_of\<close> read a named file.
\<close>

definition data_of :: "string \<Rightarrow> sys \<Rightarrow> bytes option" where
  "data_of n s = map_option f_data (entries s (Named n))"

definition mode_of :: "string \<Rightarrow> sys \<Rightarrow> nat option" where
  "mode_of n s = map_option f_mode (entries s (Named n))"

text \<open>The files \<open>K\<close>, where they exist, can be read by their owner only.\<close>

definition private_files :: "string set \<Rightarrow> sys \<Rightarrow> bool" where
  "private_files K s \<longleftrightarrow> (\<forall>k \<in> K. \<forall>m. mode_of k s = Some m \<longrightarrow> m = mode_0600)"

locale replacing_store =
  fixes put :: "string \<Rightarrow> bytes \<Rightarrow> nat \<Rightarrow> sys \<Rightarrow> bool \<times> sys"
  assumes replaces: "put n data mode s = (ok, s') \<Longrightarrow>
      entries s' (Named n) = (if ok then Some \<lparr>f_data = data, f_mode = mode\<rparr> else entries s (Named n))"
    and keeps_others: "put n data mode s = (ok, s') \<Longrightarrow> k \<noteq> n \<Longrightarrow> entries s' (Named k) = entries s (Named k)"
    and keeps_dir: "put n data mode s = (ok, s') \<Longrightarrow> dir_mode s' = dir_mode s"
begin

lemma put_data: "put n data mode s = (ok, s') \<Longrightarrow>
    data_of k s' = (if ok \<and> k = n then Some data else data_of k s)"
  by (cases "k = n") (simp_all add: data_of_def replaces keeps_others)

lemma put_mode: "put n data mode s = (ok, s') \<Longrightarrow>
    mode_of k s' = (if ok \<and> k = n then Some mode else mode_of k s)"
  by (cases "k = n") (simp_all add: mode_of_def replaces keeps_others)

lemma put_private:
  "put n data mode s = (ok, s') \<Longrightarrow> private_files K s \<Longrightarrow> n \<in> K \<Longrightarrow> mode = mode_0600 \<Longrightarrow> private_files K s'"
  "put n data mode s = (ok, s') \<Longrightarrow> private_files K s \<Longrightarrow> n \<notin> K \<Longrightarrow> private_files K s'"
  by (auto simp: private_files_def put_mode split: if_splits)

end

interpretation aw: replacing_store "\<lambda>n. atomicWrite F (Named n)" for F
  by unfold_locales (simp_all add: atomicWrite_spec)

text \<open>C29: a file is replaced as a whole or not at all. Whichever system calls fail, and wherever the program
  is killed, \<open>atomicWrite\<close> leaves the file as it was or with exactly the new content and mode, reports
  which, and changes no other file; and a temporary file it leaves behind got its final mode before the
  first byte of the content.\<close>

theorem atomicWrite_atomic:
  "\<exists>ok s'. atomicWrite F (Named n) data mode s = (ok, s')
     \<and> entries s' (Named n) = (if ok then Some \<lparr>f_data = data, f_mode = mode\<rparr> else entries s (Named n))
     \<and> (\<forall>k. k \<noteq> n \<longrightarrow> entries s' (Named k) = entries s (Named k))
     \<and> (\<forall>j f. entries s' (Temp j) = Some f \<longrightarrow> entries s (Temp j) = Some f \<or> leftover data mode f)"
proof -
  obtain ok s' where "atomicWrite F (Named n) data mode s = (ok, s')" by (metis surj_pair)
  then show ?thesis using atomicWrite_spec [of F n data mode s ok s'] atomicWrite_leftover [of F n data mode s ok s'] by auto
qed

definition sample_faults :: faults where "sample_faults = \<lparr>works = (\<lambda>k. k < 2), cut = (\<lambda>_. 1)\<rparr>"

theorem atomicWrite_atomic_witness:
  "\<exists>ok s'. atomicWrite sample_faults (Named ''a'') [1, 2] mode_0640
       \<lparr>entries = (\<lambda>_. None), dir_mode = Some mode_0750, calls_made = 0\<rparr> = (ok, s') \<and> \<not> ok
     \<and> entries s' (Named ''a'') = None \<and> entries s' (Temp 0) = Some \<lparr>f_data = [1], f_mode = mode_0640\<rparr>
     \<and> leftover [1, 2] mode_0640 \<lparr>f_data = [1], f_mode = mode_0640\<rparr>"
proof -
  let ?s = "\<lparr>entries = (\<lambda>_. None), dir_mode = Some mode_0750, calls_made = 0\<rparr>"
  obtain ok s' where r: "atomicWrite sample_faults (Named ''a'') [1, 2] mode_0640 ?s = (ok, s')"
    "\<forall>j f. entries s' (Temp j) = Some f \<longrightarrow> entries ?s (Temp j) = Some f \<or> leftover [1, 2] mode_0640 f"
    using atomicWrite_atomic [of sample_faults "''a''" "[1, 2]" mode_0640 ?s] by blast
  have run: "\<not> ok \<and> entries s' (Named ''a'') = None \<and> entries s' (Temp 0) = Some \<lparr>f_data = [1], f_mode = mode_0640\<rparr>"
    using r(1) by (auto simp: atomicWrite_def fill_temp_def os_defs sample_faults_def Let_def mode_0600_def mode_0640_def
      split: if_splits)
  moreover have "leftover [1, 2] mode_0640 \<lparr>f_data = [1], f_mode = mode_0640\<rparr>"
    using r(2) run by fastforce
  ultimately show ?thesis using r(1) by blast
qed

end
