(* ===== verification/Control_Life.thy ===== *)
theory Control_Life
  imports Control File_System
begin

text \<open>
  The life of the control socket, \<open>internal/control/server.go\<close>: \<open>Listen\<close>, \<open>Close\<close> and the accept loop over the
  run directory, and the marker files, which implement the marker set of \<open>Control\<close>.

  The directory is the one of the socket, with the files by their base names. The socket is a file entry
  without content; binding is refused where the name exists, and closing a listener unlinks its name.
\<close>

section \<open>Marker files\<close>

primrec marker_name :: "marker \<Rightarrow> string" where
  "marker_name Bypass = ''bypass''"
| "marker_name BypassOnRequest = ''bypass_on.request''"

definition marker_text :: bytes where "marker_text = [49, 10]"

definition write_marker :: "faults \<Rightarrow> path \<Rightarrow> bytes \<Rightarrow> nat \<Rightarrow> sys \<Rightarrow> bool \<times> sys" where
  "write_marker F p data mode s =
     (case os_CreateTemp F s of
        (None, s) \<Rightarrow> (False, s)
      | (Some tmp, s) \<Rightarrow>
          (case fill_temp F tmp data mode s of
             (False, s) \<Rightarrow> (False, snd (os_Remove F tmp s))
           | (True, s) \<Rightarrow>
               (case os_Rename F tmp p s of (ok, s) \<Rightarrow> (ok, snd (os_Remove F tmp s)))))"

definition atomicMarker_file :: "faults \<Rightarrow> marker \<Rightarrow> sys \<Rightarrow> bool \<times> sys" where
  "atomicMarker_file F m = write_marker F (Named (marker_name m)) marker_text mode_0600"

lemma write_marker_spec:
  assumes "write_marker F (Named n) data mode s = (ok, s')"
  shows "entries s' (Named n) = (if ok then Some \<lparr>f_data = data, f_mode = mode\<rparr> else entries s (Named n))"
    and "k \<noteq> n \<Longrightarrow> entries s' (Named k) = entries s (Named k)" and "dir_mode s' = dir_mode s"
proof -
  obtain r s1 where c: "os_CreateTemp F s = (r, s1)" by (metis surj_pair)
  note c' = os_CreateTemp_done [OF c]
  have "entries s' (Named n) = (if ok then Some \<lparr>f_data = data, f_mode = mode\<rparr> else entries s (Named n))
    \<and> (\<forall>k. k \<noteq> n \<longrightarrow> entries s' (Named k) = entries s (Named k)) \<and> dir_mode s' = dir_mode s"
  proof (cases r)
    case None
    then show ?thesis using assms c c' by (auto simp: write_marker_def)
  next
    case (Some t)
    have t: "t = Temp (calls_made s)" "entries s1 = (entries s)(t \<mapsto> \<lparr>f_data = [], f_mode = mode_0600\<rparr>)"
      "dir_mode s1 = dir_mode s" using c' Some by auto
    obtain b s2 where f: "fill_temp F t data mode s1 = (b, s2)" by (metis surj_pair)
    obtain b' s3 where rn: "os_Rename F t (Named n) s2 = (b', s3)" by (metis surj_pair)
    note ff = fill_temp_frame [OF f]
    have rr: "entries s3 = (if b' then (entries s2)(Named n := entries s2 t, t := None) else entries s2)"
      "dir_mode s3 = dir_mode s2" using os_Rename_done [OF rn] t(1) by auto
    have gone: "Named k \<noteq> t" for k using t(1) by simp
    show ?thesis
      using assms c Some f rn ff(1,2) ff(3) [of "\<lparr>f_data = [], f_mode = mode_0600\<rparr>"] t(2,3) rr gone
      by (auto simp: write_marker_def os_frames os_dirs split: bool.splits)
  qed
  then show "entries s' (Named n) = (if ok then Some \<lparr>f_data = data, f_mode = mode\<rparr> else entries s (Named n))"
    "k \<noteq> n \<Longrightarrow> entries s' (Named k) = entries s (Named k)" "dir_mode s' = dir_mode s"
    by blast+
qed

interpretation mk: replacing_store "\<lambda>n. write_marker F (Named n)" for F
  by unfold_locales (simp_all add: write_marker_spec)

text \<open>The marker set of the directory.\<close>

definition markers_of :: "sys \<Rightarrow> marker set" where
  "markers_of s = {m. data_of (marker_name m) s \<noteq> None}"

lemma marker_name_inject [simp]: "marker_name m = marker_name k \<longleftrightarrow> m = k"
  by (cases m; cases k) simp_all

text \<open>C30: the marker files implement the marker set. Whatever system calls fail, writing a marker file has the
  effect on the set of markers the abstract operation has for the outcome the file system gave: it adds the one
  marker or changes nothing; and the marker that was added has its content and is private.\<close>

theorem marker_files_refine:
  "\<exists>ok s'. atomicMarker_file F m s = (ok, s')
     \<and> atomicMarker ok m (d\<lparr>markers := markers_of s\<rparr>) = (ok, d\<lparr>markers := markers_of s'\<rparr>)
     \<and> (ok \<longrightarrow> data_of (marker_name m) s' = Some marker_text \<and> mode_of (marker_name m) s' = Some mode_0600)
     \<and> (\<forall>k. k \<noteq> marker_name m \<longrightarrow> data_of k s' = data_of k s \<and> mode_of k s' = mode_of k s)"
proof -
  obtain ok s' where r: "write_marker F (Named (marker_name m)) marker_text mode_0600 s = (ok, s')" by (metis surj_pair)
  note p = mk.put_data [OF r] mk.put_mode [OF r]
  have "markers_of s' = (if ok then insert m (markers_of s) else markers_of s)"
    by (auto simp: markers_of_def p split: if_splits)
  with r p show ?thesis by (auto simp: atomicMarker_file_def atomicMarker_def)
qed

section \<open>\<open>Listen\<close> and \<open>Close\<close>\<close>

definition mode_0660 :: nat where "mode_0660 = 432"

text \<open>\<open>net.Listen\<close> on a socket path; \<open>mask_mode\<close> is what the process's umask leaves.\<close>

definition net_Listen :: "faults \<Rightarrow> nat \<Rightarrow> path \<Rightarrow> sys \<Rightarrow> bool \<times> sys" where
  "net_Listen F mask_mode p =
     syscall F (\<lambda>s. if dir_mode s = None \<or> entries s p \<noteq> None then None
                    else Some (set_entry p (Some \<lparr>f_data = [], f_mode = mask_mode\<rparr>) s))"

text \<open>Closing the listener unlinks its name first, whatever that gives.\<close>

definition unlink_listener :: "faults \<Rightarrow> path \<Rightarrow> sys \<Rightarrow> sys" where
  "unlink_listener F p s = snd (os_Remove F p s)"

text \<open>The control server: \<open>s.ln\<close> is set or nil, and whether a socket is listening.\<close>

record control_life =
  cl_sys :: sys
  has_ln :: bool
  listening :: bool

datatype listen_failure = MkdirFailed | BindFailed | ChmodFailed

definition control_Listen :: "faults \<Rightarrow> nat \<Rightarrow> string \<Rightarrow> control_life \<Rightarrow> listen_failure option \<times> control_life" where
  "control_Listen F mask_mode sock c =
     (case os_MkdirAll F mode_0750 (cl_sys c) of
        (False, s) \<Rightarrow> (Some MkdirFailed, c\<lparr>cl_sys := s\<rparr>)
      | (True, s) \<Rightarrow>
          (case net_Listen F mask_mode (Named sock) (snd (os_Remove F (Named sock) s)) of
             (False, s) \<Rightarrow> (Some BindFailed, c\<lparr>cl_sys := s\<rparr>)
           | (True, s) \<Rightarrow>
               (case os_Chmod F (Named sock) mode_0660 s of
                  (False, s) \<Rightarrow> (Some ChmodFailed, c\<lparr>cl_sys := unlink_listener F (Named sock) s\<rparr>)
                | (True, s) \<Rightarrow> (None, c\<lparr>cl_sys := s, has_ln := True, listening := True\<rparr>))))"

text \<open>\<open>os.Remove\<close> with the absence of the file told apart: the error \<open>Close\<close> reports is any other.\<close>

definition remove_error :: "faults \<Rightarrow> sys \<Rightarrow> bool" where
  "remove_error F s \<longleftrightarrow> \<not> works F (calls_made s)"

definition control_Close :: "faults \<Rightarrow> string \<Rightarrow> control_life \<Rightarrow> bool \<times> control_life" where
  "control_Close F sock c =
     (if \<not> has_ln c
      then (\<not> remove_error F (cl_sys c), c\<lparr>cl_sys := snd (os_Remove F (Named sock) (cl_sys c))\<rparr>)
      else let s = unlink_listener F (Named sock) (cl_sys c)
           in (\<not> remove_error F s,
               c\<lparr>cl_sys := snd (os_Remove F (Named sock) s), has_ln := False, listening := False\<rparr>))"

lemma net_Listen_done:
  "net_Listen F m p s = (ok, s') \<Longrightarrow>
   entries s' = (if ok then (entries s)(p \<mapsto> \<lparr>f_data = [], f_mode = m\<rparr>) else entries s) \<and> (ok \<longrightarrow> entries s p = None)"
  by (auto simp: net_Listen_def syscall_def Let_def split: if_splits)

lemma os_Remove_done:
  "entries (snd (os_Remove F p s)) = (if works F (calls_made s) then (entries s)(p := None) else entries s)"
  by (auto simp: os_defs Let_def fun_upd_idem split: option.splits)

lemma os_Chmod_entry:
  "os_Chmod F p m s = (ok, s') \<Longrightarrow>
   entries s' = (if ok then (entries s)(p := map_option (\<lambda>f. f\<lparr>f_mode := m\<rparr>) (entries s p)) else entries s)
   \<and> (ok \<longrightarrow> entries s p \<noteq> None)"
  by (auto simp: os_defs Let_def split: option.splits if_splits)

text \<open>A successful \<open>Listen\<close>, a failed one, and what neither touches.\<close>

lemma control_Listen_spec:
  assumes "control_Listen F u sock c = (r, c')"
  shows "r = None \<Longrightarrow> has_ln c' \<and> listening c' \<and> entries (cl_sys c') (Named sock) = Some \<lparr>f_data = [], f_mode = mode_0660\<rparr>"
    and "r \<noteq> None \<Longrightarrow> has_ln c' = has_ln c \<and> listening c' = listening c"
    and "q \<noteq> Named sock \<Longrightarrow> entries (cl_sys c') q = entries (cl_sys c) q"
proof -
  obtain b1 s1 b2 s2 b3 s3 where r: "os_MkdirAll F mode_0750 (cl_sys c) = (b1, s1)"
    "net_Listen F u (Named sock) (snd (os_Remove F (Named sock) s1)) = (b2, s2)"
    "os_Chmod F (Named sock) mode_0660 s2 = (b3, s3)" by (metis surj_pair)
  have m: "entries s1 = entries (cl_sys c)" using os_frames(3) [of F mode_0750 "cl_sys c"] by (simp add: r)
  note l = net_Listen_done [OF r(2)] and k = os_Chmod_entry [OF r(3)]
  show "r = None \<Longrightarrow> has_ln c' \<and> listening c' \<and> entries (cl_sys c') (Named sock) = Some \<lparr>f_data = [], f_mode = mode_0660\<rparr>"
    using assms l k by (auto simp: control_Listen_def r split: bool.splits)
  show "r \<noteq> None \<Longrightarrow> has_ln c' = has_ln c \<and> listening c' = listening c"
    using assms by (auto simp: control_Listen_def r split: bool.splits)
  show "q \<noteq> Named sock \<Longrightarrow> entries (cl_sys c') q = entries (cl_sys c) q"
    using assms l k m
    by (auto simp: control_Listen_def r unlink_listener_def os_Remove_done split: bool.splits if_splits)
qed

lemma control_Listen_works:
  assumes "\<And>k. works F k"
  shows "fst (control_Listen F u sock c) = None"
  using assms by (auto simp: control_Listen_def net_Listen_def os_defs Let_def split: option.splits)

lemma control_Close_spec:
  assumes "control_Close F sock c = (ok, c')"
  shows "ok \<Longrightarrow> entries (cl_sys c') (Named sock) = None"
    and "\<not> has_ln c'" and "listening c \<longrightarrow> has_ln c \<Longrightarrow> \<not> listening c'"
    and "q \<noteq> Named sock \<Longrightarrow> entries (cl_sys c') q = entries (cl_sys c) q"
  using assms by (auto simp: control_Close_def Let_def unlink_listener_def os_Remove_done remove_error_def
      split: if_splits)

text \<open>C40: the control socket's life cycle. Whatever system calls fail: a \<open>Listen\<close> that reports success leaves a
  listening socket whose file has the mode 0660, one that fails leaves nothing listening that was not; a
  \<open>Close\<close> always stops listening and, when it reports success, has removed the file; neither touches another
  file. A socket file that a killed process left does not keep \<open>Listen\<close> from succeeding.\<close>

theorem control_socket_lifecycle:
  assumes "listening c = has_ln c" and "control_Listen F u sock c = (r, c1)" and "control_Close F' sock c1 = (ok, c2)"
  shows "(r = None \<longrightarrow> has_ln c1 \<and> listening c1 \<and> mode_of sock (cl_sys c1) = Some mode_0660)
     \<and> (r \<noteq> None \<longrightarrow> has_ln c1 = has_ln c \<and> listening c1 = listening c)
     \<and> \<not> has_ln c2 \<and> \<not> listening c2 \<and> (ok \<longrightarrow> mode_of sock (cl_sys c2) = None)
     \<and> (\<forall>q. q \<noteq> sock \<longrightarrow> entries (cl_sys c2) (Named q) = entries (cl_sys c) (Named q))
     \<and> ((\<forall>k. works F k) \<longrightarrow> r = None)"
proof -
  note l = control_Listen_spec [OF assms(2)] and k = control_Close_spec [OF assms(3)]
  have "listening c1 = has_ln c1" using l(1,2) assms(1) by (cases r) auto
  then have "\<not> has_ln c2" "\<not> listening c2" using k(2,3) by auto
  moreover have "r = None" if "\<forall>k. works F k"
    using control_Listen_works [of F u sock c] that assms(2) by simp
  moreover have "ok \<longrightarrow> mode_of sock (cl_sys c2) = None" using k(1) by (simp add: mode_of_def)
  moreover have "mode_of sock (cl_sys c1) = Some mode_0660" if "r = None" using l(1) that by (simp add: mode_of_def)
  ultimately show ?thesis using l k(4) by (intro conjI impI allI) simp_all
qed

section \<open>The accept loop\<close>

text \<open>
  The loop reads \<open>s.ln\<close> again before every \<open>Accept\<close>, without the mutex that \<open>Close\<close> holds when it sets it to
  nil; calling \<open>Accept\<close> on the nil interface panics.
\<close>

datatype acceptor = NotStarted | Looping | Accepting | Loop_ended | Panicked

record accept_state =
  life :: control_life
  acc :: acceptor
  open_handlers :: nat

inductive accept_step :: "faults \<Rightarrow> nat \<Rightarrow> string \<Rightarrow> accept_state \<Rightarrow> accept_state \<Rightarrow> bool"
  for F :: faults and u :: nat and sock :: string
where
  listen_step: "acc a = NotStarted \<Longrightarrow> control_Listen F u sock (life a) = (r, c) \<Longrightarrow>
    accept_step F u sock a (a\<lparr>life := c, acc := (if r = None then Looping else NotStarted)\<rparr>)"
| call_Accept: "acc a = Looping \<Longrightarrow> has_ln (life a) \<Longrightarrow> accept_step F u sock a (a\<lparr>acc := Accepting\<rparr>)"
| nil_Accept: "acc a = Looping \<Longrightarrow> \<not> has_ln (life a) \<Longrightarrow> accept_step F u sock a (a\<lparr>acc := Panicked\<rparr>)"
| accepted: "acc a = Accepting \<Longrightarrow> listening (life a) \<Longrightarrow>
    accept_step F u sock a (a\<lparr>acc := Looping, open_handlers := Suc (open_handlers a)\<rparr>)"
| accept_failed: "acc a = Accepting \<Longrightarrow> accept_step F u sock a (a\<lparr>acc := Loop_ended\<rparr>)"
| handler_done: "open_handlers a = Suc n \<Longrightarrow> accept_step F u sock a (a\<lparr>open_handlers := n\<rparr>)"
| close_call: "acc a \<noteq> Panicked \<Longrightarrow> control_Close F sock (life a) = (r, c) \<Longrightarrow>
    accept_step F u sock a (a\<lparr>life := c\<rparr>)"

definition accept_start :: "sys \<Rightarrow> accept_state" where
  "accept_start s = \<lparr>life = \<lparr>cl_sys = s, has_ln = False, listening = False\<rparr>, acc = NotStarted, open_handlers = 0\<rparr>"

definition accept_inv :: "accept_state \<Rightarrow> bool" where
  "accept_inv a \<longleftrightarrow> listening (life a) = has_ln (life a) \<and> (acc a = NotStarted \<longrightarrow> open_handlers a = 0 \<and> \<not> has_ln (life a))
     \<and> (acc a = Panicked \<longrightarrow> \<not> has_ln (life a))"

lemma accept_inv_step: "accept_step F u sock a a' \<Longrightarrow> accept_inv a \<Longrightarrow> accept_inv a'"
proof (induction rule: accept_step.induct)
  case (listen_step a r c)
  then show ?case using control_Listen_spec(1,2) [OF listen_step(2)] by (cases r) (auto simp: accept_inv_def)
next
  case (close_call a r c)
  then show ?case using control_Close_spec(2,3) [OF close_call(2)] by (auto simp: accept_inv_def)
qed (auto simp: accept_inv_def)

lemma accept_loop_inv_reach: "(accept_step F u sock)\<^sup>*\<^sup>* (accept_start s) a \<Longrightarrow> accept_inv a"
  by (induction rule: rtranclp_induct) (auto simp: accept_inv_step, simp add: accept_inv_def accept_start_def)

text \<open>the accept loop and \<open>Close\<close>. In every interleaving of the loop, its clients and any number of
  \<open>Close\<close> calls, the socket listens exactly while \<open>s.ln\<close> is set, and the loop can only panic after a \<open>Close\<close>.\<close>

theorem accept_loop_invariant:
  assumes "(accept_step F u sock)\<^sup>*\<^sup>* (accept_start s) a"
  shows "listening (life a) = has_ln (life a) \<and> (acc a = Panicked \<longrightarrow> \<not> has_ln (life a))"
  using accept_loop_inv_reach [OF assms] by (simp add: accept_inv_def)

text \<open>The loop and \<open>Close\<close> at once: the panic is reached when \<open>Close\<close> runs between two calls of \<open>Accept\<close>; and one failed \<open>Accept\<close> ends the
  loop while the socket stays bound.\<close>

definition quiet_directory :: sys where
  "quiet_directory = \<lparr>entries = (\<lambda>_. None), dir_mode = Some mode_0750, calls_made = 0\<rparr>"

definition calls_work :: faults where "calls_work = \<lparr>works = (\<lambda>_. True), cut = (\<lambda>_. 0)\<rparr>"

lemma listen_reached:
  "\<exists>a. (accept_step calls_work u sock)\<^sup>*\<^sup>* (accept_start s) a \<and> acc a = Looping \<and> has_ln (life a)"
proof -
  obtain r c where l: "control_Listen calls_work u sock (life (accept_start s)) = (r, c)" by (metis surj_pair)
  then have "r = None" using control_Listen_works [of calls_work u sock "life (accept_start s)"] by (simp add: calls_work_def)
  with l have "accept_step calls_work u sock (accept_start s) ((accept_start s)\<lparr>life := c, acc := Looping\<rparr>)" "has_ln c"
    using listen_step [of "accept_start s" calls_work u sock r c] control_Listen_spec(1) [OF l]
    by (simp_all add: accept_start_def)
  then show ?thesis by (intro exI conjI) (erule r_into_rtranclp, simp_all)
qed

lemma close_panics: "\<exists>a. (accept_step calls_work u sock)\<^sup>*\<^sup>* (accept_start s) a \<and> acc a = Panicked"
proof -
  obtain a where a: "(accept_step calls_work u sock)\<^sup>*\<^sup>* (accept_start s) a" "acc a = Looping" using listen_reached by blast
  obtain r c where c: "control_Close calls_work sock (life a) = (r, c)" by (metis surj_pair)
  from a(2) have "accept_step calls_work u sock a (a\<lparr>life := c\<rparr>)" by (intro close_call [OF _ c]) simp
  moreover have "accept_step calls_work u sock (a\<lparr>life := c\<rparr>) (a\<lparr>life := c, acc := Panicked\<rparr>)"
    using nil_Accept [of "a\<lparr>life := c\<rparr>" calls_work u sock] a(2) control_Close_spec(2) [OF c] by simp
  ultimately show ?thesis using a(1) 
    by (intro exI [of _ "a\<lparr>life := c, acc := Panicked\<rparr>"] conjI)
      (rule rtranclp.rtrancl_into_rtrancl [OF rtranclp.rtrancl_into_rtrancl], simp_all)
qed

lemma loop_ends_listening:
  "\<exists>a. (accept_step calls_work u sock)\<^sup>*\<^sup>* (accept_start s) a \<and> acc a = Loop_ended \<and> listening (life a)"
proof -
  obtain a where a: "(accept_step calls_work u sock)\<^sup>*\<^sup>* (accept_start s) a" "acc a = Looping" "has_ln (life a)"
    using listen_reached by blast
  note s1 = call_Accept [OF a(2,3), of calls_work u sock]
  have "accept_step calls_work u sock (a\<lparr>acc := Accepting\<rparr>) (a\<lparr>acc := Loop_ended\<rparr>)"
    using accept_failed [of "a\<lparr>acc := Accepting\<rparr>" calls_work u sock] by simp
  with a(1) s1 have r: "(accept_step calls_work u sock)\<^sup>*\<^sup>* (accept_start s) (a\<lparr>acc := Loop_ended\<rparr>)" by simp
  from accept_loop_inv_reach [OF r] show ?thesis using r a(3)
    by (intro exI [of _ "a\<lparr>acc := Loop_ended\<rparr>"] conjI) (auto simp: accept_inv_def)
qed

text \<open>A stale socket file of a killed daemon, and the next run.\<close>

definition stale_directory :: sys where
  "stale_directory = set_entry (Named ''control.sock'') (Some \<lparr>f_data = [], f_mode = mode_0660\<rparr>) quiet_directory"

theorem control_socket_lifecycle_witness:
  "\<exists>c1 c2. control_Listen calls_work 493 ''control.sock'' \<lparr>cl_sys = stale_directory, has_ln = False, listening = False\<rparr> = (None, c1)
     \<and> control_Close calls_work ''control.sock'' c1 = (True, c2) \<and> mode_of ''control.sock'' (cl_sys c2) = None"
proof -
  let ?c = "\<lparr>cl_sys = stale_directory, has_ln = False, listening = False\<rparr>"
  obtain r c1 ok c2 where l: "control_Listen calls_work 493 ''control.sock'' ?c = (r, c1)"
    and k: "control_Close calls_work ''control.sock'' c1 = (ok, c2)" by (metis surj_pair)
  have "listening ?c = has_ln ?c" by simp
  note th = control_socket_lifecycle [OF this l k]
  moreover have "ok" using k by (auto simp: control_Close_def Let_def remove_error_def calls_work_def split: if_splits)
  ultimately show ?thesis using l k by (auto simp: calls_work_def)
qed

theorem accept_loop_invariant_witness:
  "\<exists>a. (accept_step calls_work 493 ''control.sock'')\<^sup>*\<^sup>* (accept_start stale_directory) a \<and> acc a = Looping \<and> listening (life a)"
  using listen_reached [of 493 "''control.sock''" stale_directory] accept_loop_invariant by metis

text \<open>A first marker in a directory that a killed daemon left.\<close>

theorem marker_files_refine_witness:
  "\<exists>s'. atomicMarker_file calls_work BypassOnRequest stale_directory = (True, s')
     \<and> data_of ''bypass_on.request'' s' = Some marker_text \<and> mode_of ''bypass_on.request'' s' = Some mode_0600
     \<and> data_of ''control.sock'' s' = Some []"
proof -
  obtain ok s' where r: "atomicMarker_file calls_work BypassOnRequest stale_directory = (ok, s')"
    "ok \<longrightarrow> data_of (marker_name BypassOnRequest) s' = Some marker_text \<and> mode_of (marker_name BypassOnRequest) s' = Some mode_0600"
    "\<forall>k. k \<noteq> marker_name BypassOnRequest \<longrightarrow> data_of k s' = data_of k stale_directory \<and> mode_of k s' = mode_of k stale_directory"
    using marker_files_refine [of calls_work BypassOnRequest stale_directory sample_daemon] by blast
  moreover have "fst (atomicMarker_file calls_work BypassOnRequest stale_directory)"
    by (simp add: atomicMarker_file_def write_marker_def fill_temp_def os_defs calls_work_def stale_directory_def
        quiet_directory_def Let_def)
  moreover have "data_of ''control.sock'' stale_directory = Some []" by (simp add: stale_directory_def data_of_def)
  ultimately show ?thesis by simp
qed

end
