(* ===== verification/Router.thy ===== *)
theory Router
  imports Transparent
begin

text \<open>
  The life of connections in \<open>routeTransparent\<close>, \<open>queueListener\<close> and the \<open>ConnState\<close> hook of the HTTP server
  (\<open>transparent_server.go\<close>, \<open>mitm.go\<close>), as a step relation over all interleavings of the connections'
  goroutines, with the connection slots and the map \<open>connReleases\<close> of release functions. An abstract
  specification, a bounded pool of live connections, is refined by it.
\<close>

section \<open>The state\<close>

text \<open>What the goroutine of a connection is about to do.\<close>

datatype phase =
    Fresh                            \<comment> \<open>accepted by no listener yet\<close>
  | Resolving                        \<comment> \<open>holds a slot, asks for the original destination\<close>
  | Reading addr                     \<comment> \<open>in \<open>readAndClassify\<close>\<close>
  | Offered addr bytes stream        \<comment> \<open>sends the TLS connection to the queue\<close>
  | Served addr bytes stream         \<comment> \<open>accepted by the HTTP server\<close>
  | Relaying addr bytes stream       \<comment> \<open>in \<open>relayPrefixed\<close>\<close>
  | Gone                             \<comment> \<open>closed or hijacked\<close>

datatype conn_state = StateNew | StateActive | StateIdle | StateHijacked | StateClosed

record router =
  conn_slots :: slots
  connReleases :: "nat set"          \<comment> \<open>the connections with a stored release function\<close>
  once_done :: "nat set"             \<comment> \<open>the connections whose \<open>releaseOnce\<close> has run\<close>
  phase_of :: "nat \<Rightarrow> phase"
  queue_done :: bool

text \<open>The network: the reads each connection will return and the resolver's answers.\<close>

record network =
  wire :: "nat \<Rightarrow> stream"
  original_dst :: "nat \<Rightarrow> addr option"
  sni_allowlist :: "(string \<times> bool) list"

definition start_router :: "nat \<Rightarrow> router" where
  "start_router n = \<lparr>conn_slots = make_slots n, connReleases = {}, once_done = {},
     phase_of = (\<lambda>_. Fresh), queue_done = False\<rparr>"

definition enter_phase :: "nat \<Rightarrow> phase \<Rightarrow> router \<Rightarrow> router" where
  "enter_phase c ph rt = rt\<lparr>phase_of := (phase_of rt)(c := ph)\<rparr>"

section \<open>The code\<close>

text \<open>\<open>release\<close>: \<open>sync.Once\<close> around the receive from \<open>connSlots\<close>.\<close>

definition release_conn :: "nat \<Rightarrow> router \<Rightarrow> router" where
  "release_conn c rt =
     (if c \<in> once_done rt then rt
      else rt\<lparr>conn_slots := receive (conn_slots rt), once_done := insert c (once_done rt)\<rparr>)"

text \<open>\<open>LoadAndDelete\<close> of the release function and its call.\<close>

definition take_release :: "nat \<Rightarrow> router \<Rightarrow> router" where
  "take_release c rt =
     (if c \<in> connReleases rt then release_conn c (rt\<lparr>connReleases := connReleases rt - {c}\<rparr>) else rt)"

definition ConnState :: "nat \<Rightarrow> conn_state \<Rightarrow> router \<Rightarrow> router" where
  "ConnState c st rt = (if st \<noteq> StateClosed \<and> st \<noteq> StateHijacked then rt else take_release c rt)"

inductive rstep :: "network \<Rightarrow> router \<Rightarrow> router \<Rightarrow> bool" for net where
  admit: "phase_of rt c = Fresh \<Longrightarrow> try_send (conn_slots rt) = Some sl \<Longrightarrow>
    rstep net rt (enter_phase c Resolving (rt\<lparr>conn_slots := sl\<rparr>))"
| refuse: "phase_of rt c = Fresh \<Longrightarrow> try_send (conn_slots rt) = None \<Longrightarrow>
    rstep net rt (enter_phase c Gone rt)"
| unresolved: "phase_of rt c = Resolving \<Longrightarrow> original_dst net c = None \<Longrightarrow>
    rstep net rt (enter_phase c Gone (release_conn c rt))"
| resolved: "phase_of rt c = Resolving \<Longrightarrow> original_dst net c = Some dst \<Longrightarrow>
    rstep net rt (enter_phase c (Reading dst) rt)"
| passed: "phase_of rt c = Reading dst \<Longrightarrow>
    readAndClassify (wire net c) dst (sni_allowlist net) = Some ((b, Passthrough), s) \<Longrightarrow>
    rstep net rt (enter_phase c (Relaying dst b s) rt)"
| intercepted: "phase_of rt c = Reading dst \<Longrightarrow>
    readAndClassify (wire net c) dst (sni_allowlist net) = Some ((b, MITM), s) \<Longrightarrow>
    rstep net rt (enter_phase c (Offered dst b s) (rt\<lparr>connReleases := insert c (connReleases rt)\<rparr>))"
| handed: "phase_of rt c = Offered dst b s \<Longrightarrow> rstep net rt (enter_phase c (Served dst b s) rt)"
| abandoned: "phase_of rt c = Offered dst b s \<Longrightarrow> queue_done rt \<Longrightarrow>
    rstep net rt (enter_phase c Gone (take_release c rt))"
| state_change: "phase_of rt c = Served dst b s \<Longrightarrow> st \<noteq> StateClosed \<Longrightarrow> st \<noteq> StateHijacked \<Longrightarrow>
    rstep net rt (ConnState c st rt)"
| served: "phase_of rt c = Served dst b s \<Longrightarrow> st = StateClosed \<or> st = StateHijacked \<Longrightarrow>
    rstep net rt (enter_phase c Gone (ConnState c st rt))"
| relayed_all: "phase_of rt c = Relaying dst b s \<Longrightarrow> rstep net rt (enter_phase c Gone (release_conn c rt))"
| closing: "rstep net rt (rt\<lparr>queue_done := True\<rparr>)"

inductive_cases rstep_elim: "rstep net rt rt'"

inductive running :: "network \<Rightarrow> nat \<Rightarrow> router \<Rightarrow> bool" for net n where
  started: "running net n (start_router n)"
| stepped: "running net n rt \<Longrightarrow> rstep net rt rt' \<Longrightarrow> running net n rt'"

section \<open>The invariant\<close>

definition live :: "router \<Rightarrow> nat set" where
  "live rt = {c. phase_of rt c \<noteq> Fresh \<and> phase_of rt c \<noteq> Gone}"

fun queued :: "phase \<Rightarrow> bool" where
  "queued (Offered dst b s) = True"
| "queued (Served dst b s) = True"
| "queued _ = False"

fun phase_ok :: "network \<Rightarrow> nat \<Rightarrow> phase \<Rightarrow> bool" where
  "phase_ok net c (Offered dst b s) \<longleftrightarrow>
     readAndClassify (wire net c) dst (sni_allowlist net) = Some ((b, MITM), s) \<and> original_dst net c = Some dst"
| "phase_ok net c (Served dst b s) \<longleftrightarrow>
     readAndClassify (wire net c) dst (sni_allowlist net) = Some ((b, MITM), s) \<and> original_dst net c = Some dst"
| "phase_ok net c (Relaying dst b s) \<longleftrightarrow>
     readAndClassify (wire net c) dst (sni_allowlist net) = Some ((b, Passthrough), s) \<and> original_dst net c = Some dst"
| "phase_ok net c (Reading dst) \<longleftrightarrow> original_dst net c = Some dst"
| "phase_ok net c _ \<longleftrightarrow> True"

definition router_inv :: "network \<Rightarrow> nat \<Rightarrow> router \<Rightarrow> bool" where
  "router_inv net n rt \<longleftrightarrow>
     finite (live rt) \<and> in_use (conn_slots rt) = card (live rt) \<and> slot_cap (conn_slots rt) = n
     \<and> card (live rt) \<le> n
     \<and> connReleases rt = {c. queued (phase_of rt c)}
     \<and> once_done rt \<subseteq> {c. phase_of rt c = Gone}
     \<and> (\<forall>c. phase_ok net c (phase_of rt c))"

lemma enter_phase_simps [simp]:
  "conn_slots (enter_phase c ph rt) = conn_slots rt" "connReleases (enter_phase c ph rt) = connReleases rt"
  "once_done (enter_phase c ph rt) = once_done rt" "queue_done (enter_phase c ph rt) = queue_done rt"
  "phase_of (enter_phase c ph rt) = (phase_of rt)(c := ph)"
  by (simp_all add: enter_phase_def)

lemma live_enter:
  "live (enter_phase c ph rt) = (if ph = Fresh \<or> ph = Gone then live rt - {c} else insert c (live rt))"
  by (auto simp: live_def split: if_splits)

lemma release_conn_simps [simp]:
  "connReleases (release_conn c rt) = connReleases rt" "phase_of (release_conn c rt) = phase_of rt"
  "live (release_conn c rt) = live rt"
  "c \<notin> once_done rt \<Longrightarrow> conn_slots (release_conn c rt) = receive (conn_slots rt)"
  "c \<notin> once_done rt \<Longrightarrow> once_done (release_conn c rt) = insert c (once_done rt)"
  by (simp_all add: release_conn_def live_def)

lemma take_release_queued:
  "c \<in> connReleases rt \<Longrightarrow> take_release c rt = release_conn c (rt\<lparr>connReleases := connReleases rt - {c}\<rparr>)"
  by (simp add: take_release_def)

lemma live_update [simp]: "live (rt\<lparr>conn_slots := sl\<rparr>) = live rt" "live (rt\<lparr>connReleases := R\<rparr>) = live rt"
  "live (rt\<lparr>queue_done := q\<rparr>) = live rt"
  by (simp_all add: live_def)

text \<open>A live connection leaves: its slot, and its stored release function if it had one, go with it.\<close>

definition leave :: "nat \<Rightarrow> router \<Rightarrow> router" where
  "leave c rt = enter_phase c Gone (release_conn c (rt\<lparr>connReleases := connReleases rt - {c}\<rparr>))"

lemma live_leave: "live (leave c rt) = live rt - {c}" "queue_done (leave c rt) = queue_done rt"
  by (simp_all add: leave_def live_enter release_conn_def, simp_all add: live_def)

lemma leave_inv:
  assumes "router_inv net n rt" and "c \<in> live rt"
  shows "router_inv net n (leave c rt)"
proof -
  have "c \<notin> once_done rt" using assms by (auto simp: router_inv_def live_def)
  moreover have "0 < card (live rt)" using assms by (auto simp: router_inv_def card_gt_0_iff)
  moreover have "live (leave c rt) = live rt - {c}" by (simp add: leave_def live_enter)
  ultimately show ?thesis
    using assms by (auto simp: router_inv_def leave_def receive_def)
qed

text \<open>The exits of the code are that one operation.\<close>

lemma take_release_leave:
  "router_inv net n rt \<Longrightarrow> queued (phase_of rt c) \<Longrightarrow> enter_phase c Gone (take_release c rt) = leave c rt"
  by (simp add: router_inv_def take_release_def leave_def)

lemma release_leave:
  "router_inv net n rt \<Longrightarrow> \<not> queued (phase_of rt c) \<Longrightarrow> enter_phase c Gone (release_conn c rt) = leave c rt"
proof -
  assume "router_inv net n rt" "\<not> queued (phase_of rt c)"
  then have "connReleases rt - {c} = connReleases rt" by (auto simp: router_inv_def)
  then have "rt\<lparr>connReleases := connReleases rt - {c}\<rparr> = rt" by simp
  then show ?thesis by (simp add: leave_def)
qed

lemma rstep_exits:
  assumes "rstep net rt rt'" and inv: "router_inv net n rt"
  shows "(\<exists>c \<in> live rt. rt' = leave c rt)
    \<or> (\<exists>c sl. phase_of rt c = Fresh \<and> try_send (conn_slots rt) = Some sl
          \<and> rt' = enter_phase c Resolving (rt\<lparr>conn_slots := sl\<rparr>))
    \<or> (\<exists>c. phase_of rt c = Fresh \<and> try_send (conn_slots rt) = None \<and> rt' = enter_phase c Gone rt)
    \<or> (router_inv net n rt' \<and> live rt' = live rt \<and> (\<forall>c. phase_of rt' c = Gone \<longleftrightarrow> phase_of rt c = Gone))"
  using assms(1)
proof cases
  case (unresolved c)
  then have "c \<in> live rt" "rt' = leave c rt" using release_leave [OF inv, of c] by (auto simp: live_def)
  then show ?thesis by blast
next
  case (abandoned c dst b s)
  then have "c \<in> live rt" "rt' = leave c rt" using take_release_leave [OF inv, of c] by (auto simp: live_def)
  then show ?thesis by blast
next
  case (served c dst b s st)
  then have "c \<in> live rt" "rt' = leave c rt"
    using take_release_leave [OF inv, of c] by (auto simp: live_def ConnState_def)
  then show ?thesis by blast
next
  case (relayed_all c dst b s)
  then have "c \<in> live rt" "rt' = leave c rt" using release_leave [OF inv, of c] by (auto simp: live_def)
  then show ?thesis by blast
next
  case (admit c sl)
  then show ?thesis by blast
next
  case (refuse c)
  then show ?thesis by blast
next
  case (state_change c dst b s st)
  then show ?thesis using inv by (simp add: ConnState_def)
next
  case (closing)
  then show ?thesis using inv by (simp add: router_inv_def)
next
  case (resolved c dst)
  moreover from this have "live rt' = live rt" by (auto simp: live_enter live_def)
  ultimately show ?thesis using inv by (auto simp: router_inv_def)
next
  case (passed c dst b s)
  moreover from this have "live rt' = live rt" by (auto simp: live_enter live_def)
  moreover have "phase_ok net c (phase_of rt c)" using inv by (simp add: router_inv_def)
  ultimately show ?thesis using inv by (auto simp: router_inv_def)
next
  case (intercepted c dst b s)
  moreover from this have "live rt' = live rt" by (auto simp: live_enter live_def)
  moreover have "phase_ok net c (phase_of rt c)" using inv by (simp add: router_inv_def)
  ultimately show ?thesis using inv by (auto simp: router_inv_def)
next
  case (handed c dst b s)
  moreover from this have "live rt' = live rt" by (auto simp: live_enter live_def)
  moreover have "phase_ok net c (phase_of rt c)" using inv by (simp add: router_inv_def)
  ultimately show ?thesis using inv by (auto simp: router_inv_def)
qed

lemma rstep_inv: "router_inv net n rt \<Longrightarrow> rstep net rt rt' \<Longrightarrow> router_inv net n rt'"
proof -
  assume inv: "router_inv net n rt" and st: "rstep net rt rt'"
  from rstep_exits [OF st inv] show ?thesis
  proof (elim disjE bexE exE conjE)
    fix c sl
    assume a: "phase_of rt c = Fresh" "try_send (conn_slots rt) = Some sl"
      "rt' = enter_phase c Resolving (rt\<lparr>conn_slots := sl\<rparr>)"
    then have "live rt' = insert c (live rt)" "c \<notin> live rt" by (auto simp: live_enter live_def)
    then show ?thesis
      using inv a by (auto simp: router_inv_def try_send_def split: if_splits)
  next
    fix c
    assume a: "phase_of rt c = Fresh" "rt' = enter_phase c Gone rt"
    then have "live rt' = live rt" by (auto simp: live_enter live_def)
    then show ?thesis using inv a by (auto simp: router_inv_def)
  qed (use leave_inv [OF inv] in auto)
qed

lemma running_inv: "running net n rt \<Longrightarrow> router_inv net n rt"
proof (induction rule: running.induct)
  case started
  then show ?case by (simp add: router_inv_def start_router_def live_def make_slots_def)
next
  case (stepped rt rt')
  then show ?case using rstep_inv by blast
qed

section \<open>The specification: a bounded pool\<close>

text \<open>The connections inside, and those that have left or were turned away.\<close>

type_synonym pool = "nat set \<times> nat set"

inductive pool_spec :: "nat \<Rightarrow> pool \<Rightarrow> pool \<Rightarrow> bool" for n where
  enters: "c \<notin> inside \<union> outside \<Longrightarrow> card inside < n \<Longrightarrow> pool_spec n (inside, outside) (insert c inside, outside)"
| turned_away: "c \<notin> inside \<union> outside \<Longrightarrow> card inside = n \<Longrightarrow> pool_spec n (inside, outside) (inside, insert c outside)"
| leaves: "c \<in> inside \<Longrightarrow> pool_spec n (inside, outside) (inside - {c}, insert c outside)"

definition abstract_pool :: "router \<Rightarrow> pool" where
  "abstract_pool rt = (live rt, {c. phase_of rt c = Gone})"

text \<open>C11: connection admission refines its specification. Every step any goroutine takes, seen through the
  set of live connections, is a connection entering while fewer than \<open>n\<close> are inside, one turned away
  because \<open>n\<close> are inside, one leaving for good, or nothing.\<close>

theorem router_refines_pool:
  assumes "running net n rt" and "rstep net rt rt'"
  shows "pool_spec n (abstract_pool rt) (abstract_pool rt') \<or> abstract_pool rt' = abstract_pool rt"
  using rstep_exits [OF assms(2) running_inv [OF assms(1)]]
proof (elim disjE bexE exE conjE)
  fix c assume c: "c \<in> live rt" "rt' = leave c rt"
  then have "abstract_pool rt' = (live rt - {c}, insert c {c. phase_of rt c = Gone})"
    by (auto simp: abstract_pool_def leave_def live_enter)
  then show ?thesis using pool_spec.leaves [OF c(1)] by (simp add: abstract_pool_def)
next
  fix c sl
  assume a: "phase_of rt c = Fresh" "try_send (conn_slots rt) = Some sl"
    "rt' = enter_phase c Resolving (rt\<lparr>conn_slots := sl\<rparr>)"
  then have "abstract_pool rt' = (insert c (live rt), {c. phase_of rt c = Gone})"
    by (auto simp: abstract_pool_def live_enter)
  moreover have "c \<notin> live rt \<union> {c. phase_of rt c = Gone}" "card (live rt) < n"
    using a running_inv [OF assms(1)] by (auto simp: live_def router_inv_def try_send_def split: if_splits)
  ultimately show ?thesis using pool_spec.enters by (simp add: abstract_pool_def)
next
  fix c
  assume a: "phase_of rt c = Fresh" "try_send (conn_slots rt) = None" "rt' = enter_phase c Gone rt"
  then have "abstract_pool rt' = (live rt, insert c {c. phase_of rt c = Gone})"
    by (auto simp: abstract_pool_def live_enter live_def)
  moreover have "c \<notin> live rt \<union> {c. phase_of rt c = Gone}" "card (live rt) = n"
    using a running_inv [OF assms(1)] by (auto simp: live_def router_inv_def try_send_def split: if_splits)
  ultimately show ?thesis using pool_spec.turned_away by (simp add: abstract_pool_def)
qed (auto simp: abstract_pool_def)

section \<open>Slots are given back\<close>

text \<open>Every connection inside can leave, once the queue is closed, whatever the others do.\<close>

lemma one_leaves:
  assumes "router_inv net n rt" and "queue_done rt" and "c \<in> live rt"
  shows "\<exists>rt'. (rstep net)\<^sup>*\<^sup>* rt rt' \<and> live rt' = live rt - {c} \<and> queue_done rt' \<and> router_inv net n rt'"
  using assms
proof (induction "case phase_of rt c of Resolving \<Rightarrow> 2 | Reading _ \<Rightarrow> 1 | _ \<Rightarrow> (0 :: nat)"
    arbitrary: rt rule: less_induct)
  case less
  note inv = less.prems(1)
  have direct: ?case if "rstep net rt (leave c rt)"
    using that rstep_inv [OF inv that] less.prems
    by (intro exI [of _ "leave c rt"]) (auto simp: live_leave)
  have via: ?case if "rstep net rt rt1" "live rt1 = live rt" "queue_done rt1"
      "(case phase_of rt1 c of Resolving \<Rightarrow> 2 | Reading _ \<Rightarrow> 1 | _ \<Rightarrow> (0 :: nat))
        < (case phase_of rt c of Resolving \<Rightarrow> 2 | Reading _ \<Rightarrow> 1 | _ \<Rightarrow> 0)" for rt1
    using less.hyps [OF that(4) rstep_inv [OF inv that(1)] that(3)] less.prems(3) that(1,2)
    by (metis converse_rtranclp_into_rtranclp)
  show ?case
  proof (cases "phase_of rt c")
    case Resolving
    show ?thesis
    proof (cases "original_dst net c")
      case None
      then show ?thesis
        using rstep.unresolved [OF Resolving] release_leave [OF inv, of c] Resolving by (intro direct) simp
    next
      case (Some dst)
      have "live (enter_phase c (Reading dst) rt) = live rt" using less.prems(3) by (auto simp: live_enter)
      then show ?thesis
        using via [OF rstep.resolved [OF Resolving Some]] less.prems(2) Resolving by simp
    qed
  next
    case (Reading dst)
    obtain b d s where r: "readAndClassify (wire net c) dst (sni_allowlist net) = Some ((b, d), s)"
      using readAndClassify_facts by blast
    show ?thesis
    proof (cases d)
      case Passthrough
      have "live (enter_phase c (Relaying dst b s) rt) = live rt" using less.prems(3) by (auto simp: live_enter)
      then show ?thesis
        using via [OF rstep.passed [OF Reading r [unfolded Passthrough]]] less.prems(2) Reading by simp
    next
      case MITM
      have "live (enter_phase c (Offered dst b s) (rt\<lparr>connReleases := insert c (connReleases rt)\<rparr>)) = live rt"
        using less.prems(3) by (auto simp: live_enter)
      then show ?thesis
        using via [OF rstep.intercepted [OF Reading r [unfolded MITM]]] less.prems(2) Reading by simp
    qed
  next
    case (Offered dst b s)
    then show ?thesis
      using rstep.abandoned [OF Offered less.prems(2)] take_release_leave [OF inv, of c] by (intro direct) simp
  next
    case (Served dst b s)
    then show ?thesis
      using rstep.served [OF Served, of StateClosed] take_release_leave [OF inv, of c]
      by (intro direct) (simp add: ConnState_def)
  next
    case (Relaying dst b s)
    then show ?thesis
      using rstep.relayed_all [OF Relaying] release_leave [OF inv, of c] by (intro direct) simp
  qed (use less.prems(3) in \<open>auto simp: live_def\<close>)
qed

lemma all_leave:
  assumes "router_inv net n rt" and "queue_done rt"
  shows "\<exists>rt'. (rstep net)\<^sup>*\<^sup>* rt rt' \<and> live rt' = {} \<and> router_inv net n rt'"
  using assms
proof (induction "card (live rt)" arbitrary: rt)
  case 0
  then show ?case by (auto simp: router_inv_def)
next
  case (Suc k)
  then obtain c where c: "c \<in> live rt" by (metis card.empty equals0I nat.distinct(1))
  obtain rt1 where rt1: "(rstep net)\<^sup>*\<^sup>* rt rt1" "live rt1 = live rt - {c}" "queue_done rt1" "router_inv net n rt1"
    using one_leaves [OF Suc.prems c] by blast
  have "k = card (live rt1)" using Suc.hyps(2) rt1(2) c Suc.prems(1) by (simp add: router_inv_def)
  from Suc.hyps(1) [OF this rt1(4,3)] show ?case using rt1(1) by (meson rtranclp_trans)
qed

text \<open>C12: connection slots are never leaked and never given back twice. In every interleaving the slots in
  use are exactly the live connections, at most \<open>n\<close>; a release function is stored exactly for the
  connections handed to the HTTP server; and once the queue is closed, every state can reach one where
  all slots are free again.\<close>

theorem slots_follow_connections:
  assumes "running net n rt"
  shows "in_use (conn_slots rt) = card (live rt) \<and> card (live rt) \<le> n
    \<and> connReleases rt = {c. queued (phase_of rt c)}
    \<and> once_done rt \<inter> live rt = {}
    \<and> (queue_done rt \<longrightarrow> (\<exists>rt'. (rstep net)\<^sup>*\<^sup>* rt rt' \<and> live rt' = {} \<and> conn_slots rt' = make_slots n))"
proof -
  note inv = running_inv [OF assms]
  have "conn_slots rt' = make_slots n" if "live rt' = {}" "router_inv net n rt'" for rt'
    using that by (simp add: router_inv_def make_slots_def)
  then have "queue_done rt \<longrightarrow> (\<exists>rt'. (rstep net)\<^sup>*\<^sup>* rt rt' \<and> live rt' = {} \<and> conn_slots rt' = make_slots n)"
    using all_leave [OF inv] by blast
  moreover have "once_done rt \<inter> live rt = {}" using inv by (auto simp: router_inv_def live_def)
  ultimately show ?thesis using inv by (simp add: router_inv_def)
qed

text \<open>C10: only allowlisted traffic is decrypted. A connection that the HTTP server is serving went to port 443
  of its original destination and opened with a ClientHello for an allowlisted name, and the TLS server
  reads exactly the bytes the client sent, from the first one.\<close>

theorem served_only_allowlisted:
  assumes "running net n rt" and "phase_of rt c = Served dst b s"
  shows "original_dst net c = Some dst \<and> tcp_port dst = 443
    \<and> content (tlsServerWithPrefix b s) = content (wire net c)
    \<and> (\<exists>name. parseSNI b = Some (Some name) \<and> NormalizeSNI name \<noteq> ''''
         \<and> enabled (map_of (sni_allowlist net)) (NormalizeSNI name))"
proof -
  have "phase_ok net c (phase_of rt c)" using running_inv [OF assms(1)] by (simp add: router_inv_def)
  then have r: "readAndClassify (wire net c) dst (sni_allowlist net) = Some ((b, MITM), s)"
    and d: "original_dst net c = Some dst" by (simp_all add: assms(2))
  show ?thesis using readAndClassify_facts [of "wire net c" dst "sni_allowlist net"] r d by auto
qed

section \<open>A concrete run\<close>

definition sample_network :: network where
  "sample_network = \<lparr>wire = \<lambda>_. sample_hello, original_dst = \<lambda>_. Some (TCPAddr [10, 0, 0, 1] 443),
     sni_allowlist = [(''a.b'', True)]\<rparr>"

definition admitted :: router where
  "admitted = enter_phase 0 Resolving ((start_router 4)\<lparr>conn_slots := \<lparr>in_use = 1, slot_cap = 4\<rparr>\<rparr>)"

lemma sample_admit: "rstep sample_network (start_router 4) admitted"
  unfolding admitted_def
  by (rule rstep.admit) (simp_all add: start_router_def try_send_def make_slots_def)

lemma sample_run:
  "\<exists>rt b s. running sample_network 4 rt \<and> phase_of rt 0 = Served (TCPAddr [10, 0, 0, 1] 443) b s"
proof -
  let ?dst = "TCPAddr [10, 0, 0, 1] 443"
  obtain b s where r: "readAndClassify (wire sample_network 0) ?dst (sni_allowlist sample_network)
      = Some ((b, MITM), s)"
    using sample_hello_intercepted by (auto simp: sample_network_def)
  define rt2 where "rt2 = enter_phase 0 (Reading ?dst) admitted"
  define rt3 where "rt3 = enter_phase 0 (Offered ?dst b s) (rt2\<lparr>connReleases := insert 0 (connReleases rt2)\<rparr>)"
  have "running sample_network 4 admitted" by (rule running.stepped [OF running.started sample_admit])
  moreover have "rstep sample_network admitted rt2"
    unfolding rt2_def by (rule rstep.resolved) (simp_all add: admitted_def sample_network_def)
  moreover have "rstep sample_network rt2 rt3"
    unfolding rt3_def by (rule rstep.intercepted [OF _ r]) (simp add: rt2_def)
  moreover have "rstep sample_network rt3 (enter_phase 0 (Served ?dst b s) rt3)"
    by (rule rstep.handed) (simp add: rt3_def)
  ultimately have "running sample_network 4 (enter_phase 0 (Served ?dst b s) rt3)"
    by (meson running.stepped)
  then show ?thesis by (metis enter_phase_simps(5) fun_upd_same)
qed

theorem router_refines_pool_witness:
  "pool_spec 4 (abstract_pool (start_router 4)) (abstract_pool admitted)
   \<or> abstract_pool admitted = abstract_pool (start_router 4)"
  by (rule router_refines_pool [OF running.started sample_admit])

theorem slots_follow_connections_witness: "in_use (conn_slots admitted) = card (live admitted)"
  using slots_follow_connections [OF running.stepped [OF running.started sample_admit]] by simp

theorem served_only_allowlisted_witness:
  "\<exists>(rt :: router) b s. phase_of rt 0 = Served (TCPAddr [10, 0, 0, 1] 443) b s
     \<and> content (tlsServerWithPrefix b s) = content sample_hello"
proof -
  obtain rt b s where r: "running sample_network 4 rt" "phase_of rt 0 = Served (TCPAddr [10, 0, 0, 1] 443) b s"
    using sample_run by blast
  from served_only_allowlisted [OF r] have "content (tlsServerWithPrefix b s) = content sample_hello"
    by (simp add: sample_network_def)
  with r(2) show ?thesis by blast
qed

section \<open>Serving and stopping\<close>

text \<open>
  \<open>serveTransparent\<close> ends with the first error of an accept loop or of the HTTP server. It closes the raw
  listeners, the server and the queue; a stop that was asked for is reported as \<open>http.ErrServerClosed\<close>.
\<close>

datatype 'e first_end = AcceptErr 'e | ServeErr "'e option"

datatype 'e serve_result = ErrServerClosed | Ended "'e option"

record front =
  raw_listeners :: "listener list"
  http_closed :: bool
  queue_closed :: bool

definition serveTransparent :: "bool \<Rightarrow> 'e first_end \<Rightarrow> front \<Rightarrow> 'e serve_result \<times> front" where
  "serveTransparent stopping e f =
     (case e of
        AcceptErr err \<Rightarrow>
          (if stopping then ErrServerClosed else Ended (Some err),
           f\<lparr>raw_listeners := [], http_closed := True, queue_closed := True\<rparr>)
      | ServeErr err \<Rightarrow>
          (if stopping \<and> err \<noteq> None then ErrServerClosed else Ended err,
           f\<lparr>raw_listeners := [], queue_closed := True\<rparr>))"

text \<open>
  \<open>queueListener.Close\<close> looks whether \<open>done\<close> is closed and then closes it, in two steps; closing a closed
  channel panics (\<open>None\<close>). One call after another is safe, two at once are not.
\<close>

datatype closer = Checking | Closing | Finished_close

fun close_step :: "nat \<Rightarrow> bool \<times> closer list \<Rightarrow> (bool \<times> closer list) option" where
  "close_step i (closed, cs) =
     (case cs ! i of
        Checking \<Rightarrow> Some (closed, cs[i := (if closed then Finished_close else Closing)])
      | Closing \<Rightarrow> if closed then None else Some (True, cs[i := Finished_close])
      | Finished_close \<Rightarrow> Some (closed, cs))"

fun close_run :: "nat list \<Rightarrow> bool \<times> closer list \<Rightarrow> (bool \<times> closer list) option" where
  "close_run [] q = Some q"
| "close_run (i # is) q = (case close_step i q of None \<Rightarrow> None | Some q \<Rightarrow> close_run is q)"

lemma close_twice: "close_run [0, 0, 1, 1] (False, [Checking, Checking]) = Some (True, [Finished_close, Finished_close])"
  by simp

lemma close_race: "close_run [0, 1, 0, 1] (False, [Checking, Checking]) = None"
  by simp

end
