(* ===== verification/Plane_Life.thy ===== *)
theory Plane_Life
  imports Router
begin

text \<open>
  The life of the data plane, \<open>internal/proxy/mitm.go\<close>: \<open>ListenAndServe\<close>, the channel \<open>Ready\<close>, \<open>Shutdown\<close>,
  and the setters of \<open>transparent_server.go\<close>. \<open>Router\<close> holds what runs in between.
\<close>

section \<open>State\<close>

text \<open>
  \<open>ready_chan\<close> is the content of the channel of capacity one: nothing, or the value \<open>ListenAndServe\<close> sent.
  \<open>plane_front\<close> is what \<open>serveTransparent\<close> works on.
\<close>

record plane =
  plane_addr :: string
  plane_lns :: "listener list"
  plane_stopping :: bool
  ready_chan :: "listen_error option option"
  plane_front :: front

definition new_plane :: "string \<Rightarrow> plane" where
  "new_plane addr = \<lparr>plane_addr = addr, plane_lns = [], plane_stopping = False, ready_chan = None,
     plane_front = \<lparr>raw_listeners = [], http_closed = False, queue_closed = False\<rparr>\<rparr>"

definition ListenAndServe :: "(int \<Rightarrow> int option) \<Rightarrow> (int \<Rightarrow> int option) \<Rightarrow> plane \<Rightarrow> plane" where
  "ListenAndServe listen4 listen6 p =
     (let p = p\<lparr>plane_stopping := False\<rparr> in
      case fst (listenDual listen4 listen6 (plane_addr p)) of
        Inl e \<Rightarrow> p\<lparr>ready_chan := Some (Some e)\<rparr>
      | Inr lns \<Rightarrow> p\<lparr>plane_lns := lns, ready_chan := Some None, plane_front := (plane_front p)\<lparr>raw_listeners := lns\<rparr>\<rparr>)"

text \<open>A receive from \<open>Ready\<close>: the value, \<open>None\<close> while there is none.\<close>

definition Ready :: "plane \<Rightarrow> listen_error option option \<times> plane" where
  "Ready p = (ready_chan p, p\<lparr>ready_chan := None\<rparr>)"

text \<open>\<open>serveTransparent\<close> returns for the given reason.\<close>

definition serve_ends :: "'e first_end \<Rightarrow> plane \<Rightarrow> 'e serve_result \<times> plane" where
  "serve_ends e p =
     (case serveTransparent (plane_stopping p) e (plane_front p) of (r, f) \<Rightarrow> (r, p\<lparr>plane_front := f\<rparr>))"

definition Shutdown :: "plane \<Rightarrow> plane" where
  "Shutdown p =
     (let p = p\<lparr>plane_stopping := True\<rparr>;
          open_lns = filter (\<lambda>l. l \<notin> set (plane_lns p)) (raw_listeners (plane_front p))
      in p\<lparr>plane_lns := [], plane_front := (plane_front p)\<lparr>raw_listeners := open_lns, http_closed := True,
                                                             queue_closed := True\<rparr>\<rparr>)"

text \<open>The setters: a nil function leaves the field as it is.\<close>

definition SetOriginalDestinationResolver :: "'f option \<Rightarrow> 'f \<Rightarrow> 'f" where
  "SetOriginalDestinationResolver fn resolver = (case fn of None \<Rightarrow> resolver | Some f \<Rightarrow> f)"

definition SetOriginalDestinationDialer :: "'f option \<Rightarrow> 'f \<Rightarrow> 'f" where
  "SetOriginalDestinationDialer fn dial = (case fn of None \<Rightarrow> dial | Some f \<Rightarrow> f)"

section \<open>Starting and stopping\<close>

lemma listenDual_ports:
  "fst (listenDual listen4 listen6 a) = Inr lns \<Longrightarrow> \<exists>p q. lns = [TCP4 p, TCP6 q] \<and> listen6 p = Some q"
  by (auto simp: listenDual_def split: option.splits if_splits)

lemma ListenAndServe_cases:
  assumes "Ready (ListenAndServe listen4 listen6 p) = (r, q)"
  shows "case r of None \<Rightarrow> False
    | Some (Some e) \<Rightarrow> fst (listenDual listen4 listen6 (plane_addr p)) = Inl e \<and> plane_front q = plane_front p \<and> plane_lns q = plane_lns p
    | Some None \<Rightarrow> (\<exists>a b. raw_listeners (plane_front q) = [TCP4 a, TCP6 b]) \<and> plane_lns q = raw_listeners (plane_front q)
        \<and> \<not> plane_stopping q"
  using assms listenDual_ports
  by (auto simp: Ready_def ListenAndServe_def Let_def split: sum.splits; blast)

text \<open>the data plane reports once whether it serves, and stops when asked. \<open>Ready\<close> yields an error and nothing
  is bound, or success with an IPv4 and an IPv6 listener bound; after \<open>Shutdown\<close> nothing is bound, and the error
  that the accept loops then return is reported as \<open>http.ErrServerClosed\<close>, while without it the error itself
  comes back, also with nothing bound.\<close>

theorem plane_lifecycle:
  assumes "Ready (ListenAndServe listen4 listen6 (new_plane a)) = (r, p)"
  shows "(\<exists>e. r = Some (Some e) \<and> raw_listeners (plane_front p) = [])
    \<or> (\<exists>port4 port6. r = Some None \<and> raw_listeners (plane_front p) = [TCP4 port4, TCP6 port6]
        \<and> raw_listeners (plane_front (Shutdown p)) = []
        \<and> (\<forall>err. fst (serve_ends (AcceptErr err) (Shutdown p)) = ErrServerClosed
              \<and> fst (serve_ends (AcceptErr err) p) = Ended (Some err)
              \<and> raw_listeners (plane_front (snd (serve_ends (AcceptErr err) p))) = []))"
proof -
  note c = ListenAndServe_cases [OF assms]
  show ?thesis
  proof (cases r)
    case None
    then show ?thesis using c by simp
  next
    case (Some x)
    then show ?thesis
      using c by (cases x) (auto simp: new_plane_def Shutdown_def serve_ends_def serveTransparent_def Let_def)
  qed
qed

lemma sample_listen:
  "listenDual (\<lambda>p. Some 10443) (\<lambda>p. Some p) ''0.0.0.0:10443'' = (Inr [TCP4 10443, TCP6 10443], [TCP4 10443, TCP6 10443])"
  by code_simp

theorem plane_lifecycle_witness:
  "\<exists>p port4 port6. Ready (ListenAndServe (\<lambda>p. Some 10443) (\<lambda>p. Some p) (new_plane ''0.0.0.0:10443'')) = (Some None, p)
     \<and> raw_listeners (plane_front p) = [TCP4 port4, TCP6 port6] \<and> raw_listeners (plane_front (Shutdown p)) = []"
proof -
  obtain r p where r: "Ready (ListenAndServe (\<lambda>p. Some 10443) (\<lambda>p. Some p) (new_plane ''0.0.0.0:10443'')) = (r, p)"
    by (metis surj_pair)
  then have "r = Some None" by (auto simp: Ready_def ListenAndServe_def new_plane_def Let_def sample_listen)
  with plane_lifecycle [OF r] r show ?thesis by auto
qed

end
