(* ===== verification/Daemon.thy ===== *)
theory Daemon
  imports Runtime Enrollment Control_Life Plane_Life
begin

text \<open>
  The daemon's life, \<open>main\<close> of \<open>cmd/locspoofd/main.go\<close>: the start-up in its order with every way it can fail,
  the wait for a signal or for the data plane to end, the shutdown, and what a killed process leaves behind.

  A \<open>machine\<close> is one process and what outlives it: the run directory inside \<open>ctl\<close>, and the markers. The stages
  are the points of \<open>main\<close> between which other goroutines, a signal or a kill can come. The run directory is
  the one of the default socket path, \<open>/var/run/locspoofd\<close>, which also holds the ready file.
\<close>

section \<open>State\<close>

datatype stage =
    Boot | Configured | Control_up | Built | Plane_up | Enroll_up | Marked | Serving
  | Stopping bool | Closing bool | Exited nat | Killed

text \<open>What a run finds: flags, files, ports that can be bound, and which system calls work.\<close>

record main_env =
  sys_faults :: faults
  umask_mode :: nat
  parse_float :: "string \<Rightarrow> float64 option"
  config_text :: "string option"
  certs :: x509
  leaf_file :: "string \<Rightarrow> bytes option"
  bind4 :: "int \<Rightarrow> int option"
  bind6 :: "int \<Rightarrow> int option"
  enroll_binds :: "int \<Rightarrow> bool"
  rw_env :: rewriter_env
  gz :: gzip_codec
  up_stream :: "request \<Rightarrow> response option"
  upstream_flag :: string
  health_codecs :: codecs
  activity_disk :: disk
  activity_path :: string
  arp_file :: "string option"

text \<open>\<open>enroll_ended\<close> says that the enrollment server's \<open>Serve\<close> has returned by itself.\<close>

record machine =
  menv :: main_env
  stage :: stage
  cfg :: config
  ctl :: control_life
  marks :: "marker set"
  hs :: state
  pol :: runtimePolicy
  limits :: server
  upstream_transport :: "transport option"
  get_cert :: "string \<Rightarrow> bytes list option"
  dplane :: plane
  enrollment_up :: bool
  enroll_ended :: bool
  serve_err :: "string serve_result option"

definition boot :: "main_env \<Rightarrow> sys \<Rightarrow> marker set \<Rightarrow> machine" where
  "boot E s mk = \<lparr>menv = E, stage = Boot, cfg = Default, ctl = \<lparr>cl_sys = s, has_ln = False, listening = False\<rparr>,
     marks = mk, hs = new_state, pol = None, limits = new_limits, upstream_transport = None,
     get_cert = (\<lambda>_. None), dplane = new_plane '''', enrollment_up = False, enroll_ended = False,
     serve_err = None\<rparr>"

definition is_running :: "machine \<Rightarrow> bool" where
  "is_running m \<longleftrightarrow> (case stage m of Exited _ \<Rightarrow> False | Killed \<Rightarrow> False | _ \<Rightarrow> True)"

text \<open>The end of the process: the kernel closes every socket and unlinks nothing; no deferred call runs.\<close>

definition process_end :: "stage \<Rightarrow> machine \<Rightarrow> machine" where
  "process_end st m =
     m\<lparr>stage := st, ctl := (ctl m)\<lparr>has_ln := False, listening := False\<rparr>, enrollment_up := False,
       dplane := (dplane m)\<lparr>plane_lns := [], plane_front := \<lparr>raw_listeners = [], http_closed = True, queue_closed = True\<rparr>\<rparr>\<rparr>"

definition log_Fatal :: "machine \<Rightarrow> machine" where
  "log_Fatal = process_end (Exited 1)"

text \<open>The name of the socket in the run directory.\<close>

definition socket_name :: "string \<Rightarrow> string" where
  "socket_name p = rev (takeWhile (\<lambda>ch. ch \<noteq> CHR ''/'') (rev p))"

abbreviation sock :: "machine \<Rightarrow> string" where
  "sock m \<equiv> socket_name (SocketPath (cfg m))"

section \<open>The start\<close>

definition load_config :: "machine \<Rightarrow> machine" where
  "load_config m =
     (let E = menv m in
      case Load (parse_float E) (config_text E) of
        Inl e \<Rightarrow> log_Fatal m
      | Inr c \<Rightarrow>
          if Enabled c \<and> \<not> ProfileSet c then log_Fatal m
          else m\<lparr>cfg := c, pol := newRuntimePolicy c, stage := Configured,
                 hs := SetEnabled (Enabled c) (SetMACResolver (resolveMACFromARP (arp_file E))
                         (NewWithActivityFile (health_codecs E) (activity_disk E) (activity_path E)))\<rparr>)"

definition open_control :: "machine \<Rightarrow> machine" where
  "open_control m =
     (case control_Listen (sys_faults (menv m)) (umask_mode (menv m)) (sock m) (ctl m) of
        (Some e, c) \<Rightarrow> log_Fatal (m\<lparr>ctl := c\<rparr>)
      | (None, c) \<Rightarrow> m\<lparr>ctl := c, stage := Control_up\<rparr>)"

definition build_plane :: "machine \<Rightarrow> machine" where
  "build_plane m =
     (let E = menv m; allowSNI = compiledAllowlist in
      if allowSNI = [] then log_Fatal m
      else case NewServerWithLeaves (certs E) (leaf_file E) allowSNI of
        Inl host \<Rightarrow> log_Fatal m
      | Inr get \<Rightarrow>
          (case startup (rw_env E) (gz E) (up_stream E) (upstream_flag E) (cfg m) of
             Inl e \<Rightarrow> log_Fatal m
           | Inr (sv, p, t) \<Rightarrow>
               m\<lparr>limits := sv, upstream_transport := t, get_cert := get, stage := Built,
                 dplane := new_plane (JoinHostPort (ListenAddr (cfg m)) (Itoa (ListenPort (cfg m))))\<rparr>))"

definition start_plane :: "machine \<Rightarrow> machine" where
  "start_plane m =
     (case Ready (ListenAndServe (bind4 (menv m)) (bind6 (menv m)) (dplane m)) of
        (None, p) \<Rightarrow> m\<lparr>dplane := p\<rparr>
      | (Some (Some e), p) \<Rightarrow> log_Fatal (m\<lparr>dplane := p\<rparr>)
      | (Some None, p) \<Rightarrow> m\<lparr>dplane := p, stage := Plane_up\<rparr>)"

definition on_directory :: "(sys \<Rightarrow> 'a \<times> sys) \<Rightarrow> machine \<Rightarrow> 'a \<times> machine" where
  "on_directory act m = (case act (cl_sys (ctl m)) of (r, s) \<Rightarrow> (r, m\<lparr>ctl := (ctl m)\<lparr>cl_sys := s\<rparr>\<rparr>))"

definition remove_ready :: "machine \<Rightarrow> machine" where
  "remove_ready m = snd (on_directory (os_Remove (sys_faults (menv m)) (Named ''ready'')) m)"

definition startEnrollment :: "machine \<Rightarrow> machine" where
  "startEnrollment m =
     (if enroll_binds (menv m) (ProxyPort (cfg m)) then m\<lparr>enrollment_up := True, stage := Enroll_up\<rparr>
      else log_Fatal (remove_ready m))"

text \<open>\<open>os.WriteFile\<close>: open with truncation, write, close; an open that worked leaves the file there.\<close>

definition os_WriteFile :: "faults \<Rightarrow> path \<Rightarrow> bytes \<Rightarrow> nat \<Rightarrow> sys \<Rightarrow> bool \<times> sys" where
  "os_WriteFile F p b mode s =
     (case syscall F (\<lambda>s. if dir_mode s = None then None
                          else Some (set_entry p (Some \<lparr>f_data = [], f_mode = (case entries s p of None \<Rightarrow> mode | Some f \<Rightarrow> f_mode f)\<rparr>) s)) s of
        (False, s) \<Rightarrow> (False, s)
      | (True, s) \<Rightarrow>
          (case os_Write F p b s of (ok, s) \<Rightarrow> (case os_NoChange F s of (shut, s) \<Rightarrow> (ok \<and> shut, s))))"

definition ready_text :: bytes where "ready_text = [114, 101, 97, 100, 121, 10]"

definition mark_ready :: "machine \<Rightarrow> machine" where
  "mark_ready m =
     (case on_directory (os_WriteFile (sys_faults (menv m)) (Named ''ready'') ready_text mode_0640) m of
        (False, m) \<Rightarrow> log_Fatal (m\<lparr>enrollment_up := False\<rparr>)
      | (True, m) \<Rightarrow> m\<lparr>stage := Marked\<rparr>)"

definition set_healthy :: "machine \<Rightarrow> machine" where
  "set_healthy m = m\<lparr>hs := SetHealthy True (hs m), stage := Serving\<rparr>"

section \<open>The end\<close>

definition stop_planes :: "bool \<Rightarrow> machine \<Rightarrow> machine" where
  "stop_planes failed m = m\<lparr>dplane := Shutdown (dplane m), enrollment_up := False, stage := Closing failed\<rparr>"

definition close_control :: "machine \<Rightarrow> machine" where
  "close_control m =
     m\<lparr>ctl := snd (control_Close (sys_faults (menv m)) (sock m) (ctl m))\<rparr>"

text \<open>After a failure the calls are explicit, before \<open>os.Exit\<close>; otherwise they are deferred, last one first.\<close>

definition exit_main :: "bool \<Rightarrow> machine \<Rightarrow> machine" where
  "exit_main failed m =
     (if failed then process_end (Exited 1) (remove_ready (close_control m))
      else process_end (Exited 0) (close_control (remove_ready m)))"

definition main_step :: "machine \<Rightarrow> machine" where
  "main_step m =
     (case stage m of
        Boot \<Rightarrow> load_config m
      | Configured \<Rightarrow> open_control m
      | Control_up \<Rightarrow> build_plane m
      | Built \<Rightarrow> start_plane m
      | Plane_up \<Rightarrow> startEnrollment m
      | Enroll_up \<Rightarrow> mark_ready m
      | Marked \<Rightarrow> set_healthy m
      | Stopping failed \<Rightarrow> stop_planes failed m
      | Closing failed \<Rightarrow> exit_main failed m
      | _ \<Rightarrow> m)"

text \<open>The value the data plane ended with counts as a failure unless it is nil or \<open>http.ErrServerClosed\<close>.\<close>

definition serve_failed :: "string serve_result \<Rightarrow> bool" where
  "serve_failed r \<longleftrightarrow> (case r of Ended (Some e) \<Rightarrow> True | _ \<Rightarrow> False)"

fun rank :: "stage \<Rightarrow> nat" where
  "rank Boot = 0" | "rank Configured = 1" | "rank Control_up = 2" | "rank Built = 3" | "rank Plane_up = 4"
| "rank Enroll_up = 5" | "rank Marked = 6" | "rank Serving = 7" | "rank (Stopping _) = 8" | "rank (Closing _) = 9"
| "rank (Exited _) = 10" | "rank Killed = 10"

text \<open>The control server \<open>main\<close> sets up; \<open>reload_text\<close> is what the reload file holds at the time of the call.\<close>

definition control_of :: "machine \<Rightarrow> string option \<Rightarrow> runtimePolicy control_server" where
  "control_of m reload_text =
     SetReload (reload_config (parse_float (menv m)) reload_text (cfg m)) new_control_with_state"

section \<open>All interleavings\<close>

text \<open>
  \<open>main\<close> moves on; a signal ends the wait, or kills the process before \<open>main\<close> asked for signals; the data plane
  or the enrollment server ends by itself; the goroutines of the control socket count connections and carry out
  calls; the data plane records what it sees; the supervisor starts a process that ended again.
\<close>

inductive dstep :: "machine \<Rightarrow> machine \<Rightarrow> bool" where
  main: "is_running m \<Longrightarrow> stage m \<noteq> Serving \<Longrightarrow> dstep m (main_step m)"
| select_serve: "stage m = Serving \<Longrightarrow> serve_err m = Some r \<Longrightarrow>
    dstep m (m\<lparr>stage := Stopping (serve_failed r)\<rparr>)"
| select_signal: "stage m = Serving \<Longrightarrow> dstep m (m\<lparr>stage := Stopping False\<rparr>)"
| killed: "is_running m \<Longrightarrow> dstep m (process_end Killed m)"
| plane_ends: "is_running m \<Longrightarrow> 4 \<le> rank (stage m) \<Longrightarrow> serve_err m = None \<Longrightarrow> serve_ends e (dplane m) = (r, p) \<Longrightarrow>
    dstep m (m\<lparr>serve_err := Some r, dplane := p\<rparr>)"
| enrollment_ends: "is_running m \<Longrightarrow> enrollment_up m \<Longrightarrow>
    dstep m (m\<lparr>enrollment_up := False, enroll_ended := True\<rparr>)"
| control_opens: "is_running m \<Longrightarrow> listening (ctl m) \<Longrightarrow> dstep m (m\<lparr>hs := AddConnection (hs m)\<rparr>)"
| control_closes: "is_running m \<Longrightarrow> 2 \<le> rank (stage m) \<Longrightarrow> dstep m (m\<lparr>hs := DoneConnection (hs m)\<rparr>)"
| control_call: "is_running m \<Longrightarrow> 2 \<le> rank (stage m) \<Longrightarrow>
    call (health_codecs (menv m)) (control_of m reload_text) ok method \<lparr>h = hs m, markers = marks m, policy_state = pol m\<rparr>
      = (r, d) \<Longrightarrow>
    dstep m (m\<lparr>hs := h d, marks := markers d, pol := policy_state d\<rparr>)"
| observes: "is_running m \<Longrightarrow> 4 \<le> rank (stage m) \<Longrightarrow> dstep m (m\<lparr>hs := (hs m)\<lparr>metrics := x, lastError := le\<rparr>\<rparr>)"
| restart: "\<not> is_running m \<Longrightarrow> dstep m (boot E (cl_sys (ctl m)) (marks m))"

end
