(* ===== verification/Daemon_Correct.thy ===== *)
theory Daemon_Correct
  imports Daemon
begin

text \<open>
  What holds of the daemon in every interleaving: one invariant for each aspect of a machine, preserved by every
  step, and the properties of the running, the ready and the stopped daemon that follow.
\<close>

section \<open>One stage of \<open>main\<close>\<close>

lemmas stage_defs = load_config_def open_control_def build_plane_def start_plane_def startEnrollment_def
  mark_ready_def set_healthy_def stop_planes_def exit_main_def log_Fatal_def process_end_def remove_ready_def
  on_directory_def close_control_def

lemmas stage_splits = sum.splits option.splits prod.splits bool.splits if_splits

lemma is_running_simps [simp]:
  "is_running (m\<lparr>stage := st\<rparr>) \<longleftrightarrow> rank st < 10" "\<not> is_running (process_end (Exited k) m)" "\<not> is_running (process_end Killed m)"
  "\<not> is_running (log_Fatal m)" "is_running (boot E s mk)"
  by (cases st; simp add: is_running_def process_end_def log_Fatal_def boot_def)+

lemma stage_simps [simp]: "stage (boot E s mk) = Boot" "stage (process_end st m) = st" "stage (log_Fatal m) = Exited 1"
  by (simp_all add: boot_def process_end_def log_Fatal_def)

lemma is_running_rank: "is_running m \<longleftrightarrow> rank (stage m) < 10"
  by (cases "stage m") (simp_all add: is_running_def)

text \<open>A stage of \<open>main\<close> ends the process or reaches the next stage, and the start only moves forward.\<close>

lemma start_plane_cases:
  "stage (start_plane m) = Exited 1 \<or> stage (start_plane m) = Plane_up
   \<and> (\<exists>p q. raw_listeners (plane_front (dplane (start_plane m))) = [TCP4 p, TCP6 q])
   \<and> plane_lns (dplane (start_plane m)) = raw_listeners (plane_front (dplane (start_plane m)))
   \<and> \<not> plane_stopping (dplane (start_plane m))"
proof -
  obtain r q where r: "Ready (ListenAndServe (bind4 (menv m)) (bind6 (menv m)) (dplane m)) = (r, q)" by (metis surj_pair)
  note c = ListenAndServe_cases [OF r]
  show ?thesis
  proof (cases r)
    case (Some x)
    then show ?thesis using c by (cases x) (auto simp: start_plane_def r log_Fatal_def process_end_def)
  qed (use c in simp)
qed

lemma main_step_stage:
  assumes "is_running m" and "stage m \<noteq> Serving"
  shows "(\<exists>k. stage (main_step m) = Exited k) \<or> rank (stage (main_step m)) = Suc (rank (stage m))"
  using assms start_plane_cases [of m]
  by (cases "stage m") (auto simp: main_step_def is_running_def stage_defs Let_def split: stage_splits)

section \<open>A process that ended holds nothing\<close>

definition inv_dead :: "machine \<Rightarrow> bool" where
  "inv_dead m \<longleftrightarrow> (\<not> is_running m \<longrightarrow> \<not> listening (ctl m) \<and> \<not> has_ln (ctl m)
     \<and> raw_listeners (plane_front (dplane m)) = [] \<and> \<not> enrollment_up m)"

lemma inv_dead_process_end [simp]: "inv_dead (process_end st m)"
  by (simp add: inv_dead_def process_end_def)

text \<open>Every stage function either goes on or ends the process as \<open>process_end\<close> does.\<close>

definition ends_clean :: "machine \<Rightarrow> bool" where
  "ends_clean m \<longleftrightarrow> is_running m \<or> (\<exists>st x. m = process_end st x)"

lemma process_end_clean [simp]: "ends_clean (process_end st x)" "ends_clean (log_Fatal x)"
  by (auto simp: ends_clean_def log_Fatal_def)

lemma going_clean: "rank (stage m) < 10 \<Longrightarrow> ends_clean m"
  by (simp add: ends_clean_def is_running_rank)

lemma stages_clean:
  "ends_clean (load_config m)" "ends_clean (open_control m)" "ends_clean (startEnrollment m)" "ends_clean (mark_ready m)"
  "ends_clean (set_healthy m)" "ends_clean (stop_planes failed m)" "ends_clean (exit_main failed m)"
  by (auto simp: load_config_def open_control_def startEnrollment_def mark_ready_def set_healthy_def stop_planes_def
      exit_main_def Let_def intro: going_clean split: stage_splits)

lemma build_plane_clean: "ends_clean (build_plane m)"
  by (auto simp: build_plane_def Let_def intro: going_clean split: stage_splits)

lemma start_plane_clean: "rank (stage m) < 10 \<Longrightarrow> ends_clean (start_plane m)"
  by (auto simp: start_plane_def intro: going_clean split: stage_splits)

lemma inv_dead_main: "inv_dead m \<Longrightarrow> is_running m \<Longrightarrow> stage m \<noteq> Serving \<Longrightarrow> inv_dead (main_step m)"
proof -
  assume "inv_dead m" "is_running m" "stage m \<noteq> Serving"
  then have "ends_clean (main_step m)"
    by (cases "stage m") (simp_all add: main_step_def stages_clean build_plane_clean start_plane_clean is_running_rank)
  then show ?thesis by (auto simp: ends_clean_def inv_dead_def process_end_def)
qed

lemma inv_dead_step: "dstep m m' \<Longrightarrow> inv_dead m \<Longrightarrow> inv_dead m'"
  by (induction rule: dstep.induct) (auto simp: inv_dead_main, auto simp: inv_dead_def is_running_rank)

section \<open>The policy fits the running data plane\<close>

definition policy_fits :: "config \<Rightarrow> runtimePolicy \<Rightarrow> bool" where
  "policy_fits c p \<longleftrightarrow> (\<exists>n. p = Some n \<and> valid_config n \<and> (Enabled n \<longrightarrow> ProfileSet n) \<and> hotReloadCompatible c n)"

lemma reload_fits:
  "reload_config pf t c (p, s) = (e, p', s') \<Longrightarrow> policy_fits c p \<Longrightarrow> policy_fits c p'"
  by (auto simp: reload_config_def policy_fits_def policy_Store_def dest: Load_valid split: sum.splits if_splits)

lemma reload_healthy: "reload_config pf t c (p, s) = (e, p', s') \<Longrightarrow> healthy s' = healthy s"
  by (auto simp: reload_config_def SetEnabled_def split: sum.splits if_splits)

lemma call_effect:
  assumes "call K (control_of m t) ok name \<lparr>h = s, markers = mk, policy_state = p\<rparr> = (r, d)"
  shows "policy_fits (cfg m) p \<Longrightarrow> policy_fits (cfg m) (policy_state d)" and "healthy (h d) = healthy s"
proof -
  obtain e p' s' where f: "reload_config (parse_float (menv m)) t (cfg m) (p, s) = (e, p', s')" by (metis prod_cases3)
  show "policy_fits (cfg m) p \<Longrightarrow> policy_fits (cfg m) (policy_state d)" and "healthy (h d) = healthy s"
    using assms reload_fits [OF f] reload_healthy [OF f]
    by (auto simp: call_def control_of_def SetReload_def atomicMarker_def SetBypass_def f Let_def
        split: if_splits bool.splits)
qed

definition inv_cfg :: "machine \<Rightarrow> bool" where
  "inv_cfg m \<longleftrightarrow> (is_running m \<and> 1 \<le> rank (stage m) \<longrightarrow>
     Load (parse_float (menv m)) (config_text (menv m)) = Inr (cfg m) \<and> (Enabled (cfg m) \<longrightarrow> ProfileSet (cfg m))
     \<and> policy_fits (cfg m) (pol m))"

text \<open>The stages after the first keep the configuration, the policy and the environment.\<close>

definition same_run :: "machine \<Rightarrow> machine \<Rightarrow> bool" where
  "same_run m m' \<longleftrightarrow> cfg m' = cfg m \<and> pol m' = pol m \<and> menv m' = menv m \<and> marks m' = marks m"

lemma ending_same:
  "same_run m (process_end st m') = same_run m m'" "same_run m (log_Fatal m') = same_run m m'"
  "hs (process_end st m') = hs m'" "hs (log_Fatal m') = hs m'"
  by (simp_all add: same_run_def process_end_def log_Fatal_def)

lemma start_same:
  "same_run m (open_control m)" "same_run m (build_plane m)" "same_run m (start_plane m)"
  "hs (open_control m) = hs m" "hs (build_plane m) = hs m" "hs (start_plane m) = hs m"
  by (auto simp: open_control_def build_plane_def start_plane_def ending_same Let_def split: stage_splits)
    (simp_all add: same_run_def)

lemma ready_same:
  "same_run m (startEnrollment m)" "same_run m (mark_ready m)" "same_run m (set_healthy m)"
  "hs (startEnrollment m) = hs m" "hs (mark_ready m) = hs m"
  by (auto simp: startEnrollment_def mark_ready_def set_healthy_def remove_ready_def on_directory_def ending_same
      split: stage_splits) (simp_all add: same_run_def)

lemma end_same:
  "same_run m (stop_planes failed m)" "same_run m (exit_main failed m)"
  "hs (stop_planes failed m) = hs m" "hs (exit_main failed m) = hs m"
  by (auto simp: stop_planes_def exit_main_def close_control_def remove_ready_def on_directory_def ending_same
      split: prod.splits) (simp_all add: same_run_def)

lemma main_step_keeps:
  assumes "stage m \<noteq> Boot"
  shows "cfg (main_step m) = cfg m" and "pol (main_step m) = pol m" and "menv (main_step m) = menv m"
    and "marks (main_step m) = marks m" and "stage m \<noteq> Marked \<Longrightarrow> hs (main_step m) = hs m"
proof -
  have "same_run m m" by (simp add: same_run_def)
  then have "same_run m (main_step m)"
    using assms by (cases "stage m") (simp_all add: main_step_def start_same ready_same end_same)
  then show "cfg (main_step m) = cfg m" and "pol (main_step m) = pol m" and "menv (main_step m) = menv m"
    and "marks (main_step m) = marks m" by (simp_all add: same_run_def)
  show "hs (main_step m) = hs m" if "stage m \<noteq> Marked"
    using assms that by (cases "stage m") (simp_all add: main_step_def start_same ready_same end_same)
qed

lemma load_config_cases:
  "stage (load_config m) = Exited 1 \<or> stage (load_config m) = Configured
   \<and> Load (parse_float (menv m)) (config_text (menv m)) = Inr (cfg (load_config m))
   \<and> (Enabled (cfg (load_config m)) \<longrightarrow> ProfileSet (cfg (load_config m)))
   \<and> pol (load_config m) = Some (cfg (load_config m)) \<and> menv (load_config m) = menv m"
  by (auto simp: load_config_def log_Fatal_def process_end_def newRuntimePolicy_def policy_Store_def Let_def split: sum.splits)

lemma inv_cfg_main: "inv_cfg m \<Longrightarrow> is_running m \<Longrightarrow> stage m \<noteq> Serving \<Longrightarrow> inv_cfg (main_step m)"
proof (cases "stage m = Boot")
  case True
  then have s: "main_step m = load_config m" by (simp add: main_step_def)
  show ?thesis
    using load_config_cases [of m]
    by (auto simp: s inv_cfg_def is_running_rank policy_fits_def hotReloadCompatible_def dest: Load_valid)
next
  case False
  assume a: "inv_cfg m" "is_running m" "stage m \<noteq> Serving"
  have "1 \<le> rank (stage m)" using False by (cases "stage m") simp_all
  with a main_step_keeps(1-3) [OF False] show ?thesis by (simp add: inv_cfg_def)
qed

lemma inv_cfg_step: "dstep m m' \<Longrightarrow> inv_cfg m \<Longrightarrow> inv_cfg m'"
proof (induction rule: dstep.induct)
  case (control_call m t ok name r d)
  then show ?case using call_effect(1) [OF control_call(3)] by (auto simp: inv_cfg_def is_running_rank)
qed (auto simp: inv_cfg_main, auto simp: inv_cfg_def is_running_rank boot_def)

lemma inv_cfg_boot: "inv_cfg (boot E s mk)"
  by (simp add: inv_cfg_def)

section \<open>Invariants of every reachable machine\<close>

locale machine_invariant =
  fixes I :: "machine \<Rightarrow> bool"
  assumes booted: "I (boot E s mk)"
    and stepped: "dstep m m' \<Longrightarrow> I m \<Longrightarrow> I m'"
begin

lemma holds: "dstep\<^sup>*\<^sup>* (boot E s mk) m \<Longrightarrow> I m"
  by (induction rule: rtranclp_induct) (auto intro: booted stepped)

end

interpretation dead: machine_invariant inv_dead
  by unfold_locales (simp add: inv_dead_def, rule inv_dead_step)

interpretation fits: machine_invariant inv_cfg
  by unfold_locales (rule inv_cfg_boot, rule inv_cfg_step)

section \<open>The control socket\<close>

definition inv_ctl :: "machine \<Rightarrow> bool" where
  "inv_ctl m \<longleftrightarrow> (is_running m \<and> 2 \<le> rank (stage m) \<longrightarrow> has_ln (ctl m) \<and> listening (ctl m)
     \<and> (sock m \<noteq> ''ready'' \<longrightarrow> entries (cl_sys (ctl m)) (Named (sock m)) = Some \<lparr>f_data = [], f_mode = mode_0660\<rparr>))"

lemma WriteFile_other: "q \<noteq> p \<Longrightarrow> os_WriteFile F p b m s = (ok, s') \<Longrightarrow> entries s' q = entries s q"
  by (auto simp: os_WriteFile_def os_Write_def os_NoChange_def syscall_def Let_def split: stage_splits)

lemma WriteFile_done: "os_WriteFile F p b m s = (True, s') \<Longrightarrow> \<exists>k. entries s' p = Some \<lparr>f_data = b, f_mode = k\<rparr>"
  by (auto simp: os_WriteFile_def os_Write_def os_NoChange_def syscall_def Let_def split: stage_splits)

text \<open>The stages after \<open>Listen\<close> and before the end exit_main the control socket alone.\<close>

lemma main_step_ctl:
  assumes "2 \<le> rank (stage m)" and "is_running (main_step m)"
  shows "has_ln (ctl (main_step m)) = has_ln (ctl m)" and "listening (ctl (main_step m)) = listening (ctl m)"
    and "q \<noteq> Named ''ready'' \<Longrightarrow> entries (cl_sys (ctl (main_step m))) q = entries (cl_sys (ctl m)) q"
  using assms WriteFile_other [of q "Named ''ready''" "sys_faults (menv m)"]
  by (cases "stage m"; auto simp: main_step_def is_running_rank stage_defs Let_def split: stage_splits)+

lemma inv_ctl_main: "inv_ctl m \<Longrightarrow> is_running m \<Longrightarrow> stage m \<noteq> Serving \<Longrightarrow> inv_ctl (main_step m)"
proof -
  assume a: "inv_ctl m" "is_running m" "stage m \<noteq> Serving"
  consider "stage m = Boot" | "stage m = Configured" | "2 \<le> rank (stage m)" by (cases "stage m") simp_all
  then show ?thesis
  proof cases
    case 1
    then show ?thesis using load_config_cases [of m] by (auto simp: main_step_def inv_ctl_def is_running_rank)
  next
    case 2
    obtain r c where l: "control_Listen (sys_faults (menv m)) (umask_mode (menv m)) (sock m) (ctl m) = (r, c)"
      by (metis surj_pair)
    then show ?thesis using 2 control_Listen_spec(1) [OF l]
      by (cases r) (auto simp: main_step_def open_control_def inv_ctl_def is_running_rank)
  next
    case 3
    have "stage m \<noteq> Boot" using 3 by auto
    with 3 a main_step_keeps(1) main_step_ctl [OF 3] show ?thesis by (auto simp: inv_ctl_def)
  qed
qed

lemma inv_ctl_step: "dstep m m' \<Longrightarrow> inv_ctl m \<Longrightarrow> inv_ctl m'"
  by (induction rule: dstep.induct) (auto simp: inv_ctl_main, auto simp: inv_ctl_def is_running_rank)

interpretation bound: machine_invariant inv_ctl
  by unfold_locales (simp add: inv_ctl_def, rule inv_ctl_step)

section \<open>The data plane\<close>

definition inv_plane :: "machine \<Rightarrow> bool" where
  "inv_plane m \<longleftrightarrow> (is_running m \<and> 3 \<le> rank (stage m) \<longrightarrow>
     NewServerWithLeaves (certs (menv m)) (leaf_file (menv m)) compiledAllowlist = Inr (get_cert m)
     \<and> limits m = gateway_limits (cfg m))"

lemma later_same:
  assumes "3 \<le> rank (stage m)"
  shows "get_cert (main_step m) = get_cert m" and "limits (main_step m) = limits m"
proof -
  have "get_cert (log_Fatal x) = get_cert x" "limits (log_Fatal x) = limits x" for x
    by (simp_all add: log_Fatal_def process_end_def)
  then show "get_cert (main_step m) = get_cert m" and "limits (main_step m) = limits m"
    using assms
    by (cases "stage m";
        auto simp: main_step_def start_plane_def startEnrollment_def mark_ready_def set_healthy_def stop_planes_def
          remove_ready_def on_directory_def split: stage_splits;
        simp add: exit_main_def process_end_def close_control_def remove_ready_def on_directory_def split: prod.splits)+
qed

lemma inv_plane_main: "inv_plane m \<Longrightarrow> is_running m \<Longrightarrow> stage m \<noteq> Serving \<Longrightarrow> inv_plane (main_step m)"
proof -
  assume a: "inv_plane m" "is_running m" "stage m \<noteq> Serving"
  consider "rank (stage m) < 2" | "stage m = Control_up" | "3 \<le> rank (stage m)" by (cases "stage m") simp_all
  then show ?thesis
  proof cases
    case 1
    then show ?thesis using main_step_stage [OF a(2,3)] by (auto simp: inv_plane_def is_running_rank)
  next
    case 2
    then show ?thesis
      by (auto simp: main_step_def build_plane_def inv_plane_def startup_def Let_def is_running_rank split: stage_splits)
  next
    case 3
    then have "stage m \<noteq> Boot" by auto
    with a 3 main_step_keeps(1,3) [OF this] later_same [OF 3] show ?thesis by (simp add: inv_plane_def)
  qed
qed

lemma inv_plane_step: "dstep m m' \<Longrightarrow> inv_plane m \<Longrightarrow> inv_plane m'"
  by (induction rule: dstep.induct) (auto simp: inv_plane_main, auto simp: inv_plane_def is_running_rank)

interpretation built: machine_invariant inv_plane
  by unfold_locales (simp add: inv_plane_def, rule inv_plane_step)

text \<open>While the data plane has not ended, both listeners are bound, and after its end or the shutdown none is.\<close>

definition both_bound :: "plane \<Rightarrow> bool" where
  "both_bound p \<longleftrightarrow> (\<exists>a b. raw_listeners (plane_front p) = [TCP4 a, TCP6 b]) \<and> plane_lns p = raw_listeners (plane_front p)"

definition inv_front :: "machine \<Rightarrow> bool" where
  "inv_front m \<longleftrightarrow> (is_running m \<longrightarrow>
     (if rank (stage m) < 4 then serve_err m = None \<and> raw_listeners (plane_front (dplane m)) = []
      else if serve_err m = None \<and> rank (stage m) \<le> 8 then both_bound (dplane m)
      else raw_listeners (plane_front (dplane m)) = []))"

lemma inv_front_main: "inv_front m \<Longrightarrow> is_running m \<Longrightarrow> stage m \<noteq> Serving \<Longrightarrow> inv_front (main_step m)"
proof -
  assume a: "inv_front m" "is_running m" "stage m \<noteq> Serving"
  show ?thesis
  proof (cases "stage m = Built")
    case True
    then have "serve_err (main_step m) = None"
      using a by (auto simp: main_step_def start_plane_def inv_front_def log_Fatal_def process_end_def split: stage_splits)
    with True start_plane_cases [of m] show ?thesis
      by (auto simp: main_step_def inv_front_def both_bound_def is_running_rank)
  next
    case False
    with a show ?thesis
      by (cases "stage m"; auto simp: main_step_def stage_defs inv_front_def is_running_rank new_plane_def Shutdown_def
        both_bound_def Let_def split: stage_splits)
  qed
qed

lemma serve_ends_unbound: "serve_ends e p = (r, q) \<Longrightarrow> raw_listeners (plane_front q) = []"
  by (cases e) (auto simp: serve_ends_def serveTransparent_def)

lemma inv_front_step: "dstep m m' \<Longrightarrow> inv_front m \<Longrightarrow> inv_front m'"
proof (induction rule: dstep.induct)
  case (plane_ends m e r p)
  then show ?case using serve_ends_unbound [OF plane_ends(4)] by (simp add: inv_front_def is_running_rank)
qed (auto simp: inv_front_main, auto simp: inv_front_def is_running_rank boot_def new_plane_def split: if_splits)

interpretation front: machine_invariant inv_front
  by unfold_locales (simp add: inv_front_def boot_def new_plane_def, rule inv_front_step)

text \<open>The enrollment listener is bound from its start to the shutdown, unless its server has ended by itself.\<close>

definition inv_enroll :: "machine \<Rightarrow> bool" where
  "inv_enroll m \<longleftrightarrow> (is_running m \<longrightarrow>
     (if rank (stage m) < 5 then \<not> enrollment_up m \<and> \<not> enroll_ended m
      else enroll_binds (menv m) (ProxyPort (cfg m))
        \<and> (enrollment_up m \<longleftrightarrow> \<not> enroll_ended m \<and> rank (stage m) \<le> 8)))"

lemma inv_enroll_main: "inv_enroll m \<Longrightarrow> is_running m \<Longrightarrow> stage m \<noteq> Serving \<Longrightarrow> inv_enroll (main_step m)"
proof -
  assume a: "inv_enroll m" "is_running m" "stage m \<noteq> Serving"
  have e: "\<not> is_running (exit_main failed m)" for failed by (simp add: exit_main_def)
  show ?thesis
  proof (cases "stage m")
    case Built
    with a show ?thesis
      by (auto simp: main_step_def start_plane_def inv_enroll_def is_running_rank split: stage_splits)
  next
    case (Closing failed)
    with e show ?thesis by (simp add: main_step_def inv_enroll_def)
  qed (use a in \<open>auto simp: main_step_def load_config_def open_control_def build_plane_def startEnrollment_def
      mark_ready_def set_healthy_def stop_planes_def on_directory_def inv_enroll_def is_running_rank Let_def
      split: stage_splits\<close>)
qed

lemma inv_enroll_step: "dstep m m' \<Longrightarrow> inv_enroll m \<Longrightarrow> inv_enroll m'"
  by (induction rule: dstep.induct)
    (auto simp: inv_enroll_main, auto simp: inv_enroll_def is_running_rank boot_def split: if_splits)

interpretation enrolled: machine_invariant inv_enroll
  by unfold_locales (simp add: inv_enroll_def boot_def, rule inv_enroll_step)

section \<open>Ready and healthy\<close>

definition inv_ready :: "machine \<Rightarrow> bool" where
  "inv_ready m \<longleftrightarrow> (is_running m \<longrightarrow> (healthy (hs m) \<longleftrightarrow> 7 \<le> rank (stage m))
     \<and> (6 \<le> rank (stage m) \<longrightarrow> data_of ''ready'' (cl_sys (ctl m)) = Some ready_text))"

lemma fresh_unhealthy: "healthy (NewWithActivityFile K d p) = False"
  by (simp add: NewWithActivityFile_def loadActivity_def new_state_def Let_def split: option.splits)

lemma inv_ready_main: "inv_ready m \<Longrightarrow> is_running m \<Longrightarrow> stage m \<noteq> Serving \<Longrightarrow> inv_ready (main_step m)"
proof -
  assume a: "inv_ready m" "is_running m" "stage m \<noteq> Serving"
  show ?thesis
  proof (cases "stage m = Enroll_up")
    case True
    obtain ok s where w: "os_WriteFile (sys_faults (menv m)) (Named ''ready'') ready_text mode_0640 (cl_sys (ctl m)) = (ok, s)"
      by (metis surj_pair)
    have "data_of ''ready'' s = Some ready_text" if ok
      using WriteFile_done w that by (fastforce simp: data_of_def)
    with True a w show ?thesis
      by (cases ok) (auto simp: main_step_def mark_ready_def on_directory_def inv_ready_def is_running_rank)
  next
    case False
    with a show ?thesis
      by (cases "stage m"; auto simp: main_step_def stage_defs inv_ready_def is_running_rank fresh_unhealthy SetHealthy_def
        SetEnabled_def SetMACResolver_def Let_def split: stage_splits)
  qed
qed

lemma inv_ready_step: "dstep m m' \<Longrightarrow> inv_ready m \<Longrightarrow> inv_ready m'"
proof (induction rule: dstep.induct)
  case (control_call m t ok name r d)
  then show ?case using call_effect(2) [OF control_call(3)] by (simp add: inv_ready_def is_running_rank)
qed (auto simp: inv_ready_main, auto simp: inv_ready_def is_running_rank boot_def new_state_def AddConnection_def DoneConnection_def)

interpretation marked: machine_invariant inv_ready
  by unfold_locales (simp add: inv_ready_def boot_def new_state_def, rule inv_ready_step)

section \<open>What the daemon promises\<close>

text \<open>C4: a daemon that reports itself healthy has everything in place. In every interleaving of \<open>main\<close>, signals,
  kills, the goroutines and restarts, and for any directory a killed process left, a running daemon reports healthy
  exactly from the moment \<open>main\<close> starts to wait. It then has loaded a validated configuration, listens on the control
  socket, has a certificate for every allowlisted host and wrote the ready file; its policy is one its data plane was
  started for; the socket file has the mode 0660 if it is not itself named \<open>ready\<close>. Both data listeners are bound
  exactly until the data plane ends or is shut down, and none after that; the enrollment listener is bound exactly
  until its server ends by itself or is shut down. The daemon does report healthy between the end of a data plane
  and its own exit.\<close>

theorem healthy_means_serving:
  assumes "dstep\<^sup>*\<^sup>* (boot E s mk) m" and "is_running m"
  shows "(healthy (hs m) \<longleftrightarrow> 7 \<le> rank (stage m))
    \<and> (healthy (hs m) \<longrightarrow>
        Load (parse_float (menv m)) (config_text (menv m)) = Inr (cfg m) \<and> valid_config (cfg m)
        \<and> listening (ctl m) \<and> (sock m \<noteq> ''ready'' \<longrightarrow> mode_of (sock m) (cl_sys (ctl m)) = Some mode_0660)
        \<and> data_of ''ready'' (cl_sys (ctl m)) = Some ready_text
        \<and> (\<forall>host \<in> set compiledWLocHosts. LoadX509KeyPair (certs (menv m)) (leaf_file (menv m)) host \<noteq> None)
        \<and> (if serve_err m = None \<and> rank (stage m) \<le> 8 then both_bound (dplane m)
           else raw_listeners (plane_front (dplane m)) = [])
        \<and> (enrollment_up m \<longleftrightarrow> \<not> enroll_ended m \<and> rank (stage m) \<le> 8)
        \<and> policy_fits (cfg m) (pol m))"
proof -
  note i = fits.holds [OF assms(1)] bound.holds [OF assms(1)] built.holds [OF assms(1)]
    front.holds [OF assms(1)] marked.holds [OF assms(1)] enrolled.holds [OF assms(1)]
  have leaves: "LoadX509KeyPair (certs (menv m)) (leaf_file (menv m)) host \<noteq> None"
    if "host \<in> set compiledWLocHosts" "7 \<le> rank (stage m)" for host
    using NewServerWithLeaves_cases [of compiledAllowlist "certs (menv m)" "leaf_file (menv m)"] i(3) assms(2) that
    by (auto simp: inv_plane_def compiled_allowed)
  have iff: "healthy (hs m) \<longleftrightarrow> 7 \<le> rank (stage m)" using i(5) assms(2) by (simp add: inv_ready_def)
  have front: "if serve_err m = None \<and> rank (stage m) \<le> 8 then both_bound (dplane m)
      else raw_listeners (plane_front (dplane m)) = []" if "7 \<le> rank (stage m)"
    using i(4) assms(2) that by (simp add: inv_front_def split: if_splits)
  with iff i(1,2,3,5,6) assms(2) leaves show ?thesis
    by (auto simp: inv_cfg_def inv_ctl_def inv_ready_def inv_enroll_def mode_of_def dest: Load_valid)
qed

lemma remove_ready_files:
  "menv (remove_ready m) = menv m" "cfg (remove_ready m) = cfg m"
  "entries (cl_sys (ctl (remove_ready m))) =
     (if works (sys_faults (menv m)) (calls_made (cl_sys (ctl m))) then (entries (cl_sys (ctl m)))(Named ''ready'' := None)
      else entries (cl_sys (ctl m)))"
  using os_Remove_done [of "sys_faults (menv m)" "Named ''ready''" "cl_sys (ctl m)"]
  by (auto simp: remove_ready_def on_directory_def split: prod.splits)

lemma close_control_files:
  assumes "\<forall>k. works (sys_faults (menv m)) k"
  shows "entries (cl_sys (ctl (close_control m))) (Named (sock m)) = None"
    and "q \<noteq> Named (sock m) \<Longrightarrow> entries (cl_sys (ctl (close_control m))) q = entries (cl_sys (ctl m)) q"
    and "menv (close_control m) = menv m" and "cfg (close_control m) = cfg m"
proof -
  obtain ok c where k: "control_Close (sys_faults (menv m)) (sock m) (ctl m) = (ok, c)" by (metis surj_pair)
  moreover have ok using k assms by (auto simp: control_Close_def remove_error_def Let_def split: if_splits)
  ultimately show "entries (cl_sys (ctl (close_control m))) (Named (sock m)) = None"
    and "q \<noteq> Named (sock m) \<Longrightarrow> entries (cl_sys (ctl (close_control m))) q = entries (cl_sys (ctl m)) q"
    and "menv (close_control m) = menv m" and "cfg (close_control m) = cfg m"
    using control_Close_spec(1,4) [OF k] by (simp_all add: close_control_def)
qed

lemma exit_main_files:
  assumes "\<forall>k. works (sys_faults (menv m)) k"
  shows "data_of ''ready'' (cl_sys (ctl (exit_main failed m))) = None"
    and "data_of (sock m) (cl_sys (ctl (exit_main failed m))) = None"
proof -
  have e: "cl_sys (ctl (process_end st x)) = cl_sys (ctl x)" for st x
    by (simp add: process_end_def)
  have "\<forall>k. works (sys_faults (menv (remove_ready m))) k" using assms by (simp add: remove_ready_files)
  note c1 = close_control_files [OF assms] and c2 = close_control_files [OF this]
  show "data_of ''ready'' (cl_sys (ctl (exit_main failed m))) = None"
    using c1 c2 assms
    by (cases "sock m = ''ready''") (simp_all add: exit_main_def e data_of_def remove_ready_files)
  show "data_of (sock m) (cl_sys (ctl (exit_main failed m))) = None"
    using c1 c2 assms by (simp add: exit_main_def e data_of_def remove_ready_files)
qed

text \<open>C17: the shutdown leaves nothing behind. When \<open>main\<close> leaves its wait, two stages later the process has ended,
  with the code 1 exactly if the data plane had failed; nothing is bound, and if the system calls work, neither
  the ready file nor the socket file is left.\<close>

theorem shutdown_leaves_nothing:
  assumes "dstep\<^sup>*\<^sup>* (boot E s mk) m" and "stage m = Stopping failed" and "m' = main_step (main_step m)"
  shows "stage m' = Exited (if failed then 1 else 0) \<and> \<not> listening (ctl m') \<and> raw_listeners (plane_front (dplane m')) = []
    \<and> \<not> enrollment_up m'
    \<and> ((\<forall>k. works (sys_faults (menv m)) k) \<longrightarrow>
         data_of ''ready'' (cl_sys (ctl m')) = None \<and> data_of (sock m) (cl_sys (ctl m')) = None)"
proof -
  let ?F = "sys_faults (menv m)"
  have s1: "main_step m = stop_planes failed m" by (simp add: main_step_def assms(2))
  have m': "m' = exit_main failed (stop_planes failed m)"
    unfolding assms(3) s1 by (simp add: main_step_def stop_planes_def)
  have "stage m' = Exited (if failed then 1 else 0) \<and> \<not> listening (ctl m') \<and> raw_listeners (plane_front (dplane m')) = []
    \<and> \<not> enrollment_up m'"
    by (simp add: m' exit_main_def process_end_def)
  moreover have "data_of ''ready'' (cl_sys (ctl m')) = None \<and> data_of (sock m) (cl_sys (ctl m')) = None"
    if w: "\<forall>k. works ?F k"
  proof -
    have "menv (stop_planes failed m) = menv m" "cfg (stop_planes failed m) = cfg m" by (simp_all add: stop_planes_def)
    then show ?thesis using exit_main_files [of "stop_planes failed m" failed] w by (simp add: m')
  qed
  ultimately show ?thesis by blast
qed

end
