(* ===== verification/Pki.thy ===== *)
theory Pki
  imports Enrollment File_System
begin

text \<open>
  The certificate authority of the gateway, \<open>cmd/locspoof-ca/main.go\<close>: \<open>loadCA\<close>, the making of a CA, the leaf
  certificates, the identity that signs the configuration profile, and \<open>run\<close>, which puts them into the
  directory the daemon reads. The directory and its failures are those of File_System; a run stops at the
  first call that fails.

  Cryptography is the record \<open>pki\<close>: key generation and random numbers depend on the moment of the run, which
  is the number of system calls made so far; \<open>openssl\<close> is the signing command. One run reads one clock value.
\<close>

unbundle bit_operations_syntax

section \<open>The environment of a run\<close>

record pki = x509 +
  clock_now :: int
  AddDate :: "int \<Rightarrow> nat \<Rightarrow> int"
  create_cert :: "certificate \<Rightarrow> certificate \<Rightarrow> public_key \<Rightarrow> private_key \<Rightarrow> bytes option"
  signed_by :: "certificate \<Rightarrow> certificate \<Rightarrow> bool"
  host_ok :: "certificate \<Rightarrow> string \<Rightarrow> bool"
  gen_key :: "nat \<Rightarrow> private_key option"
  gen_serial :: "nat \<Rightarrow> nat option"
  public_of :: "private_key \<Rightarrow> public_key"
  marshal_key :: "private_key \<Rightarrow> bytes option"
  marshal_pub :: "public_key option \<Rightarrow> bytes option"
  pem_encode :: "string \<Rightarrow> bytes \<Rightarrow> bytes"
  openssl :: "bytes \<Rightarrow> bytes option \<Rightarrow> bytes option \<Rightarrow> bytes option"

datatype pki_error =
    SystemCallFailed | InvalidCAPEM | CAParseFailed | InvalidOrExpiredCA | CAKeyUnusable | CAMismatch
  | DamagedCA | KeyGenFailed | SerialFailed | CreateFailed | MarshalFailed | SignFailed | EmptyDocument

definition template :: certificate where
  "template = \<lparr>Raw = [], CommonName = '''', Organization = [], SerialNumber = None, DNSNames = [], NotBefore = 0,
     NotAfter = 0, IsCA = False, BasicConstraintsValid = False, KeyUsage = 0, ExtKeyUsage = [], PublicKey = None\<rparr>"

definition KeyUsageDigitalSignature :: u64 where "KeyUsageDigitalSignature = 1"
definition KeyUsageCertSign :: u64 where "KeyUsageCertSign = 32"
definition KeyUsageCRLSign :: u64 where "KeyUsageCRLSign = 64"

definition minute :: int where "minute = 60000000000"

definition ca_hosts :: "string list" where
  "ca_hosts = [''gsp-ssl.ls.apple.com'', ''gspe1-ssl.ls.apple.com'', ''gs-loc.apple.com'',
     ''gs-loc-cn.apple.com'', ''bluedot.is.autonavi.com'', ''bluedot.is.autonavi.com.gds.alibabadns.com'']"

definition leaf_name :: "string \<Rightarrow> string" where "leaf_name host = host @ ''.pem''"

section \<open>Loading the CA\<close>

definition usable_ca :: "pki \<Rightarrow> certificate \<Rightarrow> bool" where
  "usable_ca E cert \<longleftrightarrow> \<not> (\<not> IsCA cert \<or> \<not> BasicConstraintsValid cert \<or> (KeyUsage cert AND KeyUsageCertSign) = 0
     \<or> NotBefore cert > clock_now E \<or> NotAfter cert < clock_now E \<or> \<not> signed_by E cert cert)"

text \<open>The part of \<open>loadCA\<close> after the two files have been read.\<close>

definition parse_ca :: "pki \<Rightarrow> bytes \<Rightarrow> bytes \<Rightarrow> pki_error + certificate \<times> private_key" where
  "parse_ca E certPEM keyPEM =
     (case (pem_decode E certPEM, pem_decode E keyPEM) of
        (Some cblock, Some kblock) \<Rightarrow>
          (case parse_cert E cblock of
             None \<Rightarrow> Inl CAParseFailed
           | Some cert \<Rightarrow>
               if \<not> usable_ca E cert then Inl InvalidOrExpiredCA
               else (case parse_key E kblock of
                  None \<Rightarrow> Inl CAKeyUnusable
                | Some k \<Rightarrow>
                    (case (marshal_pub E (PublicKey cert), marshal_pub E (Some (public_of E k))) of
                       (Some certPub, Some keyPub) \<Rightarrow>
                         if certPub \<noteq> keyPub then Inl CAMismatch else Inr (cert, k)
                     | _ \<Rightarrow> Inl CAKeyUnusable)))
      | _ \<Rightarrow> Inl InvalidCAPEM)"

definition loadCA :: "pki \<Rightarrow> faults \<Rightarrow> sys \<Rightarrow> (pki_error + certificate \<times> private_key) \<times> sys" where
  "loadCA E F s =
     (case os_ReadFile F (Named ''ca-cert.pem'') s of
        (None, s) \<Rightarrow> (Inl SystemCallFailed, s)
      | (Some certPEM, s) \<Rightarrow>
          (case os_ReadFile F (Named ''ca-key.pem'') s of
             (None, s) \<Rightarrow> (Inl SystemCallFailed, s)
           | (Some keyPEM, s) \<Rightarrow> (parse_ca E certPEM keyPEM, s)))"

section \<open>Making the CA\<close>

definition ca_template :: "pki \<Rightarrow> nat option \<Rightarrow> certificate" where
  "ca_template E serial = template
     \<lparr>SerialNumber := serial, CommonName := ''iLS Gateway Root'', NotBefore := clock_now E - minute,
      NotAfter := AddDate E (clock_now E) 10, IsCA := True, BasicConstraintsValid := True,
      KeyUsage := KeyUsageCertSign OR KeyUsageCRLSign\<rparr>"

text \<open>The error of \<open>MarshalECPrivateKey\<close> is ignored.\<close>

definition makeCA :: "pki \<Rightarrow> faults \<Rightarrow> sys \<Rightarrow> (pki_error + certificate \<times> private_key) \<times> sys" where
  "makeCA E F s =
     (case gen_key E (calls_made s) of
        None \<Rightarrow> (Inl KeyGenFailed, s)
      | Some caKey \<Rightarrow>
          let ca = ca_template E (gen_serial E (calls_made s)) in
          (case create_cert E ca ca (public_of E caKey) caKey of
             None \<Rightarrow> (Inl CreateFailed, s)
           | Some der \<Rightarrow>
               (case atomicWrite F (Named ''ca-cert.pem'') (pem_encode E ''CERTIFICATE'' der) mode_0640 s of
                  (False, s) \<Rightarrow> (Inl SystemCallFailed, s)
                | (True, s) \<Rightarrow>
                    let keyDER = (case marshal_key E caKey of None \<Rightarrow> [] | Some b \<Rightarrow> b) in
                    (case atomicWrite F (Named ''ca-key.pem'') (pem_encode E ''EC PRIVATE KEY'' keyDER) mode_0600 s of
                       (False, s) \<Rightarrow> (Inl SystemCallFailed, s)
                     | (True, s) \<Rightarrow> (Inr (ca, caKey), s)))))"

text \<open>What \<open>run\<close> does about the CA: the persisted one, a new one, or an error.\<close>

definition obtainCA :: "pki \<Rightarrow> faults \<Rightarrow> sys \<Rightarrow> (pki_error + certificate \<times> private_key) \<times> sys" where
  "obtainCA E F s =
     (case loadCA E F s of
        (Inr c, s) \<Rightarrow> (Inr c, s)
      | (Inl e, s) \<Rightarrow>
          if fileExists (Named ''ca-cert.pem'') s \<or> fileExists (Named ''ca-key.pem'') s then (Inl DamagedCA, s)
          else makeCA E F s)"

section \<open>Leaf certificates\<close>

fun hasExtKeyUsage :: "ext_usage list \<Rightarrow> ext_usage \<Rightarrow> bool" where
  "hasExtKeyUsage [] target = False"
| "hasExtKeyUsage (u # us) target = (if u = target then True else hasExtKeyUsage us target)"

definition leaf_cert_ok :: "pki \<Rightarrow> string \<Rightarrow> certificate \<Rightarrow> certificate \<Rightarrow> bool" where
  "leaf_cert_ok E host ca cert \<longleftrightarrow> \<not> NotBefore cert > clock_now E \<and> NotAfter cert > clock_now E
     \<and> (KeyUsage cert AND KeyUsageDigitalSignature) \<noteq> 0 \<and> hasExtKeyUsage (ExtKeyUsage cert) ServerAuth
     \<and> host_ok E cert host \<and> signed_by E cert ca"

definition leaf_bundle_ok :: "pki \<Rightarrow> string \<Rightarrow> certificate \<Rightarrow> bytes \<Rightarrow> bytes \<Rightarrow> bool" where
  "leaf_bundle_ok E host ca certPEM keyPEM =
     (case load_pair E certPEM keyPEM of
        Some (der # _) \<Rightarrow> (case parse_cert E der of None \<Rightarrow> False | Some cert \<Rightarrow> leaf_cert_ok E host ca cert)
      | _ \<Rightarrow> False)"

definition leafValid :: "pki \<Rightarrow> faults \<Rightarrow> string \<Rightarrow> string \<Rightarrow> certificate \<Rightarrow> sys \<Rightarrow> bool \<times> sys" where
  "leafValid E F name host ca s =
     (case os_ReadFile F (Named name) s of
        (None, s) \<Rightarrow> (False, s)
      | (Some c, s) \<Rightarrow>
          (case os_ReadFile F (Named name) s of
             (None, s) \<Rightarrow> (False, s)
           | (Some k, s) \<Rightarrow> (leaf_bundle_ok E host ca c k, s)))"

definition not_after :: "pki \<Rightarrow> certificate \<Rightarrow> nat \<Rightarrow> int" where
  "not_after E ca years =
     (let t = AddDate E (clock_now E) years in if NotAfter ca < t then NotAfter ca else t)"

definition leaf_template :: "pki \<Rightarrow> string \<Rightarrow> nat \<Rightarrow> certificate \<Rightarrow> certificate" where
  "leaf_template E host serial ca = template
     \<lparr>SerialNumber := Some serial, CommonName := host, DNSNames := [host], NotBefore := clock_now E - minute,
      NotAfter := not_after E ca 2, KeyUsage := KeyUsageDigitalSignature, ExtKeyUsage := [ServerAuth]\<rparr>"

definition of_syscall :: "bool \<times> sys \<Rightarrow> pki_error option \<times> sys" where
  "of_syscall r = (if fst r then None else Some SystemCallFailed, snd r)"

definition ensureLeaf ::
  "pki \<Rightarrow> faults \<Rightarrow> string \<Rightarrow> string \<Rightarrow> certificate \<Rightarrow> private_key \<Rightarrow> sys \<Rightarrow> pki_error option \<times> sys"
where
  "ensureLeaf E F name host ca caKey s =
     (case leafValid E F name host ca s of
        (True, s) \<Rightarrow> of_syscall (os_Chmod F (Named name) mode_0640 s)
      | (False, s) \<Rightarrow>
          (case gen_key E (calls_made s) of
             None \<Rightarrow> (Some KeyGenFailed, s)
           | Some k \<Rightarrow>
               (case gen_serial E (calls_made s) of
                  None \<Rightarrow> (Some SerialFailed, s)
                | Some serial \<Rightarrow>
                    (case create_cert E (leaf_template E host serial ca) ca (public_of E k) caKey of
                       None \<Rightarrow> (Some CreateFailed, s)
                     | Some leaf \<Rightarrow>
                         (case marshal_key E k of
                            None \<Rightarrow> (Some MarshalFailed, s)
                          | Some leafKey \<Rightarrow>
                              of_syscall (atomicWrite F (Named name)
                                (pem_encode E ''CERTIFICATE'' leaf @ pem_encode E ''EC PRIVATE KEY'' leafKey)
                                mode_0640 s))))))"

section \<open>The signer of the profile\<close>

definition signer_ok :: "pki \<Rightarrow> certificate \<Rightarrow> bytes \<Rightarrow> bytes \<Rightarrow> bool" where
  "signer_ok E ca certPEM keyPEM =
     (case (pem_decode E certPEM, pem_decode E keyPEM) of
        (Some cblock, Some kblock) \<Rightarrow>
          (case (parse_cert E cblock, parse_key E kblock) of
             (Some cert, Some k) \<Rightarrow>
               if NotBefore cert > clock_now E \<or> NotAfter cert < clock_now E
                 \<or> (KeyUsage cert AND KeyUsageDigitalSignature) = 0 \<or> \<not> signed_by E cert ca then False
               else (case (marshal_pub E (PublicKey cert), marshal_pub E (Some (public_of E k))) of
                  (Some certPub, Some keyPub) \<Rightarrow> certPub = keyPub | _ \<Rightarrow> False)
           | _ \<Rightarrow> False)
      | _ \<Rightarrow> False)"

definition signer_cert_name :: string where "signer_cert_name = ''profile-signing-cert.pem''"
definition signer_key_name :: string where "signer_key_name = ''profile-signing-key.pem''"

text \<open>Both files are read before either error is looked at.\<close>

definition profileSignerValid :: "pki \<Rightarrow> faults \<Rightarrow> certificate \<Rightarrow> sys \<Rightarrow> bool \<times> sys" where
  "profileSignerValid E F ca s =
     (let (c, s) = os_ReadFile F (Named signer_cert_name) s;
          (k, s) = os_ReadFile F (Named signer_key_name) s
      in (case (c, k) of (Some c, Some k) \<Rightarrow> signer_ok E ca c k | _ \<Rightarrow> False, s))"

definition signer_template :: "pki \<Rightarrow> nat \<Rightarrow> certificate \<Rightarrow> certificate" where
  "signer_template E serial ca = template
     \<lparr>SerialNumber := Some serial, CommonName := ''iLS Gateway'', Organization := [''iLS Gateway''],
      NotBefore := clock_now E - minute, NotAfter := not_after E ca 5, BasicConstraintsValid := True,
      KeyUsage := KeyUsageDigitalSignature, ExtKeyUsage := [CodeSigning, EmailProtection]\<rparr>"

definition ensureProfileSigner ::
  "pki \<Rightarrow> faults \<Rightarrow> certificate \<Rightarrow> private_key \<Rightarrow> sys \<Rightarrow> pki_error option \<times> sys"
where
  "ensureProfileSigner E F ca caKey s =
     (case profileSignerValid E F ca s of
        (True, s) \<Rightarrow> (None, s)
      | (False, s) \<Rightarrow>
          (case gen_key E (calls_made s) of
             None \<Rightarrow> (Some KeyGenFailed, s)
           | Some k \<Rightarrow>
               (case gen_serial E (calls_made s) of
                  None \<Rightarrow> (Some SerialFailed, s)
                | Some serial \<Rightarrow>
                    (case create_cert E (signer_template E serial ca) ca (public_of E k) caKey of
                       None \<Rightarrow> (Some CreateFailed, s)
                     | Some der \<Rightarrow>
                         (case marshal_key E k of
                            None \<Rightarrow> (Some MarshalFailed, s)
                          | Some keyDER \<Rightarrow>
                              (case atomicWrite F (Named signer_cert_name) (pem_encode E ''CERTIFICATE'' der) mode_0640 s of
                                 (False, s) \<Rightarrow> (Some SystemCallFailed, s)
                               | (True, s) \<Rightarrow>
                                   of_syscall (atomicWrite F (Named signer_key_name)
                                     (pem_encode E ''EC PRIVATE KEY'' keyDER) mode_0600 s)))))))"

text \<open>\<open>signCMSWithOpenSSL\<close>: the command reads the two files itself.\<close>

definition signCMSWithOpenSSL :: "pki \<Rightarrow> bytes \<Rightarrow> sys \<Rightarrow> pki_error + bytes" where
  "signCMSWithOpenSSL E profile s =
     (case openssl E profile (data_of signer_cert_name s) (data_of signer_key_name s) of
        None \<Rightarrow> Inl SignFailed
      | Some doc \<Rightarrow> if doc = [] then Inl EmptyDocument else Inr doc)"

section \<open>\<open>run\<close>\<close>

text \<open>\<open>if err := ...; err != nil { return err }\<close>.\<close>

definition unless_failed :: "pki_error option \<times> sys \<Rightarrow> (sys \<Rightarrow> pki_error option \<times> sys) \<Rightarrow> pki_error option \<times> sys" where
  "unless_failed r k = (case r of (Some e, s) \<Rightarrow> (Some e, s) | (None, s) \<Rightarrow> k s)"

fun ensure_leaves ::
  "pki \<Rightarrow> faults \<Rightarrow> certificate \<Rightarrow> private_key \<Rightarrow> string list \<Rightarrow> sys \<Rightarrow> pki_error option \<times> sys"
where
  "ensure_leaves E F ca caKey [] s = (None, s)"
| "ensure_leaves E F ca caKey (host # hosts) s =
     unless_failed (ensureLeaf E F (leaf_name host) host ca caKey s) (ensure_leaves E F ca caKey hosts)"

definition write_profile :: "pki \<Rightarrow> faults \<Rightarrow> certificate \<Rightarrow> sys \<Rightarrow> pki_error option \<times> sys" where
  "write_profile E F ca s =
     (case signCMSWithOpenSSL E (go_bytes (EnrollmentMobileConfig E ca)) s of
        Inl e \<Rightarrow> (Some e, s)
      | Inr doc \<Rightarrow> of_syscall (atomicWrite F (Named ''ca.mobileconfig'') doc mode_0640 s))"

definition chmod_step :: "faults \<Rightarrow> string \<Rightarrow> nat \<Rightarrow> sys \<Rightarrow> pki_error option \<times> sys" where
  "chmod_step F name m s = of_syscall (os_Chmod F (Named name) m s)"

definition final_modes :: "faults \<Rightarrow> sys \<Rightarrow> pki_error option \<times> sys" where
  "final_modes F s =
     unless_failed (chmod_step F ''ca-cert.pem'' mode_0640 s) (\<lambda>s.
     unless_failed (chmod_step F signer_cert_name mode_0640 s) (\<lambda>s.
     unless_failed (chmod_step F signer_key_name mode_0600 s) (\<lambda>s.
     unless_failed (chmod_step F ''ca.mobileconfig'' mode_0640 s) (\<lambda>s.
       of_syscall (os_ChmodDir F mode_0750 s)))))"

definition install :: "pki \<Rightarrow> faults \<Rightarrow> certificate \<Rightarrow> private_key \<Rightarrow> sys \<Rightarrow> pki_error option \<times> sys" where
  "install E F ca caKey s =
     unless_failed (chmod_step F ''ca-key.pem'' mode_0600 s) (\<lambda>s.
     unless_failed (ensureProfileSigner E F ca caKey s) (\<lambda>s.
     unless_failed (write_profile E F ca s) (\<lambda>s.
     unless_failed (ensure_leaves E F ca caKey ca_hosts s) (final_modes F))))"

definition ca_run :: "pki \<Rightarrow> faults \<Rightarrow> sys \<Rightarrow> pki_error option \<times> sys" where
  "ca_run E F s =
     unless_failed (of_syscall (os_MkdirAll F mode_0750 s)) (\<lambda>s.
     unless_failed (of_syscall (os_ChmodDir F mode_0750 s)) (\<lambda>s.
       case obtainCA E F s of
         (Inl e, s) \<Rightarrow> (Some e, s)
       | (Inr (ca, caKey), s) \<Rightarrow> install E F ca caKey s))"

end
