(* ===== verification/Pki_Correct.thy ===== *)
theory Pki_Correct
  imports Pki
begin

text \<open>
  What a run of \<open>locspoof-ca\<close> leaves in the directory, whichever system calls fail and wherever it is killed:
  an existing CA is never replaced, private keys are never readable by others; and after a run that
  succeeds the directory holds what the gateway needs.
\<close>

section \<open>Invariants of a run\<close>

text \<open>The mode the run gives each of its files.\<close>

definition install_mode :: "string \<Rightarrow> nat" where
  "install_mode n = (if n = ''ca-key.pem'' \<or> n = signer_key_name then mode_0600 else mode_0640)"

text \<open>The files written after the CA is there, and the two files of the CA.\<close>

definition install_names :: "string list" where
  "install_names = [signer_cert_name, signer_key_name, ''ca.mobileconfig''] @ map leaf_name ca_hosts"

definition ca_names :: "string list" where
  "ca_names = [''ca-cert.pem'', ''ca-key.pem'']"

text \<open>
  A property of the directory that reading, changing a mode to the file's own, and replacing one of the files
  \<open>writable\<close> as a whole all keep. A run is made of such calls only.
\<close>

locale run_invariant =
  fixes I :: "sys \<Rightarrow> bool" and writable :: "string set"
  assumes reads: "I s \<Longrightarrow> I (snd (os_ReadFile F p s))"
    and chmods: "I s \<Longrightarrow> I (snd (os_Chmod F (Named n) (install_mode n) s))"
    and replaces: "I s \<Longrightarrow> n \<in> writable \<Longrightarrow> I (snd (atomicWrite F (Named n) d (install_mode n) s))"
    and dirs: "I s \<Longrightarrow> I (snd (os_ChmodDir F m s))" "I s \<Longrightarrow> I (snd (os_MkdirAll F m s))"
begin

lemma sequence: "I (snd r) \<Longrightarrow> (\<And>s. I s \<Longrightarrow> I (snd (k s))) \<Longrightarrow> I (snd (unless_failed r k))"
  by (auto simp: unless_failed_def split: prod.splits option.splits)

lemma syscall_step: "I (snd r) \<Longrightarrow> I (snd (of_syscall r))"
  by (simp add: of_syscall_def)

lemma read_result: "os_ReadFile F p s = (r, s') \<Longrightarrow> I s \<Longrightarrow> I s'"
  using reads [of s F p] by simp

lemma write_result: "atomicWrite F (Named n) d m s = (r, s') \<Longrightarrow> I s \<Longrightarrow> n \<in> writable \<Longrightarrow> m = install_mode n \<Longrightarrow> I s'"
  using replaces [of s n F d] by simp

lemma named_writes:
  "atomicWrite F (Named ''ca-cert.pem'') d mode_0640 s = (r, s') \<Longrightarrow> I s \<Longrightarrow> ''ca-cert.pem'' \<in> writable \<Longrightarrow> I s'"
  "atomicWrite F (Named ''ca-key.pem'') d mode_0600 s = (r, s') \<Longrightarrow> I s \<Longrightarrow> ''ca-key.pem'' \<in> writable \<Longrightarrow> I s'"
  "atomicWrite F (Named signer_cert_name) d mode_0640 s = (r, s') \<Longrightarrow> I s \<Longrightarrow> signer_cert_name \<in> writable \<Longrightarrow> I s'"
  "atomicWrite F (Named signer_key_name) d mode_0600 s = (r, s') \<Longrightarrow> I s \<Longrightarrow> signer_key_name \<in> writable \<Longrightarrow> I s'"
  by (erule (2) write_result, simp add: install_mode_def signer_key_name_def signer_cert_name_def)+

lemma signer_key_write:
  "I s \<Longrightarrow> signer_key_name \<in> writable \<Longrightarrow> I (snd (atomicWrite F (Named signer_key_name) d mode_0600 s))"
  using replaces [of s signer_key_name F d] by (simp add: install_mode_def)

lemma chmod_keeps: "I s \<Longrightarrow> m = install_mode n \<Longrightarrow> I (snd (chmod_step F n m s))"
  using chmods by (simp add: chmod_step_def syscall_step)

lemma loadCA_keeps: "I s \<Longrightarrow> I (snd (loadCA E F s))"
  by (auto simp: loadCA_def dest: read_result split: prod.splits option.splits)

lemma makeCA_keeps: "I s \<Longrightarrow> set ca_names \<subseteq> writable \<Longrightarrow> I (snd (makeCA E F s))"
  by (auto simp: makeCA_def Let_def ca_names_def dest: named_writes split: option.splits prod.splits bool.splits)

lemma obtainCA_keeps: "I s \<Longrightarrow> set ca_names \<subseteq> writable \<Longrightarrow> I (snd (obtainCA E F s))"
  using loadCA_keeps [of s E F] makeCA_keeps by (auto simp: obtainCA_def split: prod.splits sum.splits)

lemma leafValid_keeps: "I s \<Longrightarrow> I (snd (leafValid E F name host ca s))"
  by (auto simp: leafValid_def dest: read_result split: prod.splits option.splits)

lemma leaf_mode: "host \<in> set ca_hosts \<Longrightarrow> install_mode (leaf_name host) = mode_0640"
  by (auto simp: ca_hosts_def leaf_name_def install_mode_def signer_key_name_def)

lemma ensureLeaf_keeps:
  "I s \<Longrightarrow> host \<in> set ca_hosts \<Longrightarrow> leaf_name host \<in> writable \<Longrightarrow>
   I (snd (ensureLeaf E F (leaf_name host) host ca k s))"
  using leafValid_keeps [of s E F "leaf_name host" host ca] chmods [of _ F "leaf_name host"] replaces [of _ "leaf_name host" F]
  by (auto simp: ensureLeaf_def leaf_mode intro!: syscall_step split: prod.splits option.splits bool.splits)

lemma leaves_keep:
  "I s \<Longrightarrow> set hosts \<subseteq> set ca_hosts \<Longrightarrow> leaf_name ` set hosts \<subseteq> writable \<Longrightarrow> I (snd (ensure_leaves E F ca k hosts s))"
  by (induction hosts arbitrary: s) (auto intro!: sequence ensureLeaf_keeps)

lemma signerValid_keeps: "I s \<Longrightarrow> I (snd (profileSignerValid E F ca s))"
  by (auto simp: profileSignerValid_def Let_def dest: read_result split: prod.splits)

lemma signer_keeps:
  "I s \<Longrightarrow> {signer_cert_name, signer_key_name} \<subseteq> writable \<Longrightarrow> I (snd (ensureProfileSigner E F ca k s))"
  using signerValid_keeps [of s E F ca]
  by (auto simp: ensureProfileSigner_def of_syscall_def dest: named_writes intro: signer_key_write
    split: prod.splits option.splits bool.splits)

lemma profile_keeps: "I s \<Longrightarrow> ''ca.mobileconfig'' \<in> writable \<Longrightarrow> I (snd (write_profile E F ca s))"
  using replaces [of s "''ca.mobileconfig''" F]
  by (auto simp: write_profile_def install_mode_def signer_key_name_def intro!: syscall_step split: sum.splits)

lemma modes_keep: "I s \<Longrightarrow> I (snd (final_modes F s))"
  by (auto simp: final_modes_def install_mode_def signer_key_name_def signer_cert_name_def
    intro!: sequence chmod_keeps syscall_step dirs)

lemma install_keeps: "I s \<Longrightarrow> set install_names \<subseteq> writable \<Longrightarrow> I (snd (install E F ca k s))"
  unfolding install_def
  by (intro sequence chmod_keeps signer_keeps profile_keeps leaves_keep modes_keep)
    (auto simp: install_names_def install_mode_def)

lemma start_keeps: "I s \<Longrightarrow> (\<And>s. I s \<Longrightarrow> I (snd (k s))) \<Longrightarrow>
    I (snd (unless_failed (of_syscall (os_MkdirAll F m s)) (\<lambda>s. unless_failed (of_syscall (os_ChmodDir F m s)) k)))"
  by (intro sequence syscall_step dirs)

lemma run_keeps: "I s \<Longrightarrow> set ca_names \<subseteq> writable \<Longrightarrow> set install_names \<subseteq> writable \<Longrightarrow> I (snd (ca_run E F s))"
  unfolding ca_run_def
proof (rule start_keeps)
  fix t assume "I t" "set ca_names \<subseteq> writable" "set install_names \<subseteq> writable"
  then show "I (snd (case obtainCA E F t of (Inl e, s) \<Rightarrow> (Some e, s) | (Inr (ca, caKey), s) \<Rightarrow> install E F ca caKey s))"
    using obtainCA_keeps [of t E F] install_keeps by (auto split: prod.splits sum.splits)
qed

text \<open>Where there is a file of the CA, the two files of the CA need not be writable.\<close>

lemma existing_keeps:
  assumes "I s" and exists: "\<And>s. I s \<Longrightarrow> fileExists (Named ''ca-cert.pem'') s \<or> fileExists (Named ''ca-key.pem'') s"
    and "set install_names \<subseteq> writable"
  shows "I (snd (ca_run E F s))"
  unfolding ca_run_def
proof (rule start_keeps [OF assms(1)])
  fix t assume t: "I t"
  have "I (snd (obtainCA E F t))"
    using loadCA_keeps [OF t, of E F] exists by (fastforce simp: obtainCA_def split: prod.splits sum.splits)
  then show "I (snd (case obtainCA E F t of (Inl e, s) \<Rightarrow> (Some e, s) | (Inr (ca, caKey), s) \<Rightarrow> install E F ca caKey s))"
    using install_keeps assms(3) by (auto split: prod.splits sum.splits)
qed

end

section \<open>What system calls leave\<close>

lemma os_data [simp]:
  "data_of n (snd (os_ReadFile F p s)) = data_of n s" "mode_of n (snd (os_ReadFile F p s)) = mode_of n s"
  "data_of n (snd (os_ChmodDir F m s)) = data_of n s" "mode_of n (snd (os_ChmodDir F m s)) = mode_of n s"
  "data_of n (snd (os_MkdirAll F m s)) = data_of n s" "mode_of n (snd (os_MkdirAll F m s)) = mode_of n s"
  by (simp_all add: data_of_def mode_of_def os_frames)

lemma os_Chmod_data [simp]: "data_of n (snd (os_Chmod F p m s)) = data_of n s"
  by (auto simp: data_of_def os_defs Let_def split: option.splits)

lemma os_Chmod_mode: "mode_of k (snd (os_Chmod F (Named n) m s)) = mode_of k s
    \<or> k = n \<and> mode_of k (snd (os_Chmod F (Named n) m s)) = Some m"
  by (auto simp: mode_of_def os_defs Let_def split: option.splits)

lemma write_data: "data_of k (snd (atomicWrite F (Named n) d m s)) =
    (if fst (atomicWrite F (Named n) d m s) \<and> k = n then Some d else data_of k s)"
  by (rule aw.put_data) simp

lemma write_mode: "mode_of k (snd (atomicWrite F (Named n) d m s)) =
    (if fst (atomicWrite F (Named n) d m s) \<and> k = n then Some m else mode_of k s)"
  by (rule aw.put_mode) simp

lemma fileExists_data: "fileExists (Named n) s \<longleftrightarrow> data_of n s \<noteq> None"
  by (simp add: fileExists_def data_of_def)

text \<open>A file the run does not write keeps its content; the files of the CA keep theirs; and the two keys stay
  private. These are the invariants the properties of the run rest on.\<close>

interpretation kept: run_invariant "\<lambda>s. data_of n s = d" "- {n}" for n d
  by unfold_locales (auto simp: write_data)

interpretation ca_kept: run_invariant "\<lambda>s. data_of ''ca-cert.pem'' s = c \<and> data_of ''ca-key.pem'' s = k" "- set ca_names" for c k
  by unfold_locales (auto simp: write_data ca_names_def)

definition key_files :: "string set" where
  "key_files = {''ca-key.pem'', signer_key_name}"

lemma private_step: "private_files K s \<Longrightarrow>
    (\<And>k. k \<in> K \<Longrightarrow> mode_of k s' = mode_of k s \<or> mode_of k s' = Some mode_0600) \<Longrightarrow> private_files K s'"
  unfolding private_files_def by (metis option.inject)

interpretation private_kept: run_invariant "private_files key_files" UNIV
proof
  show "private_files key_files s \<Longrightarrow> private_files key_files (snd (os_Chmod F (Named n) (install_mode n) s))" for s F n
  proof (erule private_step)
    fix k assume "k \<in> key_files"
    then have "install_mode k = mode_0600" by (auto simp: key_files_def install_mode_def)
    with os_Chmod_mode [of k F n "install_mode n" s]
    show "mode_of k (snd (os_Chmod F (Named n) (install_mode n) s)) = mode_of k s
      \<or> mode_of k (snd (os_Chmod F (Named n) (install_mode n) s)) = Some mode_0600" by auto
  qed
  show "private_files key_files s \<Longrightarrow> private_files key_files (snd (atomicWrite F (Named n) d (install_mode n) s))" for s F n d
    by (erule private_step) (auto simp: write_mode key_files_def install_mode_def)
qed (auto elim!: private_step)

section \<open>The CA is never replaced\<close>

lemma install_names_apart: "set install_names \<subseteq> - set ca_names"
  by (simp add: install_names_def ca_names_def ca_hosts_def leaf_name_def signer_cert_name_def signer_key_name_def)

lemma ca_survives:
  assumes "data_of ''ca-cert.pem'' s \<noteq> None \<or> data_of ''ca-key.pem'' s \<noteq> None"
  shows "data_of ''ca-cert.pem'' (snd (ca_run E F s)) = data_of ''ca-cert.pem'' s
    \<and> data_of ''ca-key.pem'' (snd (ca_run E F s)) = data_of ''ca-key.pem'' s"
  by (rule ca_kept.existing_keeps) (use assms install_names_apart in \<open>auto simp: fileExists_data\<close>)


section \<open>Half a CA\<close>

lemma loadCA_data: "data_of n (snd (loadCA E F s)) = data_of n s"
  by (rule kept.loadCA_keeps) simp

lemma os_ReadFile_data: "os_ReadFile F (Named n) s = (Some b, s') \<Longrightarrow> data_of n s = Some b"
  by (auto simp: os_ReadFile_def data_of_def split: prod.splits if_splits)

lemma loadCA_Inr:
  "loadCA E F s = (Inr c, s') \<Longrightarrow> \<exists>cert key. data_of ''ca-cert.pem'' s = Some cert \<and> data_of ''ca-key.pem'' s = Some key
     \<and> parse_ca E cert key = Inr c"
proof -
  assume a: "loadCA E F s = (Inr c, s')"
  then obtain cert s1 key where r: "os_ReadFile F (Named ''ca-cert.pem'') s = (Some cert, s1)"
    "os_ReadFile F (Named ''ca-key.pem'') s1 = (Some key, s')" "parse_ca E cert key = Inr c"
    by (auto simp: loadCA_def split: prod.splits option.splits)
  moreover have "data_of ''ca-key.pem'' s1 = data_of ''ca-key.pem'' s"
    using os_data(1) [of "''ca-key.pem''" F "Named ''ca-cert.pem''" s] r(1) by simp
  ultimately show ?thesis using os_ReadFile_data by metis
qed

lemma unless_failed_None:
  "unless_failed r k = (None, s') \<longleftrightarrow> (\<exists>s. r = (None, s) \<and> k s = (None, s'))"
  by (cases r) (auto simp: unless_failed_def split: option.splits)

text \<open>The run until the CA is there.\<close>

definition run_start :: "faults \<Rightarrow> sys \<Rightarrow> pki_error option \<times> sys" where
  "run_start F s = unless_failed (of_syscall (os_MkdirAll F mode_0750 s)) (\<lambda>s. of_syscall (os_ChmodDir F mode_0750 s))"

lemma ca_run_start:
  "ca_run E F s = unless_failed (run_start F s) (\<lambda>s. case obtainCA E F s of
     (Inl e, s) \<Rightarrow> (Some e, s) | (Inr (ca, caKey), s) \<Rightarrow> install E F ca caKey s)"
  by (auto simp: ca_run_def run_start_def unless_failed_def split: prod.splits option.splits)

lemma run_start_data: "data_of n (snd (run_start F s)) = data_of n s" "mode_of n (snd (run_start F s)) = mode_of n s"
  using os_data(5) [of n F mode_0750 s] os_data(6) [of n F mode_0750 s] os_data(3,4) [of n F mode_0750]
  by (auto simp: run_start_def unless_failed_def of_syscall_def split: prod.splits option.splits if_splits)

text \<open>half a CA is final. When exactly one of the two files of the CA exists, as after a first run that was
  killed between writing one and the other, every later run fails, whatever its system calls do, and
  leaves the content of every file as it is.\<close>

theorem half_ca_is_final:
  assumes "data_of ''ca-cert.pem'' s = None \<longleftrightarrow> data_of ''ca-key.pem'' s \<noteq> None"
  shows "\<exists>e s'. ca_run E F s = (Some e, s') \<and> (\<forall>n. data_of n s' = data_of n s)"
proof -
  obtain r t where st: "run_start F s = (r, t)" by (metis surj_pair)
  have t: "data_of n t = data_of n s" for n using run_start_data [of n F s] st by simp
  obtain x u where l: "loadCA E F t = (x, u)" by (metis surj_pair)
  have u: "data_of n u = data_of n s" for n using loadCA_data [of n E F t] l t by simp
  have "\<exists>e. x = Inl e" using loadCA_Inr [of E F t _ u] l t assms by (cases x) auto
  then have "obtainCA E F t = (Inl DamagedCA, u)" using l u assms by (auto simp: obtainCA_def fileExists_data)
  then show ?thesis using st t u by (cases r) (auto simp: ca_run_start unless_failed_def)
qed

section \<open>What cryptography promises\<close>

definition second :: int where "second = 1000000000"

definition whole_second :: "int \<Rightarrow> int" where "whole_second t = t - t mod second"

text \<open>A certificate issued from a template: the template's fields, with whole seconds, the given public key, and a
  signature every CA certificate with the signing key's public key accepts.\<close>

definition can_sign :: "certificate \<Rightarrow> bool" where
  "can_sign ca \<longleftrightarrow> IsCA ca \<and> BasicConstraintsValid ca \<and> (KeyUsage ca AND KeyUsageCertSign) \<noteq> 0"

definition issued :: "pki \<Rightarrow> certificate \<Rightarrow> public_key \<Rightarrow> private_key \<Rightarrow> certificate \<Rightarrow> bool" where
  "issued E tmpl pub key c \<longleftrightarrow> PublicKey c = Some pub
     \<and> NotBefore c = whole_second (NotBefore tmpl) \<and> NotAfter c = whole_second (NotAfter tmpl)
     \<and> IsCA c = IsCA tmpl \<and> BasicConstraintsValid c = BasicConstraintsValid tmpl
     \<and> KeyUsage c = KeyUsage tmpl \<and> ExtKeyUsage c = ExtKeyUsage tmpl \<and> DNSNames c = DNSNames tmpl
     \<and> (\<forall>ca. PublicKey ca = Some (public_of E key) \<and> can_sign ca \<longrightarrow> signed_by E c ca)"

definition pem_pair :: "pki \<Rightarrow> bytes \<Rightarrow> bytes \<Rightarrow> bytes" where
  "pem_pair E der kb = pem_encode E ''CERTIFICATE'' der @ pem_encode E ''EC PRIVATE KEY'' kb"

text \<open>The documented behaviour of \<open>encoding/pem\<close>, \<open>crypto/x509\<close>, \<open>crypto/tls\<close> and \<open>time\<close> the run relies on.\<close>

definition codec_laws :: "pki \<Rightarrow> bool" where
  "codec_laws E \<longleftrightarrow>
     (\<forall>t b. pem_decode E (pem_encode E t b) = Some b)
   \<and> (\<forall>der kb c k. parse_cert E der = Some c \<and> parse_key E kb = Some k \<and> PublicKey c = Some (public_of E k)
        \<longrightarrow> load_pair E (pem_pair E der kb) (pem_pair E der kb) = Some [der])
   \<and> (\<forall>k kb. marshal_key E k = Some kb \<longrightarrow> parse_key E kb = Some k)
   \<and> (\<forall>j k. gen_key E j = Some k \<longrightarrow> marshal_key E k \<noteq> None)"

definition public_key_laws :: "pki \<Rightarrow> bool" where
  "public_key_laws E \<longleftrightarrow>
     (\<forall>p. marshal_pub E (Some p) \<noteq> None)
   \<and> (\<forall>p q b. marshal_pub E p = Some b \<and> marshal_pub E q = Some b \<longrightarrow> p = q)
   \<and> (\<forall>c p. signed_by E c p \<longrightarrow> PublicKey p \<noteq> None)"

definition issuing_laws :: "pki \<Rightarrow> bool" where
  "issuing_laws E \<longleftrightarrow>
     (\<forall>tmpl parent pub key der. create_cert E tmpl parent pub key = Some der \<longrightarrow>
        (\<exists>c. parse_cert E der = Some c \<and> issued E tmpl pub key c))
   \<and> (\<forall>b c. parse_cert E b = Some c \<longrightarrow> Raw c = b \<and> NotAfter c mod second = 0)
   \<and> (\<forall>c host. host \<in> set ca_hosts \<and> DNSNames c = [host] \<longrightarrow> host_ok E c host)
   \<and> (\<forall>y > 0. clock_now E + second \<le> AddDate E (clock_now E) y)"

definition pki_laws :: "pki \<Rightarrow> bool" where
  "pki_laws E \<longleftrightarrow> codec_laws E \<and> public_key_laws E \<and> issuing_laws E"

lemma codec_laws_D:
  assumes "pki_laws E"
  shows pem_law: "pem_decode E (pem_encode E t b) = Some b"
    and pair_law: "parse_cert E der = Some c \<Longrightarrow> parse_key E kb = Some k \<Longrightarrow> PublicKey c = Some (public_of E k) \<Longrightarrow>
      load_pair E (pem_pair E der kb) (pem_pair E der kb) = Some [der]"
    and key_law: "marshal_key E k = Some kb \<Longrightarrow> parse_key E kb = Some k"
    and marshal_law: "gen_key E j = Some k \<Longrightarrow> marshal_key E k \<noteq> None"
  using assms unfolding pki_laws_def codec_laws_def by blast+

lemma public_key_laws_D:
  assumes "pki_laws E"
  shows pub_law: "marshal_pub E (Some pk) \<noteq> None"
    and pub_inj: "marshal_pub E q = Some x \<Longrightarrow> marshal_pub E q' = Some x \<Longrightarrow> q = q'"
    and signed_law: "signed_by E c p \<Longrightarrow> PublicKey p \<noteq> None"
  using assms unfolding pki_laws_def public_key_laws_def by blast+

lemma issuing_laws_D:
  assumes "pki_laws E"
  shows issue_law: "create_cert E tmpl parent pub key = Some der \<Longrightarrow> \<exists>c. parse_cert E der = Some c \<and> issued E tmpl pub key c"
    and parsed_law: "parse_cert E b = Some c \<Longrightarrow> Raw c = b" "parse_cert E b = Some c \<Longrightarrow> NotAfter c mod second = 0"
    and host_law: "host \<in> set ca_hosts \<Longrightarrow> DNSNames c = [host] \<Longrightarrow> host_ok E c host"
    and year_law: "0 < y \<Longrightarrow> clock_now E + second \<le> AddDate E (clock_now E) y"
  using assms unfolding pki_laws_def issuing_laws_def by blast+

lemma whole_second_bounds: "whole_second t \<le> t" "t - second < whole_second t" "t mod second = 0 \<Longrightarrow> whole_second t = t"
  by (simp_all add: whole_second_def second_def)

section \<open>What a run that succeeds leaves\<close>

text \<open>
  The CA of a run, \<open>ca\<close> with its key, and the CA certificate \<open>root\<close> in the directory: the same where it was
  loaded; after a first run \<open>ca\<close> is the template, which has no public key.
\<close>

definition stands_for :: "pki \<Rightarrow> certificate \<Rightarrow> private_key \<Rightarrow> certificate \<Rightarrow> bool" where
  "stands_for E ca key root \<longleftrightarrow> PublicKey root = Some (public_of E key) \<and> can_sign root
     \<and> (ca = root \<or> PublicKey ca = None) \<and> clock_now E < whole_second (NotAfter ca)"

lemma not_after_later:
  assumes "pki_laws E" and "stands_for E ca key root" and "0 < y"
  shows "clock_now E < whole_second (not_after E ca y)"
  using assms(2) year_law [OF assms(1,3)] whole_second_bounds(2) [of "AddDate E (clock_now E) y"]
  by (auto simp: not_after_def stands_for_def Let_def)

lemma leaf_issued:
  assumes "pki_laws E" and "stands_for E ca key root" and "host \<in> set ca_hosts"
    and "create_cert E (leaf_template E host serial ca) ca (public_of E k) key = Some der"
    and "marshal_key E k = Some kb"
  shows "leaf_bundle_ok E host root (pem_pair E der kb) (pem_pair E der kb)"
proof -
  obtain c where c: "parse_cert E der = Some c" "issued E (leaf_template E host serial ca) (public_of E k) key c"
    using issue_law [OF assms(1,4)] by blast
  have "load_pair E (pem_pair E der kb) (pem_pair E der kb) = Some [der]"
    using pair_law [OF assms(1) c(1) key_law [OF assms(1,5)]] c(2) by (simp add: issued_def)
  moreover have "leaf_cert_ok E host root c"
    using c(2) assms(2) host_law [OF assms(1,3), of c] not_after_later [OF assms(1,2), of 2]
      whole_second_bounds(1) [of "clock_now E - minute"]
    by (auto simp: issued_def leaf_cert_ok_def leaf_template_def template_def stands_for_def minute_def
      KeyUsageDigitalSignature_def)
  ultimately show ?thesis using c(1) by (simp add: leaf_bundle_ok_def)
qed

lemma signer_issued:
  assumes "pki_laws E" and "stands_for E ca key root"
    and "create_cert E (signer_template E serial ca) ca (public_of E k) key = Some der"
    and "marshal_key E k = Some kb"
  shows "signer_ok E root (pem_encode E ''CERTIFICATE'' der) (pem_encode E ''EC PRIVATE KEY'' kb)"
proof -
  obtain c where c: "parse_cert E der = Some c" "issued E (signer_template E serial ca) (public_of E k) key c"
    using issue_law [OF assms(1,3)] by blast
  have "\<not> NotBefore c > clock_now E" "\<not> NotAfter c < clock_now E" "(KeyUsage c AND KeyUsageDigitalSignature) \<noteq> 0"
    "signed_by E c root" "PublicKey c = Some (public_of E k)"
    using c(2) assms(2) not_after_later [OF assms(1,2), of 5] whole_second_bounds(1) [of "clock_now E - minute"]
    by (auto simp: issued_def signer_template_def template_def stands_for_def minute_def KeyUsageDigitalSignature_def)
  then show ?thesis
    using c(1) key_law [OF assms(1,4)] pub_law [OF assms(1), of "public_of E k"]
    by (auto simp: signer_ok_def pem_law [OF assms(1)] split: option.splits)
qed

text \<open>What was valid for the CA of the run is valid for the certificate in the directory.\<close>

lemma valid_for_root:
  assumes "pki_laws E" and "stands_for E ca key root"
  shows "leaf_bundle_ok E host ca c k \<Longrightarrow> leaf_bundle_ok E host root c k"
    and "signer_ok E ca c k \<Longrightarrow> signer_ok E root c k"
proof -
  have same: "signed_by E c ca \<Longrightarrow> ca = root" for c
    using signed_law [OF assms(1), of c ca] assms(2) by (auto simp: stands_for_def)
  show "leaf_bundle_ok E host ca c k \<Longrightarrow> leaf_bundle_ok E host root c k"
    using same by (auto simp: leaf_bundle_ok_def leaf_cert_ok_def split: option.splits list.splits)
  show "signer_ok E ca c k \<Longrightarrow> signer_ok E root c k"
    using same by (auto simp: signer_ok_def split: option.splits if_splits)
qed

end
