(* ===== verification/Pki_Ready.thy ===== *)
theory Pki_Ready
  imports Pki_Correct
begin

text \<open>
  What a run of \<open>locspoof-ca\<close> that succeeds has put into the directory, that another run keeps it, and that a first
  run succeeds when no call fails.
\<close>

section \<open>The directory a gateway needs\<close>

definition loaded_ca :: "pki \<Rightarrow> sys \<Rightarrow> (certificate \<times> private_key) option" where
  "loaded_ca E s =
     (case (data_of ''ca-cert.pem'' s, data_of ''ca-key.pem'' s) of
        (Some c, Some k) \<Rightarrow> (case parse_ca E c k of Inl _ \<Rightarrow> None | Inr r \<Rightarrow> Some r)
      | _ \<Rightarrow> None)"

definition leaf_ready :: "pki \<Rightarrow> certificate \<Rightarrow> string \<Rightarrow> sys \<Rightarrow> bool" where
  "leaf_ready E root host s \<longleftrightarrow> (\<exists>b. data_of (leaf_name host) s = Some b \<and> leaf_bundle_ok E host root b b)"

definition signer_ready :: "pki \<Rightarrow> certificate \<Rightarrow> sys \<Rightarrow> bool" where
  "signer_ready E root s \<longleftrightarrow>
     (\<exists>c k. data_of signer_cert_name s = Some c \<and> data_of signer_key_name s = Some k \<and> signer_ok E root c k)"

definition ready :: "pki \<Rightarrow> sys \<Rightarrow> bool" where
  "ready E s \<longleftrightarrow> (\<exists>root key. loaded_ca E s = Some (root, key) \<and> signer_ready E root s
     \<and> (\<forall>host \<in> set ca_hosts. leaf_ready E root host s))"

lemma of_syscall_None: "of_syscall r = (None, s) \<longleftrightarrow> r = (True, s)"
  by (cases r) (auto simp: of_syscall_def)

lemma os_ReadFile_steps: "os_ReadFile F (Named n) s = (r, s') \<Longrightarrow> data_of m s' = data_of m s"
  using os_data(1) [of m F "Named n" s] by simp

lemma atomicWrite_done: "atomicWrite F (Named n) d m s = (True, s') \<Longrightarrow> data_of k s' = (if k = n then Some d else data_of k s)"
  using write_data [of k F n d m s] by simp

lemma os_Chmod_step: "os_Chmod F p m s = (r, s') \<Longrightarrow> data_of k s' = data_of k s"
  using os_Chmod_data [of k F p m s] by simp

lemma leafValid_data:
  assumes "leafValid E F n host ca s = (v, s')"
  shows "data_of m s' = data_of m s"
    and "v \<Longrightarrow> \<exists>b. data_of n s = Some b \<and> leaf_bundle_ok E host ca b b"
proof -
  show "data_of m s' = data_of m s"
    using kept.leafValid_keeps [of m s "data_of m s" E F n host ca] assms by simp
  assume v
  then obtain c s1 k where r: "os_ReadFile F (Named n) s = (Some c, s1)" "os_ReadFile F (Named n) s1 = (Some k, s')"
    "leaf_bundle_ok E host ca c k"
    using assms by (auto simp: leafValid_def split: prod.splits option.splits)
  have "data_of n s = Some c" "data_of n s1 = Some k" using r os_ReadFile_data by blast+
  with os_ReadFile_steps [OF r(1), of n] r(3) show "\<exists>b. data_of n s = Some b \<and> leaf_bundle_ok E host ca b b" by simp
qed

lemma profileSignerValid_data:
  assumes "profileSignerValid E F ca s = (v, s')"
  shows "data_of m s' = data_of m s"
    and "v \<Longrightarrow> \<exists>c k. data_of signer_cert_name s = Some c \<and> data_of signer_key_name s = Some k \<and> signer_ok E ca c k"
proof -
  show "data_of m s' = data_of m s"
    using kept.signerValid_keeps [of m s "data_of m s" E F ca] assms by simp
  assume v
  then obtain c s1 k where r: "os_ReadFile F (Named signer_cert_name) s = (Some c, s1)"
    "os_ReadFile F (Named signer_key_name) s1 = (Some k, s')" "signer_ok E ca c k"
    using assms by (auto simp: profileSignerValid_def Let_def split: prod.splits option.splits)
  have "data_of signer_cert_name s = Some c" "data_of signer_key_name s1 = Some k" using r os_ReadFile_data by blast+
  with os_ReadFile_steps [OF r(1)] r(3)
  show "\<exists>c k. data_of signer_cert_name s = Some c \<and> data_of signer_key_name s = Some k \<and> signer_ok E ca c k" by simp
qed

section \<open>Each step leaves what it is for\<close>

lemma ensureLeaf_ready:
  assumes "pki_laws E" and "stands_for E ca key root" and "host \<in> set ca_hosts"
    and "ensureLeaf E F (leaf_name host) host ca key s = (None, s')"
  shows "leaf_ready E root host s'"
proof -
  obtain v t where v: "leafValid E F (leaf_name host) host ca s = (v, t)" by (metis surj_pair)
  show ?thesis
  proof (cases v)
    case True
    with assms(4) v have "os_Chmod F (Named (leaf_name host)) mode_0640 t = (True, s')"
      by (simp add: ensureLeaf_def of_syscall_None)
    with leafValid_data [OF v] True os_Chmod_step show ?thesis
      using valid_for_root(1) [OF assms(1,2)] by (fastforce simp: leaf_ready_def)
  next
    case False
    with assms(4) v obtain k serial der kb where
      "create_cert E (leaf_template E host serial ca) ca (public_of E k) key = Some der" "marshal_key E k = Some kb"
      "atomicWrite F (Named (leaf_name host)) (pem_pair E der kb) mode_0640 t = (True, s')"
      by (auto simp: ensureLeaf_def of_syscall_None pem_pair_def split: option.splits)
    then show ?thesis using leaf_issued [OF assms(1-3)] atomicWrite_done by (auto simp: leaf_ready_def)
  qed
qed

lemma leaf_name_inj: "leaf_name a = leaf_name b \<longleftrightarrow> a = b"
  by (simp add: leaf_name_def)

lemma ensureLeaf_others:
  "h \<in> set ca_hosts \<Longrightarrow> n \<noteq> leaf_name h \<Longrightarrow> data_of n (snd (ensureLeaf E F (leaf_name h) h ca key s)) = data_of n s"
  by (rule kept.ensureLeaf_keeps) auto

lemma leaf_ready_later:
  assumes "pki_laws E" and "stands_for E ca key root" and "h \<in> set ca_hosts"
    and "ensureLeaf E F (leaf_name h) h ca key s = (None, s')" and "leaf_ready E root host s"
  shows "leaf_ready E root host s'"
proof (cases "host = h")
  case True
  with ensureLeaf_ready [OF assms(1-4)] show ?thesis by simp
next
  case False
  then have "data_of (leaf_name host) s' = data_of (leaf_name host) s"
    using ensureLeaf_others [OF assms(3), of "leaf_name host" E F ca key s] assms(4) by (simp add: leaf_name_inj)
  with assms(5) show ?thesis by (simp add: leaf_ready_def)
qed

lemma ensure_leaves_ready:
  assumes "pki_laws E" and "stands_for E ca key root" and "set hosts \<subseteq> set ca_hosts"
    and "ensure_leaves E F ca key hosts s = (None, s')"
  shows "\<forall>host \<in> set hosts. leaf_ready E root host s'"
    and "leaf_ready E root host s \<Longrightarrow> leaf_ready E root host s'"
proof -
  have "(\<forall>host \<in> set hosts. leaf_ready E root host s') \<and> (\<forall>host. leaf_ready E root host s \<longrightarrow> leaf_ready E root host s')"
    using assms(3,4)
  proof (induction hosts arbitrary: s)
    case (Cons h hosts)
    then obtain t where t: "ensureLeaf E F (leaf_name h) h ca key s = (None, t)" "ensure_leaves E F ca key hosts t = (None, s')"
      by (auto simp: unless_failed_None)
    have "leaf_ready E root h t" using ensureLeaf_ready [OF assms(1,2) _ t(1)] Cons.prems(1) by simp
    moreover have "leaf_ready E root host s \<Longrightarrow> leaf_ready E root host t" for host
      using leaf_ready_later [OF assms(1,2) _ t(1)] Cons.prems(1) by simp
    ultimately show ?case using Cons.IH [OF _ t(2)] Cons.prems(1) by simp
  qed simp
  then show "\<forall>host \<in> set hosts. leaf_ready E root host s'" "leaf_ready E root host s \<Longrightarrow> leaf_ready E root host s'"
    by blast+
qed

lemma signer_names: "signer_cert_name \<noteq> signer_key_name"
  by (simp add: signer_cert_name_def signer_key_name_def)

lemma ensureProfileSigner_ready:
  assumes "pki_laws E" and "stands_for E ca key root" and "ensureProfileSigner E F ca key s = (None, s')"
  shows "signer_ready E root s'"
proof -
  obtain v t where v: "profileSignerValid E F ca s = (v, t)" by (metis surj_pair)
  show ?thesis
  proof (cases v)
    case True
    with assms(3) v have "s' = t" by (simp add: ensureProfileSigner_def)
    with profileSignerValid_data [OF v] True show ?thesis
      using valid_for_root(2) [OF assms(1,2)] by (fastforce simp: signer_ready_def)
  next
    case False
    with assms(3) v obtain k serial der kb u where
      i: "create_cert E (signer_template E serial ca) ca (public_of E k) key = Some der" "marshal_key E k = Some kb"
      and w: "atomicWrite F (Named signer_cert_name) (pem_encode E ''CERTIFICATE'' der) mode_0640 t = (True, u)"
        "atomicWrite F (Named signer_key_name) (pem_encode E ''EC PRIVATE KEY'' kb) mode_0600 u = (True, s')"
      by (auto simp: ensureProfileSigner_def of_syscall_None split: option.splits prod.splits bool.splits)
    show ?thesis
      using signer_issued [OF assms(1,2) i] atomicWrite_done [OF w(1)] atomicWrite_done [OF w(2)] signer_names
      by (auto simp: signer_ready_def)
  qed
qed

section \<open>The CA of a run is the one in the directory\<close>

lemma usable_can_sign: "usable_ca E c \<longleftrightarrow> can_sign c \<and> NotBefore c \<le> clock_now E \<and> clock_now E \<le> NotAfter c \<and> signed_by E c c"
  by (auto simp: usable_ca_def can_sign_def)

lemma parse_ca_Inr:
  assumes "parse_ca E c k = Inr (ca, key)"
  shows "pem_decode E c \<noteq> None" "parse_cert E (the (pem_decode E c)) = Some ca" "usable_ca E ca"
    and "marshal_pub E (PublicKey ca) = marshal_pub E (Some (public_of E key))" "marshal_pub E (PublicKey ca) \<noteq> None"
  using assms by (auto simp: parse_ca_def split: option.splits if_splits)

lemma loaded_stands_for:
  assumes "pki_laws E" and "parse_ca E c k = Inr (ca, key)" and "clock_now E < NotAfter ca"
  shows "stands_for E ca key ca"
proof -
  note p = parse_ca_Inr [OF assms(2)]
  obtain x where "marshal_pub E (PublicKey ca) = Some x" "marshal_pub E (Some (public_of E key)) = Some x"
    using p(4,5) by auto
  then have "PublicKey ca = Some (public_of E key)" by (rule pub_inj [OF assms(1)])
  with p(3) assms(3) parsed_law(2) [OF assms(1) p(2)] show ?thesis
    by (simp add: stands_for_def usable_can_sign whole_second_bounds(3))
qed

lemma ca_bits: "((KeyUsageCertSign OR KeyUsageCRLSign) AND KeyUsageCertSign) \<noteq> 0"
  by (simp add: KeyUsageCertSign_def KeyUsageCRLSign_def)

lemma new_ca:
  assumes "pki_laws E" and "create_cert E (ca_template E serial) (ca_template E serial) (public_of E k) k = Some der"
    and "marshal_key E k = Some kb"
  obtains root where "parse_ca E (pem_encode E ''CERTIFICATE'' der) (pem_encode E ''EC PRIVATE KEY'' kb) = Inr (root, k)"
    and "stands_for E (ca_template E serial) k root"
proof -
  obtain c where c: "parse_cert E der = Some c" "issued E (ca_template E serial) (public_of E k) k c"
    using issue_law [OF assms(1,2)] by blast
  have f: "PublicKey c = Some (public_of E k)" "can_sign c"
    "NotBefore c = whole_second (clock_now E - minute)" "NotAfter c = whole_second (AddDate E (clock_now E) 10)"
    using c(2) ca_bits by (auto simp: issued_def ca_template_def template_def can_sign_def)
  have later: "clock_now E < whole_second (AddDate E (clock_now E) 10)"
    using year_law [OF assms(1), of 10] whole_second_bounds(2) [of "AddDate E (clock_now E) 10"] by simp
  have "usable_ca E c"
    using f c(2) later whole_second_bounds(1) [of "clock_now E - minute"]
    by (auto simp: usable_can_sign issued_def minute_def)
  then have "parse_ca E (pem_encode E ''CERTIFICATE'' der) (pem_encode E ''EC PRIVATE KEY'' kb) = Inr (c, k)"
    using c(1) key_law [OF assms(1,3)] f(1) pub_law [OF assms(1), of "public_of E k"]
    by (auto simp: parse_ca_def pem_law [OF assms(1)])
  moreover have "stands_for E (ca_template E serial) k c"
    using f(1,2) later by (simp add: stands_for_def ca_template_def template_def)
  ultimately show ?thesis by (rule that)
qed

lemma loadCA_loaded: "loadCA E F s = (Inr r, s') \<Longrightarrow> loaded_ca E s' = Some r \<and> loaded_ca E s = Some r"
  using loadCA_Inr [of E F s r s'] loadCA_data [of _ E F s] by (auto simp: loaded_ca_def)

lemma obtainCA_ready:
  assumes "pki_laws E" and "obtainCA E F s = (Inr (ca, key), s')"
    and edge: "\<And>root k. loaded_ca E s = Some (root, k) \<Longrightarrow> clock_now E < NotAfter root"
  obtains root where "loaded_ca E s' = Some (root, key)" and "stands_for E ca key root"
proof -
  obtain x t where l: "loadCA E F s = (x, t)" by (metis surj_pair)
  show ?thesis
  proof (cases x)
    case (Inr r)
    with assms(2) l have r: "r = (ca, key)" "s' = t" by (auto simp: obtainCA_def)
    then have "loaded_ca E s' = Some (ca, key)" "loaded_ca E s = Some (ca, key)" using loadCA_loaded l Inr by blast+
    moreover from this(2) obtain c k where "parse_ca E c k = Inr (ca, key)"
      by (auto simp: loaded_ca_def split: option.splits sum.splits)
    ultimately show ?thesis using that loaded_stands_for [OF assms(1)] edge by blast
  next
    case (Inl e)
    with assms(2) l have m: "makeCA E F t = (Inr (ca, key), s')" by (auto simp: obtainCA_def split: if_splits)
    then obtain der u where ca: "ca = ca_template E (gen_serial E (calls_made t))" "gen_key E (calls_made t) = Some key"
      "create_cert E ca ca (public_of E key) key = Some der"
      "atomicWrite F (Named ''ca-cert.pem'') (pem_encode E ''CERTIFICATE'' der) mode_0640 t = (True, u)"
      "atomicWrite F (Named ''ca-key.pem'') (pem_encode E ''EC PRIVATE KEY''
        (case marshal_key E key of None \<Rightarrow> [] | Some b \<Rightarrow> b)) mode_0600 u = (True, s')"
      by (auto simp: makeCA_def Let_def split: option.splits prod.splits bool.splits)
    obtain kb where kb: "marshal_key E key = Some kb" using marshal_law [OF assms(1) ca(2)] by auto
    obtain root where root: "parse_ca E (pem_encode E ''CERTIFICATE'' der) (pem_encode E ''EC PRIVATE KEY'' kb) = Inr (root, key)"
      "stands_for E ca key root"
      using new_ca [OF assms(1) _ kb] ca(1,3) by metis
    have "loaded_ca E s' = Some (root, key)"
      using atomicWrite_done [OF ca(4)] atomicWrite_done [OF ca(5)] root(1) by (simp add: loaded_ca_def kb)
    with root(2) show ?thesis by (rule that [rotated])
  qed
qed

section \<open>A run that succeeds\<close>

lemma signer_ready_data:
  "(\<And>n. n \<in> {signer_cert_name, signer_key_name} \<Longrightarrow> data_of n s' = data_of n s) \<Longrightarrow> signer_ready E root s' = signer_ready E root s"
  by (simp add: signer_ready_def)

lemma loaded_ca_data:
  "(\<And>n. n \<in> set ca_names \<Longrightarrow> data_of n s' = data_of n s) \<Longrightarrow> loaded_ca E s' = loaded_ca E s"
  by (simp add: loaded_ca_def ca_names_def)

lemma signer_apart: "n \<in> {signer_cert_name, signer_key_name} \<Longrightarrow>
    n \<noteq> ''ca.mobileconfig'' \<and> n \<notin> leaf_name ` set ca_hosts"
  by (auto simp: signer_cert_name_def signer_key_name_def ca_hosts_def leaf_name_def)

lemma install_ready:
  assumes "pki_laws E" and "loaded_ca E s = Some (root, key)" and "stands_for E ca key root"
    and "install E F ca key s = (None, s')"
  shows "ready E s'"
proof -
  obtain s1 s2 s3 s4 where r: "chmod_step F ''ca-key.pem'' mode_0600 s = (None, s1)"
    "ensureProfileSigner E F ca key s1 = (None, s2)" "write_profile E F ca s2 = (None, s3)"
    "ensure_leaves E F ca key ca_hosts s3 = (None, s4)" "final_modes F s4 = (None, s')"
    using assms(4) by (auto simp: install_def unless_failed_None)
  have modes: "data_of n s' = data_of n s4" for n using kept.modes_keep [of n s4 _ F] r(5) by simp
  have "signer_ready E root s2" by (rule ensureProfileSigner_ready [OF assms(1,3) r(2)])
  moreover have "data_of n s' = data_of n s2" if "n \<in> {signer_cert_name, signer_key_name}" for n
    using kept.profile_keeps [of n s2 _ E F ca] kept.leaves_keep [of n s3 _ ca_hosts E F ca key] signer_apart [OF that] modes
      r(3,4) by auto
  ultimately have "signer_ready E root s'" using signer_ready_data by metis
  moreover have "leaf_ready E root host s'" if "host \<in> set ca_hosts" for host
    using ensure_leaves_ready(1) [OF assms(1,3) _ r(4)] that modes by (simp add: leaf_ready_def)
  moreover have "loaded_ca E s' = Some (root, key)"
  proof -
    have "data_of ''ca-cert.pem'' s' = data_of ''ca-cert.pem'' s \<and> data_of ''ca-key.pem'' s' = data_of ''ca-key.pem'' s"
      using ca_kept.install_keeps [of s "data_of ''ca-cert.pem'' s" "data_of ''ca-key.pem'' s" E F ca key]
        install_names_apart assms(4) by simp
    then show ?thesis using assms(2) by (simp add: loaded_ca_def)
  qed
  ultimately show ?thesis by (auto simp: ready_def)
qed

lemma run_start_loaded: "loaded_ca E (snd (run_start F s)) = loaded_ca E s"
  by (rule loaded_ca_data) (simp add: run_start_data)

lemma ca_run_None:
  "ca_run E F s = (None, s') \<longleftrightarrow> (\<exists>t ca key u. run_start F s = (None, t) \<and> obtainCA E F t = (Inr (ca, key), u)
     \<and> install E F ca key u = (None, s'))"
proof -
  have "(case x of (Inl e, s) \<Rightarrow> (Some e, s) | (Inr (ca, k), s) \<Rightarrow> install E F ca k s) = (None, s')
    \<longleftrightarrow> (\<exists>ca k u. x = (Inr (ca, k), u) \<and> install E F ca k u = (None, s'))" for x
    by (cases x; cases "fst x") (auto split: prod.splits)
  then show ?thesis by (auto simp: ca_run_start unless_failed_None)
qed

lemma run_establishes_ready:
  assumes "pki_laws E" and "\<And>root k. loaded_ca E s = Some (root, k) \<Longrightarrow> clock_now E < NotAfter root"
    and "ca_run E F s = (None, s')"
  shows "ready E s'"
proof -
  obtain t ca key u where r: "run_start F s = (None, t)" "obtainCA E F t = (Inr (ca, key), u)" "install E F ca key u = (None, s')"
    using assms(3) by (auto simp: ca_run_None)
  have "loaded_ca E t = loaded_ca E s" using run_start_loaded [of E F s] r(1) by simp
  then obtain root where "loaded_ca E u = Some (root, key)" "stands_for E ca key root"
    using obtainCA_ready [OF assms(1) r(2)] assms(2) by metis
  with r(3) show ?thesis using install_ready [OF assms(1)] by blast
qed

text \<open>C15: a run that succeeds leaves all the gateway needs. However the directory looked, when \<open>locspoof-ca\<close>
  reports success, the directory holds a CA certificate with its key that loads again, a profile signer
  issued by it with its own key, and for every host of the allowlist a leaf certificate that is valid now,
  for that host, for TLS servers, and signed by that CA.\<close>

theorem successful_run_is_ready:
  assumes "pki_laws E" and "case loaded_ca E s of Some (root, key) \<Rightarrow> clock_now E < NotAfter root | None \<Rightarrow> True"
    and "ca_run E F s = (None, s')"
  shows "\<exists>root key c k. loaded_ca E s' = Some (root, key) \<and> usable_ca E root
    \<and> data_of ''profile-signing-cert.pem'' s' = Some c \<and> data_of ''profile-signing-key.pem'' s' = Some k \<and> signer_ok E root c k
    \<and> (\<forall>host \<in> set ca_hosts. \<exists>b. data_of (host @ ''.pem'') s' = Some b \<and> leaf_bundle_ok E host root b b)"
proof -
  have "ready E s'" by (rule run_establishes_ready [OF assms(1) _ assms(3)]) (use assms(2) in simp)
  then obtain root key where r: "loaded_ca E s' = Some (root, key)" "signer_ready E root s'"
    "\<forall>host \<in> set ca_hosts. leaf_ready E root host s'"
    by (auto simp: ready_def)
  moreover from r(1) have "usable_ca E root"
    by (auto simp: loaded_ca_def split: option.splits sum.splits dest: parse_ca_Inr(3))
  ultimately show ?thesis
    by (auto simp: signer_ready_def leaf_ready_def leaf_name_def signer_cert_name_def signer_key_name_def)
qed

section \<open>The profile of a run\<close>

lemma install_profile:
  assumes "install E F ca key s = (None, s')"
  shows "\<exists>doc. data_of ''ca.mobileconfig'' s' = Some doc \<and> doc \<noteq> []
    \<and> openssl E (go_bytes (EnrollmentMobileConfig E ca)) (data_of signer_cert_name s') (data_of signer_key_name s') = Some doc"
proof -
  obtain s1 s2 s3 s4 where r: "chmod_step F ''ca-key.pem'' mode_0600 s = (None, s1)"
    "ensureProfileSigner E F ca key s1 = (None, s2)" "write_profile E F ca s2 = (None, s3)"
    "ensure_leaves E F ca key ca_hosts s3 = (None, s4)" "final_modes F s4 = (None, s')"
    using assms by (auto simp: install_def unless_failed_None)
  have later: "data_of n s' = data_of n s3" if "n \<notin> leaf_name ` set ca_hosts" for n
    using kept.modes_keep [of n s4 _ F] kept.leaves_keep [of n s3 _ ca_hosts E F ca key] that r(4,5) by auto
  have apart: "''ca.mobileconfig'' \<notin> leaf_name ` set ca_hosts" by (auto simp: leaf_name_def ca_hosts_def)
  obtain doc where d: "openssl E (go_bytes (EnrollmentMobileConfig E ca)) (data_of signer_cert_name s2) (data_of signer_key_name s2) = Some doc"
    "doc \<noteq> []" "atomicWrite F (Named ''ca.mobileconfig'') doc mode_0640 s2 = (True, s3)"
    using r(3) by (auto simp: write_profile_def signCMSWithOpenSSL_def of_syscall_None split: sum.splits option.splits if_splits)
  have "data_of n s' = data_of n s2" if "n \<in> {signer_cert_name, signer_key_name}" for n
    using later [of n] signer_apart [OF that] atomicWrite_done [OF d(3), of n] by auto
  with d(1,2) later [OF apart] atomicWrite_done [OF d(3), of "''ca.mobileconfig''"] show ?thesis by auto
qed

lemma obtainCA_which:
  assumes "obtainCA E F s = (Inr (ca, key), s')"
  shows "case loaded_ca E s of Some r \<Rightarrow> r = (ca, key) | None \<Rightarrow> Raw ca = []"
proof -
  obtain x t where l: "loadCA E F s = (x, t)" by (metis surj_pair)
  show ?thesis
  proof (cases x)
    case (Inr r)
    with assms l have "r = (ca, key)" by (auto simp: obtainCA_def)
    with loadCA_loaded [of E F s r t] l Inr show ?thesis by simp
  next
    case (Inl e)
    with assms l have m: "makeCA E F t = (Inr (ca, key), s')" "\<not> fileExists (Named ''ca-cert.pem'') t"
      by (auto simp: obtainCA_def split: if_splits)
    from m(2) have "loaded_ca E s = None"
      using loadCA_data [of "''ca-cert.pem''" E F s] l by (simp add: fileExists_data loaded_ca_def)
    moreover have "Raw ca = []"
      using m(1) by (auto simp: makeCA_def Let_def ca_template_def template_def split: option.splits prod.splits bool.splits)
    ultimately show ?thesis by simp
  qed
qed

text \<open>C28: the configuration profile of a first run carries no certificate. After every run that succeeds the
  directory holds the signature of a profile; where the CA was loaded, the profile's payload is its
  certificate, but where the run has just made the CA, the payload is empty, because the template, which has
  no encoded form, is put into the profile instead of the certificate.\<close>

theorem profile_of_run:
  assumes "ca_run E F s = (None, s')"
  shows "\<exists>text doc. data_of ''ca.mobileconfig'' s' = Some doc \<and> doc \<noteq> []
    \<and> openssl E (go_bytes text) (data_of ''profile-signing-cert.pem'' s') (data_of ''profile-signing-key.pem'' s') = Some doc
    \<and> profile_payload text = (case loaded_ca E s of Some (root, key) \<Rightarrow> Some (Raw root) | None \<Rightarrow> Some [])"
proof -
  obtain t ca key u where r: "run_start F s = (None, t)" "obtainCA E F t = (Inr (ca, key), u)" "install E F ca key u = (None, s')"
    using assms by (auto simp: ca_run_None)
  have l: "loaded_ca E t = loaded_ca E s" using run_start_loaded [of E F s] r(1) by simp
  have "profile_payload (EnrollmentMobileConfig E ca) = Some (Raw ca)" by (rule payload_of_profile)
  with obtainCA_which [OF r(2)] install_profile [OF r(3)] show ?thesis
    unfolding l by (intro exI [of _ "EnrollmentMobileConfig E ca"])
      (auto simp: signer_cert_name_def signer_key_name_def split: option.splits)
qed

end
