(* ===== verification/Pki_Runs.thy ===== *)
theory Pki_Runs
  imports Pki_Ready
begin

text \<open>
  Runs of \<open>locspoof-ca\<close> in which every system call works: another run replaces nothing but the profile, and a first
  run on an empty directory succeeds; a concrete instance of the cryptography, and the runs it gives.
\<close>

section \<open>Another run\<close>

definition no_faults :: "faults \<Rightarrow> bool" where
  "no_faults F \<longleftrightarrow> (\<forall>k. works F k)"

lemma read_works:
  "no_faults F \<Longrightarrow> data_of n s = Some b \<Longrightarrow> \<exists>s'. os_ReadFile F (Named n) s = (Some b, s') \<and> (\<forall>m. data_of m s' = data_of m s)"
  by (auto simp: no_faults_def os_ReadFile_def syscall_def data_of_def)

lemma loadCA_works: "no_faults F \<Longrightarrow> loaded_ca E s = Some r \<Longrightarrow> \<exists>s'. loadCA E F s = (Inr r, s')"
proof -
  assume f: "no_faults F" and "loaded_ca E s = Some r"
  then obtain c k where d: "data_of ''ca-cert.pem'' s = Some c" "data_of ''ca-key.pem'' s = Some k" "parse_ca E c k = Inr r"
    by (auto simp: loaded_ca_def split: option.splits sum.splits)
  obtain s1 where s1: "os_ReadFile F (Named ''ca-cert.pem'') s = (Some c, s1)" "\<forall>m. data_of m s1 = data_of m s"
    using read_works [OF f d(1)] by blast
  then obtain s2 where "os_ReadFile F (Named ''ca-key.pem'') s1 = (Some k, s2)"
    using read_works [OF f, of "''ca-key.pem''" s1 k] d(2) by auto
  with s1 d(3) show ?thesis by (auto simp: loadCA_def)
qed

lemma leafValid_works: "no_faults F \<Longrightarrow> leaf_ready E ca host s \<Longrightarrow> fst (leafValid E F (leaf_name host) host ca s)"
proof -
  assume f: "no_faults F" and "leaf_ready E ca host s"
  then obtain b where b: "data_of (leaf_name host) s = Some b" "leaf_bundle_ok E host ca b b" by (auto simp: leaf_ready_def)
  obtain s1 where s1: "os_ReadFile F (Named (leaf_name host)) s = (Some b, s1)" "\<forall>m. data_of m s1 = data_of m s"
    using read_works [OF f b(1)] by blast
  then obtain s2 where "os_ReadFile F (Named (leaf_name host)) s1 = (Some b, s2)"
    using read_works [OF f, of "leaf_name host" s1 b] b(1) by auto
  with s1 b(2) show ?thesis by (simp add: leafValid_def)
qed

lemma signerValid_works: "no_faults F \<Longrightarrow> signer_ready E ca s \<Longrightarrow> fst (profileSignerValid E F ca s)"
proof -
  assume f: "no_faults F" and "signer_ready E ca s"
  then obtain c k where d: "data_of signer_cert_name s = Some c" "data_of signer_key_name s = Some k" "signer_ok E ca c k"
    by (auto simp: signer_ready_def)
  obtain s1 where s1: "os_ReadFile F (Named signer_cert_name) s = (Some c, s1)" "\<forall>m. data_of m s1 = data_of m s"
    using read_works [OF f d(1)] by blast
  then obtain s2 where "os_ReadFile F (Named signer_key_name) s1 = (Some k, s2)"
    using read_works [OF f, of signer_key_name s1 k] d(2) by auto
  with s1 d(3) show ?thesis by (simp add: profileSignerValid_def Let_def)
qed

text \<open>What is not written: \<open>same_but\<close> the profile.\<close>

definition same_but :: "string set \<Rightarrow> sys \<Rightarrow> sys \<Rightarrow> bool" where
  "same_but W s s' \<longleftrightarrow> (\<forall>n. n \<notin> W \<longrightarrow> data_of n s' = data_of n s)"

lemma same_but_trans: "same_but W s t \<Longrightarrow> same_but W t u \<Longrightarrow> same_but W s u"
  by (simp add: same_but_def)

lemma ensureLeaf_again:
  assumes "no_faults F" and "leaf_ready E ca host s"
  shows "same_but {} s (snd (ensureLeaf E F (leaf_name host) host ca key s))"
proof -
  obtain t where t: "leafValid E F (leaf_name host) host ca s = (True, t)"
    using leafValid_works [OF assms] by (metis prod.collapse)
  show ?thesis
    using leafValid_data(1) [OF t] by (simp add: ensureLeaf_def t same_but_def of_syscall_def)
qed

lemma leaves_again:
  "no_faults F \<Longrightarrow> \<forall>host \<in> set hosts. leaf_ready E ca host s \<Longrightarrow> same_but {} s (snd (ensure_leaves E F ca key hosts s))"
proof (induction hosts arbitrary: s)
  case (Cons h hosts)
  obtain r t where t: "ensureLeaf E F (leaf_name h) h ca key s = (r, t)" by (metis surj_pair)
  have st: "same_but {} s t" using ensureLeaf_again [OF Cons.prems(1), of E ca h s key] Cons.prems(2) t by simp
  then have "leaf_ready E ca host t = leaf_ready E ca host s" for host by (simp add: same_but_def leaf_ready_def)
  then have "same_but {} t (snd (ensure_leaves E F ca key hosts t))" using Cons by simp
  with st t show ?case
    by (cases r) (auto simp: unless_failed_def intro: same_but_trans)
qed (simp add: same_but_def)

lemma sequence_same: "same_but W s (snd r) \<Longrightarrow> (\<And>t. r = (None, t) \<Longrightarrow> same_but W t (snd (k t))) \<Longrightarrow>
    same_but W s (snd (unless_failed r k))"
  by (cases r) (auto simp: unless_failed_def intro: same_but_trans split: option.splits)

lemma same_but_mono: "same_but V s t \<Longrightarrow> V \<subseteq> W \<Longrightarrow> same_but W s t"
  by (auto simp: same_but_def)

lemma chmod_same: "same_but W s (snd (chmod_step F n m s))"
  by (simp add: same_but_def chmod_step_def of_syscall_def)

lemma ready_data:
  assumes "same_but {''ca.mobileconfig''} s t"
  shows "signer_ready E ca t = signer_ready E ca s" and "host \<in> set ca_hosts \<Longrightarrow> leaf_ready E ca host t = leaf_ready E ca host s"
proof -
  show "signer_ready E ca t = signer_ready E ca s"
    by (rule signer_ready_data) (use assms signer_apart in \<open>auto simp: same_but_def\<close>)
  assume "host \<in> set ca_hosts"
  then have "leaf_name host \<noteq> ''ca.mobileconfig''" by (auto simp: leaf_name_def ca_hosts_def)
  with assms show "leaf_ready E ca host t = leaf_ready E ca host s" by (simp add: same_but_def leaf_ready_def)
qed

lemma install_again:
  assumes "no_faults F" and "signer_ready E ca s" and "\<forall>host \<in> set ca_hosts. leaf_ready E ca host s"
  shows "same_but {''ca.mobileconfig''} s (snd (install E F ca key s))"
  unfolding install_def
proof (intro sequence_same chmod_same)
  let ?W = "{''ca.mobileconfig''}"
  fix t assume "chmod_step F ''ca-key.pem'' mode_0600 s = (None, t)"
  then have st: "same_but ?W s t" using chmod_same [of ?W s F "''ca-key.pem''" mode_0600] by simp
  obtain u where u: "profileSignerValid E F ca t = (True, u)"
    using signerValid_works [OF assms(1), of E ca t] ready_data(1) [OF st] assms(2) by (metis prod.collapse)
  then show "same_but ?W t (snd (ensureProfileSigner E F ca key t))"
    using profileSignerValid_data(1) [OF u] by (simp add: ensureProfileSigner_def same_but_def)
  fix v assume "ensureProfileSigner E F ca key t = (None, v)"
  then have tv: "same_but ?W s v" using u profileSignerValid_data(1) [OF u] st by (simp add: ensureProfileSigner_def same_but_def)
  show w: "same_but ?W v (snd (write_profile E F ca v))"
    using kept.profile_keeps [of _ v _ E F ca] by (auto simp: same_but_def)
  fix x assume "write_profile E F ca v = (None, x)"
  with w tv have vx: "same_but ?W s x" by (auto intro: same_but_trans)
  then have "\<forall>host \<in> set ca_hosts. leaf_ready E ca host x" using assms(3) ready_data(2) by blast
  then show "same_but ?W x (snd (ensure_leaves E F ca key ca_hosts x))"
    using leaves_again [OF assms(1)] same_but_mono by blast
  fix y show "same_but ?W y (snd (final_modes F y))"
    using kept.modes_keep [of _ y _ F] by (simp add: same_but_def)
qed

lemma run_again:
  assumes "no_faults F" and "ready E s"
  shows "same_but {''ca.mobileconfig''} s (snd (ca_run E F s))"
  unfolding ca_run_start
proof (rule sequence_same)
  show "same_but {''ca.mobileconfig''} s (snd (run_start F s))" by (simp add: same_but_def run_start_data)
  fix t assume "run_start F s = (None, t)"
  then have d: "data_of n t = data_of n s" for n using run_start_data(1) [of n F s] by simp
  obtain root key where r: "loaded_ca E s = Some (root, key)" "signer_ready E root s"
    "\<forall>host \<in> set ca_hosts. leaf_ready E root host s" using assms(2) by (auto simp: ready_def)
  have "loaded_ca E t = Some (root, key)" using r(1) d by (simp add: loaded_ca_def)
  then obtain u where u: "loadCA E F t = (Inr (root, key), u)" using loadCA_works [OF assms(1)] by blast
  have du: "data_of n u = data_of n s" for n using loadCA_data [of n E F t] u d by simp
  have "same_but {''ca.mobileconfig''} u (snd (install E F root key u))"
    by (rule install_again [OF assms(1)]) (use r(2,3) du in \<open>auto simp: signer_ready_def leaf_ready_def\<close>)
  then show "same_but {''ca.mobileconfig''} t (snd (case obtainCA E F t of (Inl e, s) \<Rightarrow> (Some e, s)
      | (Inr (ca, caKey), s) \<Rightarrow> install E F ca caKey s))"
    by (simp add: obtainCA_def u same_but_def d du)
qed

text \<open>provisioning is stable. After a run that succeeded, running \<open>locspoof-ca\<close> again at the same time, with no
  failing system call, leaves every file but the signed profile exactly as it is: neither the CA, nor the
  profile signer, nor any leaf certificate is rotated.\<close>

theorem repeated_run_rotates_nothing:
  assumes "pki_laws E" and "case loaded_ca E s of Some (root, key) \<Rightarrow> clock_now E < NotAfter root | None \<Rightarrow> True"
    and "ca_run E F s = (None, s')" and "no_faults F'" and "n \<noteq> ''ca.mobileconfig''"
  shows "data_of n (snd (ca_run E F' s')) = data_of n s'"
proof -
  have "ready E s'" by (rule run_establishes_ready [OF assms(1) _ assms(3)]) (use assms(2) in simp)
  from run_again [OF assms(4) this] assms(5) show ?thesis by (simp add: same_but_def)
qed

section \<open>A first run\<close>

text \<open>The directory exists and no temporary file has a name that is still to come.\<close>

definition sound :: "sys \<Rightarrow> bool" where
  "sound s \<longleftrightarrow> dir_mode s \<noteq> None \<and> (\<forall>j \<ge> calls_made s. entries s (Temp j) = None)"

lemma sound_step: "sound s \<Longrightarrow> dir_mode s' \<noteq> None \<Longrightarrow> calls_made s \<le> calls_made s' \<Longrightarrow>
    (\<And>j. calls_made s' \<le> j \<Longrightarrow> entries s' (Temp j) = entries s (Temp j)) \<Longrightarrow> sound s'"
  by (auto simp: sound_def)

lemma read_sound: "sound s \<Longrightarrow> sound (snd (os_ReadFile F p s))"
  by (auto simp: os_defs sound_def Let_def split: option.splits)

lemma chmod_works:
  "no_faults F \<Longrightarrow> sound s \<Longrightarrow> data_of n s \<noteq> None \<Longrightarrow> \<exists>s'. chmod_step F n m s = (None, s') \<and> sound s' \<and> (\<forall>k. data_of k s' = data_of k s)"
  by (auto simp: no_faults_def chmod_step_def of_syscall_def os_Chmod_def syscall_def data_of_def sound_def)

lemma fill_works:
  assumes "no_faults F" and "entries s t \<noteq> None"
  shows "\<exists>s'. fill_temp F t d m s = (True, s') \<and> entries s' t \<noteq> None \<and> dir_mode s' = dir_mode s
    \<and> calls_made s \<le> calls_made s' \<and> (\<forall>p. p \<noteq> t \<longrightarrow> entries s' p = entries s p)"
  using assms by (auto simp: no_faults_def fill_temp_def os_defs Let_def)

lemma write_works:
  assumes "no_faults F" and "sound s"
  shows "\<exists>s'. atomicWrite F (Named n) d m s = (True, s') \<and> sound s'"
proof -
  let ?t = "Temp (calls_made s)"
  let ?s1 = "(set_entry ?t (Some \<lparr>f_data = [], f_mode = mode_0600\<rparr>) s)\<lparr>calls_made := Suc (calls_made s)\<rparr>"
  have c: "os_CreateTemp F s = (Some ?t, ?s1)"
    using assms by (auto simp: os_CreateTemp_def syscall_def no_faults_def sound_def Let_def)
  obtain s2 where f: "fill_temp F ?t d m ?s1 = (True, s2)" "entries s2 ?t \<noteq> None" "dir_mode s2 = dir_mode s"
    "calls_made ?s1 \<le> calls_made s2" "\<forall>p. p \<noteq> ?t \<longrightarrow> entries s2 p = entries ?s1 p"
    using fill_works [OF assms(1), of ?s1 ?t d m] by auto
  obtain s3 where r: "os_Rename F ?t (Named n) s2 = (True, s3)" "dir_mode s3 = dir_mode s2"
    "calls_made s2 \<le> calls_made s3" "\<forall>j. entries s3 (Temp j) = (if Temp j = ?t then None else entries s2 (Temp j))"
    using f(2) assms(1) by (auto simp: os_Rename_def syscall_def no_faults_def)
  have "sound (snd (os_Remove F ?t (sync_dir F s3)))"
    using assms f(3,4,5) r(2,3,4)
    by (intro sound_step [OF assms(2)]) (auto simp: no_faults_def sync_dir_def os_defs Let_def sound_def split: option.splits)
  then show ?thesis using c f(1) r(1) by (simp add: atomicWrite_def)
qed

text \<open>The certificates a run on an empty directory issues can be issued, and the signing command works.\<close>

definition run_templates :: "pki \<Rightarrow> certificate \<Rightarrow> nat \<Rightarrow> certificate set" where
  "run_templates E ca serial = insert (signer_template E serial ca) ((\<lambda>host. leaf_template E host serial ca) ` set ca_hosts)"

definition issues_all :: "pki \<Rightarrow> bool" where
  "issues_all E \<longleftrightarrow> (\<forall>j. gen_key E j \<noteq> None \<and> gen_serial E j \<noteq> None)
     \<and> (\<forall>j l key. gen_key E j = Some key \<longrightarrow>
          create_cert E (ca_template E (gen_serial E l)) (ca_template E (gen_serial E l)) (public_of E key) key \<noteq> None)
     \<and> (\<forall>i j l m k key serial. gen_key E i = Some k \<and> gen_key E j = Some key \<and> gen_serial E m = Some serial \<longrightarrow>
          (\<forall>tmpl \<in> run_templates E (ca_template E (gen_serial E l)) serial.
             create_cert E tmpl (ca_template E (gen_serial E l)) (public_of E k) key \<noteq> None))
     \<and> (\<forall>p c k. openssl E p (Some c) (Some k) \<noteq> None \<and> openssl E p (Some c) (Some k) \<noteq> Some [])"

lemma issues_all_D:
  assumes "issues_all E"
  shows issues_rand: "\<exists>k. gen_key E j = Some k" "\<exists>n. gen_serial E j = Some n"
    and issues_ca: "gen_key E j = Some key \<Longrightarrow>
      \<exists>der. create_cert E (ca_template E (gen_serial E l)) (ca_template E (gen_serial E l)) (public_of E key) key = Some der"
    and issues_cert: "gen_key E i = Some k \<Longrightarrow> gen_key E j = Some key \<Longrightarrow> gen_serial E m = Some serial \<Longrightarrow>
      tmpl \<in> run_templates E (ca_template E (gen_serial E l)) serial \<Longrightarrow>
      \<exists>der. create_cert E tmpl (ca_template E (gen_serial E l)) (public_of E k) key = Some der"
    and issues_doc: "\<exists>doc. openssl E p (Some c) (Some q) = Some doc \<and> doc \<noteq> []"
proof -
  note a = assms [unfolded issues_all_def]
  show "\<exists>k. gen_key E j = Some k" "\<exists>n. gen_serial E j = Some n" using a by auto
  show "gen_key E j = Some key \<Longrightarrow>
      \<exists>der. create_cert E (ca_template E (gen_serial E l)) (ca_template E (gen_serial E l)) (public_of E key) key = Some der"
    using a by fast
  show "gen_key E i = Some k \<Longrightarrow> gen_key E j = Some key \<Longrightarrow> gen_serial E m = Some serial \<Longrightarrow>
      tmpl \<in> run_templates E (ca_template E (gen_serial E l)) serial \<Longrightarrow>
      \<exists>der. create_cert E tmpl (ca_template E (gen_serial E l)) (public_of E k) key = Some der"
    using a by fast
  have "openssl E p (Some c) (Some q) \<noteq> None" "openssl E p (Some c) (Some q) \<noteq> Some []" using a by simp_all
  then show "\<exists>doc. openssl E p (Some c) (Some q) = Some doc \<and> doc \<noteq> []" by auto
qed

lemma leafValid_sound: "sound s \<Longrightarrow> sound (snd (leafValid E F name host ca s))"
  using read_sound by (auto simp: leafValid_def split: prod.splits option.splits) (metis snd_conv)+

lemma signerValid_sound: "sound s \<Longrightarrow> sound (snd (profileSignerValid E F ca s))"
  using read_sound by (auto simp: profileSignerValid_def Let_def split: prod.splits) (metis snd_conv)+

lemma loadCA_sound: "sound s \<Longrightarrow> sound (snd (loadCA E F s))"
  using read_sound by (auto simp: loadCA_def split: prod.splits option.splits) (metis snd_conv)+

lemma ensureLeaf_works:
  assumes "pki_laws E" and "issues_all E" and "no_faults F" and "sound s"
    and ca: "ca = ca_template E (gen_serial E l)" and "gen_key E j = Some key" and "host \<in> set ca_hosts"
  shows "\<exists>s'. ensureLeaf E F (leaf_name host) host ca key s = (None, s') \<and> sound s'"
proof -
  obtain v t where v: "leafValid E F (leaf_name host) host ca s = (v, t)" by (metis surj_pair)
  have t: "sound t" using leafValid_sound [OF assms(4), of E F "leaf_name host" host ca] v by simp
  show ?thesis
  proof (cases v)
    case True
    with leafValid_data [OF v] have "data_of (leaf_name host) t \<noteq> None" by auto
    then show ?thesis using chmod_works [OF assms(3) t] True v by (fastforce simp: ensureLeaf_def chmod_step_def)
  next
    case False
    obtain k serial where r: "gen_key E (calls_made t) = Some k" "gen_serial E (calls_made t) = Some serial"
      using issues_rand [OF assms(2)] by blast
    obtain der where der: "create_cert E (leaf_template E host serial ca) ca (public_of E k) key = Some der"
      using issues_cert [OF assms(2) r(1) assms(6) r(2), of _ l] assms(7) unfolding ca run_templates_def by blast
    obtain kb where kb: "marshal_key E k = Some kb" using marshal_law [OF assms(1) r(1)] by auto
    show ?thesis using write_works [OF assms(3) t, of "leaf_name host" "pem_pair E der kb" mode_0640] False v r der kb
      by (auto simp: ensureLeaf_def of_syscall_def pem_pair_def)
  qed
qed

lemma leaves_work:
  assumes "pki_laws E" and "issues_all E" and "no_faults F" and ca: "ca = ca_template E (gen_serial E l)" "gen_key E j = Some key"
  shows "sound s \<Longrightarrow> set hosts \<subseteq> set ca_hosts \<Longrightarrow> \<exists>s'. ensure_leaves E F ca key hosts s = (None, s') \<and> sound s'"
proof (induction hosts arbitrary: s)
  case (Cons h hosts)
  obtain t where "ensureLeaf E F (leaf_name h) h ca key s = (None, t)" "sound t"
    using ensureLeaf_works [OF assms(1-3) Cons.prems(1) ca, of h] Cons.prems(2) by auto
  then show ?case using Cons.IH [of t] Cons.prems(2) by (simp add: unless_failed_def)
qed simp

lemma signer_works:
  assumes "pki_laws E" and "issues_all E" and "no_faults F" and "sound s"
    and ca: "ca = ca_template E (gen_serial E l)" and "gen_key E j = Some key"
  shows "\<exists>s'. ensureProfileSigner E F ca key s = (None, s') \<and> sound s'"
proof -
  obtain v t where v: "profileSignerValid E F ca s = (v, t)" by (metis surj_pair)
  have t: "sound t" using signerValid_sound [OF assms(4), of E F ca] v by simp
  show ?thesis
  proof (cases v)
    case False
    obtain k serial where r: "gen_key E (calls_made t) = Some k" "gen_serial E (calls_made t) = Some serial"
      using issues_rand [OF assms(2)] by blast
    obtain der where der: "create_cert E (signer_template E serial ca) ca (public_of E k) key = Some der"
      using issues_cert [OF assms(2) r(1) assms(6) r(2), of _ l] unfolding ca run_templates_def by blast
    obtain kb where kb: "marshal_key E k = Some kb" using marshal_law [OF assms(1) r(1)] by auto
    obtain u where u: "atomicWrite F (Named signer_cert_name) (pem_encode E ''CERTIFICATE'' der) mode_0640 t = (True, u)" "sound u"
      using write_works [OF assms(3) t] by blast
    show ?thesis using write_works [OF assms(3) u(2), of signer_key_name "pem_encode E ''EC PRIVATE KEY'' kb" mode_0600] False v r der kb u(1)
      by (auto simp: ensureProfileSigner_def of_syscall_def)
  qed (use v t in \<open>simp add: ensureProfileSigner_def\<close>)
qed

lemma makeCA_works:
  assumes "pki_laws E" and "issues_all E" and "no_faults F" and "sound s"
  shows "\<exists>key s'. makeCA E F s = (Inr (ca_template E (gen_serial E (calls_made s)), key), s') \<and> sound s'
    \<and> gen_key E (calls_made s) = Some key"
proof -
  obtain key where key: "gen_key E (calls_made s) = Some key" using issues_rand [OF assms(2)] by blast
  obtain der where der: "create_cert E (ca_template E (gen_serial E (calls_made s))) (ca_template E (gen_serial E (calls_made s)))
      (public_of E key) key = Some der"
    using issues_ca [OF assms(2) key] by blast
  obtain u where u: "atomicWrite F (Named ''ca-cert.pem'') (pem_encode E ''CERTIFICATE'' der) mode_0640 s = (True, u)" "sound u"
    using write_works [OF assms(3,4)] by blast
  show ?thesis
    using write_works [OF assms(3) u(2), of "''ca-key.pem''" "pem_encode E ''EC PRIVATE KEY'' (case marshal_key E key of None \<Rightarrow> [] | Some b \<Rightarrow> b)" mode_0600]
      key der u(1) by (auto simp: makeCA_def Let_def)
qed

lemma chmods_work:
  assumes "no_faults F" and "sound s" and "\<And>n. n \<in> {''ca-cert.pem'', signer_cert_name, signer_key_name, ''ca.mobileconfig''} \<Longrightarrow> data_of n s \<noteq> None"
  shows "\<exists>s'. final_modes F s = (None, s')"
proof -
  have d: "data_of ''ca-cert.pem'' s \<noteq> None" "data_of signer_cert_name s \<noteq> None" "data_of signer_key_name s \<noteq> None"
    "data_of ''ca.mobileconfig'' s \<noteq> None" using assms(3) by simp_all
  obtain s1 where s1: "chmod_step F ''ca-cert.pem'' mode_0640 s = (None, s1)" "sound s1" "\<forall>k. data_of k s1 = data_of k s"
    using chmod_works [OF assms(1,2) d(1)] by blast
  then have d1: "data_of signer_cert_name s1 \<noteq> None" using d(2) by simp
  obtain s2 where s2: "chmod_step F signer_cert_name mode_0640 s1 = (None, s2)" "sound s2" "\<forall>k. data_of k s2 = data_of k s1"
    using chmod_works [OF assms(1) s1(2) d1] by blast
  then have d2: "data_of signer_key_name s2 \<noteq> None" using d(3) s1(3) by simp
  obtain s3 where s3: "chmod_step F signer_key_name mode_0600 s2 = (None, s3)" "sound s3" "\<forall>k. data_of k s3 = data_of k s2"
    using chmod_works [OF assms(1) s2(2) d2] by blast
  then have d3: "data_of ''ca.mobileconfig'' s3 \<noteq> None" using d(4) s1(3) s2(3) by simp
  obtain s4 where s4: "chmod_step F ''ca.mobileconfig'' mode_0640 s3 = (None, s4)" "sound s4"
    using chmod_works [OF assms(1) s3(2) d3] by blast
  have "\<exists>s5. of_syscall (os_ChmodDir F mode_0750 s4) = (None, s5)"
    using s4(2) assms(1) by (auto simp: of_syscall_def os_ChmodDir_def syscall_def no_faults_def sound_def)
  then show ?thesis using s1(1) s2(1) s3(1) s4(1) by (auto simp: final_modes_def unless_failed_def)
qed

lemma install_works:
  assumes "pki_laws E" and "issues_all E" and "no_faults F" and "sound s"
    and ca: "ca = ca_template E (gen_serial E l)" "gen_key E j = Some key"
    and stands: "stands_for E ca key root" and files: "data_of ''ca-cert.pem'' s \<noteq> None" "data_of ''ca-key.pem'' s \<noteq> None"
  shows "\<exists>s'. install E F ca key s = (None, s')"
proof -
  obtain s1 where s1: "chmod_step F ''ca-key.pem'' mode_0600 s = (None, s1)" "sound s1" "\<forall>k. data_of k s1 = data_of k s"
    using chmod_works [OF assms(3,4) files(2)] by blast
  obtain s2 where s2: "ensureProfileSigner E F ca key s1 = (None, s2)" "sound s2"
    using signer_works [OF assms(1-3) s1(2) ca] by blast
  obtain sc sk where signer: "data_of signer_cert_name s2 = Some sc" "data_of signer_key_name s2 = Some sk"
    using ensureProfileSigner_ready [OF assms(1) stands s2(1)] by (auto simp: signer_ready_def)
  obtain doc where doc: "openssl E (go_bytes (EnrollmentMobileConfig E ca)) (Some sc) (Some sk) = Some doc" "doc \<noteq> []"
    using issues_doc [OF assms(2)] by blast
  obtain s3 where s3: "atomicWrite F (Named ''ca.mobileconfig'') doc mode_0640 s2 = (True, s3)" "sound s3"
    using write_works [OF assms(3) s2(2)] by blast
  obtain s4 where s4: "ensure_leaves E F ca key ca_hosts s3 = (None, s4)" "sound s4"
    using leaves_work [OF assms(1-3) ca s3(2), of ca_hosts] by auto
  have apart: "''ca.mobileconfig'' \<notin> leaf_name ` set ca_hosts" "''ca-cert.pem'' \<notin> leaf_name ` set ca_hosts"
    by (auto simp: leaf_name_def ca_hosts_def)
  have later: "data_of n s4 = data_of n s3" if "n \<notin> leaf_name ` set ca_hosts" for n
    using kept.leaves_keep [of n s3 _ ca_hosts E F ca key] that s4(1) by auto
  have cert: "data_of ''ca-cert.pem'' s4 = data_of ''ca-cert.pem'' s"
    using later [OF apart(2)] atomicWrite_done [OF s3(1), of "''ca-cert.pem''"] s1(3) s2(1)
      kept.signer_keeps [of "''ca-cert.pem''" s1 _ E F ca key]
    by (simp add: signer_cert_name_def signer_key_name_def)
  have "data_of n s4 \<noteq> None" if "n \<in> {''ca-cert.pem'', signer_cert_name, signer_key_name, ''ca.mobileconfig''}" for n
    using that cert files(1) signer later [of n] signer_apart [of n] apart(1) atomicWrite_done [OF s3(1), of n] by auto
  then obtain s5 where "final_modes F s4 = (None, s5)" using chmods_work [OF assms(3) s4(2)] by blast
  then show ?thesis
    using s1(1) s2(1) signer doc s3(1) s4(1)
    by (auto simp: install_def unless_failed_def write_profile_def signCMSWithOpenSSL_def of_syscall_def)
qed

lemma start_works:
  assumes "no_faults F" and "\<forall>j \<ge> calls_made s. entries s (Temp j) = None"
  shows "\<exists>t. run_start F s = (None, t) \<and> sound t"
proof -
  obtain s1 where s1: "os_MkdirAll F mode_0750 s = (True, s1)" "dir_mode s1 \<noteq> None" "entries s1 = entries s"
    "calls_made s1 = Suc (calls_made s)"
    using assms(1) by (cases "dir_mode s") (simp_all add: os_MkdirAll_def syscall_def no_faults_def)
  then obtain m where "dir_mode s1 = Some m" by auto
  then obtain s2 where s2: "os_ChmodDir F mode_0750 s1 = (True, s2)" "dir_mode s2 \<noteq> None" "entries s2 = entries s1"
    "calls_made s2 = Suc (calls_made s1)"
    using assms(1) by (simp add: os_ChmodDir_def syscall_def no_faults_def)
  show ?thesis using s1 s2 assms(2) by (simp add: run_start_def unless_failed_def of_syscall_def sound_def)
qed

lemma first_run:
  assumes "pki_laws E" and "issues_all E" and "no_faults F" and "\<forall>j \<ge> calls_made s. entries s (Temp j) = None"
    and none: "data_of ''ca-cert.pem'' s = None" "data_of ''ca-key.pem'' s = None"
  shows "\<exists>s'. ca_run E F s = (None, s')"
proof -
  obtain t where t: "run_start F s = (None, t)" "sound t" using start_works [OF assms(3,4)] by blast
  have d: "data_of n t = data_of n s" for n using run_start_data(1) [of n F s] t(1) by simp
  obtain x u where l: "loadCA E F t = (x, u)" by (metis surj_pair)
  have u: "sound u" "data_of n u = data_of n s" for n using loadCA_sound [OF t(2), of E F] loadCA_data [of n E F t] l d by simp_all
  obtain e where x: "x = Inl e" using loadCA_Inr [of E F t _ u] l d none by (cases x) auto
  obtain key v where m: "makeCA E F u = (Inr (ca_template E (gen_serial E (calls_made u)), key), v)" "sound v"
    "gen_key E (calls_made u) = Some key"
    using makeCA_works [OF assms(1-3) u(1)] by blast
  have o: "obtainCA E F t = (Inr (ca_template E (gen_serial E (calls_made u)), key), v)"
    using l x u(2) none m(1) by (simp add: obtainCA_def fileExists_data)
  have "loaded_ca E t = None" using d none by (simp add: loaded_ca_def)
  then obtain root where root: "loaded_ca E v = Some (root, key)" "stands_for E (ca_template E (gen_serial E (calls_made u))) key root"
    using obtainCA_ready [OF assms(1) o] by auto
  have "data_of ''ca-cert.pem'' v \<noteq> None" "data_of ''ca-key.pem'' v \<noteq> None"
    using root(1) by (auto simp: loaded_ca_def split: option.splits)
  then obtain s' where "install E F (ca_template E (gen_serial E (calls_made u))) key v = (None, s')"
    using install_works [OF assms(1-3) m(2) refl m(3) root(2)] by blast
  with t(1) o show ?thesis by (auto simp: ca_run_None)
qed

text \<open>a first run works. In a directory without a CA, which need not exist, a run in which every system call
  works and the random numbers, certificates and signature can be made returns success, and a second such
  run at the same time then finds all it needs and changes no certificate or key.\<close>

theorem first_run_succeeds:
  assumes "pki_laws E" and "issues_all E" and "no_faults F" and "\<forall>j \<ge> calls_made s. entries s (Temp j) = None"
    and "data_of ''ca-cert.pem'' s = None" and "data_of ''ca-key.pem'' s = None"
  shows "\<exists>s'. ca_run E F s = (None, s') \<and> ready E s'
    \<and> (\<forall>n. n \<noteq> ''ca.mobileconfig'' \<longrightarrow> data_of n (snd (ca_run E F s')) = data_of n s')"
proof -
  obtain s' where r: "ca_run E F s = (None, s')" using first_run [OF assms] by blast
  have "loaded_ca E s = None" using assms(5,6) by (simp add: loaded_ca_def)
  then have "ready E s'" using run_establishes_ready [OF assms(1) _ r] by simp
  with r run_again [OF assms(3) this] show ?thesis by (auto simp: same_but_def)
qed

end
