(* ===== verification/Pki_Sample.thy ===== *)
theory Pki_Sample
  imports Pki_Runs
begin

text \<open>
  A small instance of the cryptography that keeps the laws, and the properties of \<open>locspoof-ca\<close> applied to runs with
  it: a first run on an empty directory, a repeated one, and one that is killed while it makes the CA.

  Certificates are the index of their template with the public key and the signing key; encodings are framed
  byte strings.
\<close>

section \<open>Encodings\<close>

fun frame_body :: "bytes \<Rightarrow> (bytes \<times> bytes) option" where
  "frame_body [] = None"
| "frame_body (t # r) =
     (if t = 0 then Some ([], r)
      else case r of [] \<Rightarrow> None | x # q \<Rightarrow> map_option (\<lambda>(b, u). (x # b, u)) (frame_body q))"

definition frame_of :: "bytes \<Rightarrow> bytes" where
  "frame_of b = concat (map (\<lambda>x. [1, x]) b) @ [0]"

lemma frame_roundtrip_any: "frame_body (frame_of b @ r) = Some (b, r)"
  by (induction b) (simp_all add: frame_of_def)

definition sample_pem :: "string \<Rightarrow> bytes \<Rightarrow> bytes" where
  "sample_pem t b = (if t = ''CERTIFICATE'' then 1 else 2) # frame_of b"

definition sample_pem_decode :: "bytes \<Rightarrow> bytes option" where
  "sample_pem_decode b = (case b of [] \<Rightarrow> None | t # r \<Rightarrow> map_option fst (frame_body r))"

lemma sample_pem_law: "sample_pem_decode (sample_pem t b) = Some b"
  using frame_roundtrip_any [of b "[]"] by (simp add: sample_pem_decode_def sample_pem_def)

definition sample_parse_key :: "bytes \<Rightarrow> private_key option" where
  "sample_parse_key b = (case b of [w] \<Rightarrow> Some (unat w) | _ \<Rightarrow> None)"

section \<open>Templates and certificates\<close>

definition sample_clock :: pki where
  "sample_clock = \<lparr>parse_cert = (\<lambda>_. None), parse_key = sample_parse_key, pem_decode = sample_pem_decode,
     load_pair = (\<lambda>_ _. None), sha256 = (\<lambda>_. []), clock_now = 1700000000000000005,
     AddDate = (\<lambda>t y. t + int y * 31536000 * second), create_cert = (\<lambda>_ _ _ _. None),
     signed_by = (\<lambda>_ _. False), host_ok = (\<lambda>c host. DNSNames c = [host]), gen_key = (\<lambda>j. Some (j mod 200)),
     gen_serial = Some, public_of = (\<lambda>k. k),
     marshal_key = (\<lambda>k. if k < 200 then Some [word_of_nat k] else None),
     marshal_pub = map_option (\<lambda>p. replicate p 0), pem_encode = sample_pem,
     openssl = (\<lambda>doc c k. if c = None \<or> k = None then None else Some (1 # doc))\<rparr>"

definition without_serial :: "certificate \<Rightarrow> certificate" where
  "without_serial c = c\<lparr>SerialNumber := None\<rparr>"

definition sample_templates :: "certificate list" where
  "sample_templates =
     (let ca = ca_template sample_clock None
      in [ca, without_serial (signer_template sample_clock 0 ca)]
           @ map (\<lambda>host. without_serial (leaf_template sample_clock host 0 ca)) ca_hosts)"

definition sample_create :: "certificate \<Rightarrow> certificate \<Rightarrow> public_key \<Rightarrow> private_key \<Rightarrow> bytes option" where
  "sample_create tmpl parent pub key =
     (case find (\<lambda>i. sample_templates ! i = without_serial tmpl) [0..<length sample_templates] of
        None \<Rightarrow> None
      | Some i \<Rightarrow> if pub < 200 \<and> key < 200 then Some [word_of_nat i, word_of_nat pub, word_of_nat key] else None)"

definition sample_parse :: "bytes \<Rightarrow> certificate option" where
  "sample_parse b =
     (case b of
        [i, p, k] \<Rightarrow>
          if unat i < length sample_templates
          then let t = sample_templates ! unat i
               in Some (t\<lparr>Raw := b, PublicKey := Some (unat p), NotBefore := whole_second (NotBefore t),
                          NotAfter := whole_second (NotAfter t)\<rparr>)
          else None
      | _ \<Rightarrow> None)"

definition sample_signed :: "certificate \<Rightarrow> certificate \<Rightarrow> bool" where
  "sample_signed c ca \<longleftrightarrow> can_sign ca
     \<and> (case Raw c of [i, p, k] \<Rightarrow> PublicKey ca = Some (unat k) | _ \<Rightarrow> False)"

definition sample_load_pair :: "bytes \<Rightarrow> bytes \<Rightarrow> bytes list option" where
  "sample_load_pair b b' =
     (case b of [] \<Rightarrow> None | t # r \<Rightarrow>
       (case frame_body r of
          Some (der, t' # r') \<Rightarrow>
            (case frame_body r' of
               None \<Rightarrow> None
             | Some (kb, rest) \<Rightarrow>
                 (case (sample_parse der, sample_parse_key kb) of
                    (Some c, Some k) \<Rightarrow> if PublicKey c = Some k \<and> b' = b then Some [der] else None
                  | _ \<Rightarrow> None))
        | _ \<Rightarrow> None))"

definition sample_pki :: pki where
  "sample_pki = sample_clock\<lparr>parse_cert := sample_parse, load_pair := sample_load_pair,
     create_cert := sample_create, signed_by := sample_signed\<rparr>"

lemma sample_pki_simps [simp]:
  "parse_cert sample_pki = sample_parse" "parse_key sample_pki = sample_parse_key"
  "pem_decode sample_pki = sample_pem_decode" "load_pair sample_pki = sample_load_pair"
  "clock_now sample_pki = clock_now sample_clock" "AddDate sample_pki = AddDate sample_clock"
  "create_cert sample_pki = sample_create" "signed_by sample_pki = sample_signed"
  "host_ok sample_pki = (\<lambda>c host. DNSNames c = [host])" "gen_key sample_pki = (\<lambda>j. Some (j mod 200))"
  "gen_serial sample_pki = Some" "public_of sample_pki = (\<lambda>k. k)"
  "marshal_key sample_pki = (\<lambda>k. if k < 200 then Some [word_of_nat k] else None)"
  "marshal_pub sample_pki = map_option (\<lambda>p. replicate p 0)" "pem_encode sample_pki = sample_pem"
  "openssl sample_pki = (\<lambda>doc c k. if c = None \<or> k = None then None else Some (1 # doc))"
  by (simp_all add: sample_pki_def sample_clock_def)

lemma sample_byte: "n < 256 \<Longrightarrow> unat (word_of_nat n :: byte) = n"
  by (simp add: unat_of_nat)

section \<open>The laws\<close>

lemma sample_codec_laws: "codec_laws sample_pki"
proof -
  have "sample_load_pair (pem_pair sample_pki der kb) (pem_pair sample_pki der kb) = Some [der]"
    if "sample_parse der = Some c" "sample_parse_key kb = Some k" "PublicKey c = Some k" for der kb c k
    using that frame_roundtrip_any [of kb "[]"] frame_roundtrip_any [of der "sample_pem ''EC PRIVATE KEY'' kb"]
    by (simp add: pem_pair_def sample_load_pair_def) (simp add: sample_pem_def)
  then show ?thesis
    by (auto simp: codec_laws_def sample_pem_law sample_parse_key_def sample_byte split: if_splits)
qed

lemma sample_public: "public_key_laws sample_pki"
proof -
  have "replicate m (0 :: byte) = replicate n 0 \<Longrightarrow> m = n" for m n by (metis length_replicate)
  then show ?thesis
    by (auto simp: public_key_laws_def sample_signed_def split: list.splits)
qed

lemma sample_templates_length: "length sample_templates = 8"
  by (simp add: sample_templates_def Let_def ca_hosts_def)

lemma sample_issued:
  assumes "sample_create tmpl parent pub key = Some der"
  shows "\<exists>c. sample_parse der = Some c \<and> issued sample_pki tmpl pub key c"
proof -
  obtain i where i: "i < 8" "sample_templates ! i = without_serial tmpl" "pub < 200" "key < 200"
    "der = [word_of_nat i, word_of_nat pub, word_of_nat key]"
    using assms by (auto simp: sample_create_def find_Some_iff sample_templates_length split: option.splits if_splits)
  then show ?thesis
    by (auto simp: sample_parse_def sample_byte issued_def without_serial_def sample_signed_def sample_templates_length Let_def)
qed

lemma sample_issuing: "issuing_laws sample_pki"
proof -
  have "whole_second t mod second = 0" for t by (simp add: whole_second_def mod_diff_right_eq)
  then have "sample_parse b = Some c \<Longrightarrow> Raw c = b \<and> NotAfter c mod second = 0" for b c
    by (auto simp: sample_parse_def Let_def split: list.splits if_splits)
  moreover have "clock_now sample_clock + second \<le> AddDate sample_clock (clock_now sample_clock) y" if "0 < y" for y
    using that by (simp add: sample_clock_def second_def)
  ultimately show ?thesis using sample_issued by (auto simp: issuing_laws_def)
qed

lemma sample_laws: "pki_laws sample_pki"
  by (simp add: pki_laws_def sample_codec_laws sample_public sample_issuing)

lemma find_template: "\<exists>i < 8. sample_templates ! i = without_serial tmpl \<Longrightarrow>
    find (\<lambda>i. sample_templates ! i = without_serial tmpl) [0..<length sample_templates] \<noteq> None"
  by (auto simp: find_None_iff sample_templates_length)

lemma sample_ca_template: "without_serial (ca_template sample_pki serial) = sample_templates ! 0"
  by (simp add: sample_templates_def Let_def without_serial_def ca_template_def template_def)

lemma sample_run_template:
  assumes "tmpl \<in> run_templates sample_pki (ca_template sample_pki l) serial"
  shows "\<exists>i < 8. sample_templates ! i = without_serial tmpl"
proof -
  have na: "not_after sample_pki (ca_template sample_pki l) y = not_after sample_clock (ca_template sample_clock None) y" for y
    by (simp add: not_after_def ca_template_def template_def Let_def)
  show ?thesis
  proof (cases "tmpl = signer_template sample_pki serial (ca_template sample_pki l)")
    case True
    then have "sample_templates ! 1 = without_serial tmpl"
      by (simp add: sample_templates_def Let_def without_serial_def signer_template_def na)
    then show ?thesis by (intro exI [of _ 1]) simp
  next
    case False
    then obtain host where "host \<in> set ca_hosts" "tmpl = leaf_template sample_pki host serial (ca_template sample_pki l)"
      using assms by (auto simp: run_templates_def)
    moreover have six: "length ca_hosts = 6" by (simp add: ca_hosts_def)
    ultimately obtain j where j: "j < 6" "tmpl = leaf_template sample_pki (ca_hosts ! j) serial (ca_template sample_pki l)"
      by (auto simp: in_set_conv_nth)
    have "sample_templates ! Suc (Suc j) = without_serial (leaf_template sample_clock (ca_hosts ! j) 0 (ca_template sample_clock None))"
      using j(1) six by (simp add: sample_templates_def Let_def)
    also have "\<dots> = without_serial tmpl"
      by (simp add: j(2) without_serial_def leaf_template_def na)
    finally show ?thesis using j(1) by (intro exI [of _ "Suc (Suc j)"]) simp
  qed
qed

lemma sample_issues: "issues_all sample_pki"
proof -
  have create: "sample_create tmpl parent p k \<noteq> None" if "\<exists>i < 8. sample_templates ! i = without_serial tmpl" "p < 200" "k < 200"
    for tmpl parent p k
    using find_template [OF that(1)] that(2,3) by (auto simp: sample_create_def)
  have "sample_create (ca_template sample_pki l) parent (j mod 200) (j mod 200) \<noteq> None" for l parent j
    using sample_ca_template [of l] by (intro create) (auto intro: exI [of _ 0])
  moreover have "sample_create tmpl parent (i mod 200) (j mod 200) \<noteq> None"
    if "tmpl \<in> run_templates sample_pki (ca_template sample_pki l) serial" for tmpl parent i j l serial
    using sample_run_template [OF that] by (intro create) auto
  ultimately show ?thesis by (simp add: issues_all_def)
qed

section \<open>Runs\<close>

definition empty_directory :: sys where
  "empty_directory = \<lparr>entries = (\<lambda>_. None), dir_mode = None, calls_made = 0\<rparr>"

definition all_work :: faults where "all_work = \<lparr>works = (\<lambda>_. True), cut = (\<lambda>_. 0)\<rparr>"

text \<open>Killed before the ninth system call, which is the rename of the CA certificate, or after it.\<close>

definition killed_at :: "nat \<Rightarrow> faults" where
  "killed_at n = \<lparr>works = (\<lambda>k. k < n), cut = (\<lambda>_. 3)\<rparr>"

lemma all_work_faults: "no_faults all_work"
  by (simp add: no_faults_def all_work_def)

lemma empty_no_ca: "data_of n empty_directory = None" "loaded_ca E empty_directory = None"
  by (simp_all add: data_of_def empty_directory_def loaded_ca_def)

lemma sample_first_run: "\<exists>s'. ca_run sample_pki all_work empty_directory = (None, s')"
  by (rule first_run [OF sample_laws sample_issues all_work_faults _ empty_no_ca(1,1)])
    (simp add: empty_directory_def)

theorem first_run_succeeds_witness:
  "\<exists>s'. ca_run sample_pki all_work empty_directory = (None, s') \<and> ready sample_pki s'"
  using first_run_succeeds [OF sample_laws sample_issues all_work_faults _ empty_no_ca(1,1)]
  by (auto simp: empty_directory_def)

theorem successful_run_is_ready_witness:
  "\<exists>s' b. ca_run sample_pki all_work empty_directory = (None, s') \<and> data_of ''gs-loc.apple.com.pem'' s' = Some b"
proof -
  obtain s' where r: "ca_run sample_pki all_work empty_directory = (None, s')" using sample_first_run by blast
  have "\<exists>root key c k. loaded_ca sample_pki s' = Some (root, key) \<and> usable_ca sample_pki root
    \<and> data_of ''profile-signing-cert.pem'' s' = Some c \<and> data_of ''profile-signing-key.pem'' s' = Some k
    \<and> signer_ok sample_pki root c k
    \<and> (\<forall>host \<in> set ca_hosts. \<exists>b. data_of (host @ ''.pem'') s' = Some b \<and> leaf_bundle_ok sample_pki host root b b)"
    by (rule successful_run_is_ready [OF sample_laws _ r]) (simp add: empty_no_ca)
  then obtain root where "\<forall>host \<in> set ca_hosts. \<exists>b. data_of (host @ ''.pem'') s' = Some b \<and> leaf_bundle_ok sample_pki host root b b"
    by blast
  moreover have "''gs-loc.apple.com'' \<in> set ca_hosts" by (simp add: ca_hosts_def)
  ultimately obtain b where "data_of (''gs-loc.apple.com'' @ ''.pem'') s' = Some b" by blast
  with r show ?thesis by auto
qed

theorem profile_of_run_witness:
  "\<exists>s' text. ca_run sample_pki all_work empty_directory = (None, s')
     \<and> data_of ''ca.mobileconfig'' s' = Some (1 # go_bytes text) \<and> profile_payload text = Some []"
proof -
  obtain s' where r: "ca_run sample_pki all_work empty_directory = (None, s')" using sample_first_run by blast
  from profile_of_run [OF r] r show ?thesis by (auto simp: empty_no_ca split: if_splits)
qed

theorem repeated_run_rotates_nothing_witness:
  "\<exists>s'. ca_run sample_pki all_work empty_directory = (None, s')
     \<and> data_of ''ca-key.pem'' (snd (ca_run sample_pki all_work s')) = data_of ''ca-key.pem'' s'"
proof -
  obtain s' where r: "ca_run sample_pki all_work empty_directory = (None, s')" using sample_first_run by blast
  have "data_of ''ca-key.pem'' (snd (ca_run sample_pki all_work s')) = data_of ''ca-key.pem'' s'"
    by (rule repeated_run_rotates_nothing [OF sample_laws _ r all_work_faults]) (simp_all add: empty_no_ca)
  with r show ?thesis by blast
qed


text \<open>The run that is killed when it has written the certificate and not yet the key.\<close>

lemma killed_write:
  "\<exists>u. atomicWrite (killed_at 9) (Named n) d m \<lparr>entries = (\<lambda>_. None), dir_mode = Some x, calls_made = 3\<rparr> = (True, u)
     \<and> data_of n u = Some d \<and> (\<forall>k. k \<noteq> n \<longrightarrow> data_of k u = None) \<and> 9 \<le> calls_made u"
  by (simp add: atomicWrite_def fill_temp_def sync_dir_def os_defs killed_at_def Let_def data_of_def)

lemma killed_create: "9 \<le> calls_made u \<Longrightarrow> fst (atomicWrite (killed_at 9) p d m u) = False
    \<and> entries (snd (atomicWrite (killed_at 9) p d m u)) = entries u"
  by (simp add: atomicWrite_def os_CreateTemp_def syscall_def killed_at_def Let_def)

lemma killed_first_run:
  "\<exists>e s'. ca_run sample_pki (killed_at 9) empty_directory = (Some e, s') \<and> data_of ''ca-cert.pem'' s' \<noteq> None
     \<and> data_of ''ca-key.pem'' s' = None"
proof -
  let ?F = "killed_at 9"
  let ?t = "\<lambda>k. \<lparr>entries = (\<lambda>_. None), dir_mode = Some mode_0750, calls_made = k\<rparr>"
  have start: "run_start ?F empty_directory = (None, ?t 2)"
    by (simp add: run_start_def unless_failed_def of_syscall_def os_defs killed_at_def empty_directory_def Let_def)
  have load: "loadCA sample_pki ?F (?t 2) = (Inl SystemCallFailed, ?t 3)"
    by (simp add: loadCA_def os_defs killed_at_def Let_def)
  obtain der where der: "create_cert sample_pki (ca_template sample_pki (gen_serial sample_pki 3))
      (ca_template sample_pki (gen_serial sample_pki 3)) (public_of sample_pki 3) 3 = Some der"
    using issues_ca [OF sample_issues, of 3 3 3] by auto
  obtain u where u: "atomicWrite ?F (Named ''ca-cert.pem'') (pem_encode sample_pki ''CERTIFICATE'' der) mode_0640 (?t 3) = (True, u)"
    "data_of ''ca-cert.pem'' u \<noteq> None" "data_of ''ca-key.pem'' u = None" "9 \<le> calls_made u"
    using killed_write [of "''ca-cert.pem''" "pem_encode sample_pki ''CERTIFICATE'' der" mode_0640 mode_0750] by auto
  obtain v where w: "atomicWrite ?F (Named ''ca-key.pem'') (pem_encode sample_pki ''EC PRIVATE KEY'' [3]) mode_0600 u = (False, v)"
    "entries v = entries u"
    using killed_create [OF u(4), of "Named ''ca-key.pem''" "pem_encode sample_pki ''EC PRIVATE KEY'' [3]" mode_0600]
    by (cases "atomicWrite ?F (Named ''ca-key.pem'') (pem_encode sample_pki ''EC PRIVATE KEY'' [3]) mode_0600 u") simp
  with der u(1) have v: "makeCA sample_pki ?F (?t 3) = (Inl SystemCallFailed, v)" by (simp add: makeCA_def Let_def)
  have "obtainCA sample_pki ?F (?t 2) = (Inl SystemCallFailed, v)"
    using v(1) by (simp add: obtainCA_def load fileExists_def)
  then have "ca_run sample_pki ?F empty_directory = (Some SystemCallFailed, v)"
    by (simp add: ca_run_start start unless_failed_def)
  with u(2,3) w(2) show ?thesis by (simp add: data_of_def)
qed

theorem half_ca_is_final_witness:
  "\<exists>s'. s' = snd (ca_run sample_pki (killed_at 9) empty_directory)
     \<and> (\<exists>e s''. ca_run sample_pki all_work s' = (Some e, s'') \<and> data_of ''ca-key.pem'' s'' = None)"
proof -
  obtain e s' where r: "ca_run sample_pki (killed_at 9) empty_directory = (Some e, s')"
    "data_of ''ca-cert.pem'' s' \<noteq> None" "data_of ''ca-key.pem'' s' = None"
    using killed_first_run by blast
  have "\<exists>e s''. ca_run sample_pki all_work s' = (Some e, s'') \<and> (\<forall>n. data_of n s'' = data_of n s')"
    by (rule half_ca_is_final) (use r(2,3) in simp)
  with r show ?thesis by auto
qed

end
