(* ===== verification/Provisioning.thy ===== *)
theory Provisioning
  imports Runtime Pki_Sample
begin

text \<open>
  The certificate authority and the gateway together: the directory a successful run of \<open>locspoof-ca\<close> leaves is
  the one \<open>locspoofd\<close> loads its leaf certificates from.
\<close>

lemma ca_hosts_compiled: "ca_hosts = compiledWLocHosts"
  by (simp add: ca_hosts_def compiledWLocHosts_def)

lemma leaf_bundle_loads:
  assumes "leaf_bundle_ok E host anchor b b"
  shows "\<exists>der rest c. load_pair E b b = Some (der # rest) \<and> parse_cert E der = Some c \<and> leaf_cert_ok E host anchor c"
  using assms by (auto simp: leaf_bundle_ok_def split: option.splits list.splits)

lemma ready_serves:
  assumes "ready E s"
  shows "\<exists>anchor get. loaded_ca E s \<noteq> None \<and> fst (the (loaded_ca E s)) = anchor
    \<and> NewServerWithLeaves E (\<lambda>host. data_of (host @ ''.pem'') s) compiledAllowlist = Inr get
    \<and> (\<forall>server_name. NormalizeSNI server_name \<in> set compiledWLocHosts \<longrightarrow>
         (\<exists>der rest c. get server_name = Some (der # rest) \<and> parse_cert E der = Some c
            \<and> leaf_cert_ok E (NormalizeSNI server_name) anchor c))"
proof -
  let ?files = "\<lambda>host. data_of (host @ ''.pem'') s"
  obtain anchor k where r: "loaded_ca E s = Some (anchor, k)" "\<forall>host \<in> set ca_hosts. leaf_ready E anchor host s"
    using assms by (auto simp: ready_def)
  have leaf: "\<exists>der rest c. LoadX509KeyPair E ?files host = Some (der # rest) \<and> parse_cert E der = Some c \<and> leaf_cert_ok E host anchor c"
    if host: "host \<in> set compiledWLocHosts" for host
  proof -
    obtain b where b: "data_of (host @ ''.pem'') s = Some b" "leaf_bundle_ok E host anchor b b"
      using r(2) host by (auto simp: ca_hosts_compiled leaf_ready_def leaf_name_def)
    then show ?thesis using leaf_bundle_loads [OF b(2)] by (simp add: LoadX509KeyPair_def)
  qed
  have "LoadX509KeyPair E ?files host \<noteq> None" if "normalizeAllowlist compiledAllowlist host" for host
    using leaf [of host] that by (auto simp: compiled_allowed)
  then have get: "NewServerWithLeaves E ?files compiledAllowlist = Inr (GetCertificate E ?files (normalizeAllowlist compiledAllowlist))"
    using NewServerWithLeaves_cases [of compiledAllowlist E ?files] by (fastforce split: sum.splits)
  show ?thesis
    using r(1) get leaf by (auto simp: GetCertificate_def Let_def compiled_allowed)
qed

text \<open>C25: provisioning makes the gateway able to serve. After a run of \<open>locspoof-ca\<close> that succeeded, the daemon's
  data plane can be built from the directory, and for every server name of the compiled allowlist, in any
  spelling, it presents a certificate that is valid now, for that host, and signed by the persisted CA.\<close>

theorem provisioned_gateway_serves:
  assumes "pki_laws E" and "case loaded_ca E s of Some (anchor, k) \<Rightarrow> clock_now E < NotAfter anchor | None \<Rightarrow> True"
    and "ca_run E F s = (None, s')"
  shows "\<exists>anchor get. loaded_ca E s' \<noteq> None \<and> fst (the (loaded_ca E s')) = anchor
    \<and> NewServerWithLeaves E (\<lambda>host. data_of (host @ ''.pem'') s') compiledAllowlist = Inr get
    \<and> (\<forall>server_name. NormalizeSNI server_name \<in> set compiledWLocHosts \<longrightarrow>
         (\<exists>der rest c. get server_name = Some (der # rest) \<and> parse_cert E der = Some c
            \<and> leaf_cert_ok E (NormalizeSNI server_name) anchor c))"
  by (rule ready_serves [OF run_establishes_ready [OF assms(1) _ assms(3)]]) (use assms(2) in simp)

theorem provisioned_gateway_serves_witness:
  "\<exists>s' get. ca_run sample_pki all_work empty_directory = (None, s')
     \<and> NewServerWithLeaves sample_pki (\<lambda>host. data_of (host @ ''.pem'') s') compiledAllowlist = Inr get
     \<and> get ''gs-loc.apple.com'' \<noteq> None"
proof -
  obtain s' where r: "ca_run sample_pki all_work empty_directory = (None, s')" using sample_first_run by blast
  obtain get where g: "NewServerWithLeaves sample_pki (\<lambda>host. data_of (host @ ''.pem'') s') compiledAllowlist = Inr get"
    "\<forall>server_name. NormalizeSNI server_name \<in> set compiledWLocHosts \<longrightarrow> (\<exists>x. get server_name = Some x)"
    using provisioned_gateway_serves [OF sample_laws _ r] by (fastforce simp: empty_no_ca)
  moreover have "NormalizeSNI ''gs-loc.apple.com'' \<in> set compiledWLocHosts"
    by (subst NormalizeSNI_compiled) (simp_all add: compiledWLocHosts_def)
  ultimately show ?thesis using r by fastforce
qed

end
