(* ===== verification/Daemon_Runs.thy ===== *)
theory Daemon_Runs
  imports Daemon_Correct Provisioning
begin

text \<open>
  Whole runs of the daemon: a provisioned gateway with a valid configuration starts, what a request gets while it
  serves, what the control socket can change over all lives, and two ways to a ready file without a gateway.
\<close>

section \<open>The start\<close>

lemma main_steps_stage: "is_running m \<Longrightarrow> rank (stage m) + n = 7 \<Longrightarrow>
  rank (stage ((main_step ^^ n) m)) = 7 \<or> (\<exists>k. stage ((main_step ^^ n) m) = Exited k)"
proof (induction n arbitrary: m)
  case (Suc n)
  have "stage m \<noteq> Serving" using Suc.prems(2) by auto
  from main_step_stage [OF Suc.prems(1) this] show ?case
  proof
    assume "\<exists>k. stage (main_step m) = Exited k"
    then obtain k where k: "stage (main_step m) = Exited k" by blast
    have "stage ((main_step ^^ n) m1) = Exited k" if "stage m1 = Exited k" for m1
      using that by (induction n) (simp_all add: main_step_def)
    then show ?thesis using k by (simp add: funpow_Suc_right del: funpow.simps)
  next
    assume r: "rank (stage (main_step m)) = Suc (rank (stage m))"
    have "is_running (main_step m)" "rank (stage (main_step m)) + n = 7" using r Suc.prems(2) by (simp_all add: is_running_rank)
    from Suc.IH [OF this] show ?thesis by (simp add: funpow_Suc_right del: funpow.simps)
  qed
qed simp

text \<open>The answers of the environment under which the start succeeds.\<close>

definition can_start :: "main_env \<Rightarrow> config \<Rightarrow> bool" where
  "can_start E c \<longleftrightarrow> (\<forall>k. works (sys_faults E) k) \<and> Load (parse_float E) (config_text E) = Inr c
     \<and> (Enabled c \<longrightarrow> ProfileSet c)
     \<and> (\<exists>get. NewServerWithLeaves (certs E) (leaf_file E) compiledAllowlist = Inr get)
     \<and> fst (SetUpstreamSocks5 (if upstream_flag E = '''' then UpstreamSocks5 c else upstream_flag E) (Some newUpstreamTransport)) = None
     \<and> (\<exists>lns. fst (listenDual (bind4 E) (bind6 E) (JoinHostPort (ListenAddr c) (Itoa (ListenPort c)))) = Inr lns)
     \<and> enroll_binds E (ProxyPort c)"

lemma WriteFile_works:
  "(\<forall>k. works F k) \<Longrightarrow> dir_mode s \<noteq> None \<Longrightarrow> fst (os_WriteFile F p b m s)"
  by (auto simp: os_WriteFile_def os_Write_def os_NoChange_def syscall_def Let_def split: stage_splits)

lemma Listen_dir:
  assumes "control_Listen F u k c = (None, c')"
  shows "dir_mode (cl_sys c') \<noteq> None"
proof -
  obtain b1 s1 b2 s2 b3 s3 where r: "os_MkdirAll F mode_0750 (cl_sys c) = (b1, s1)"
    "net_Listen F u (Named k) (snd (os_Remove F (Named k) s1)) = (b2, s2)"
    "os_Chmod F (Named k) mode_0660 s2 = (b3, s3)" by (metis surj_pair)
  have "dir_mode s3 \<noteq> None" if "b2"
    using that r(2,3) by (auto simp: net_Listen_def os_Chmod_def syscall_def Let_def split: if_splits option.splits)
  with assms r show ?thesis by (auto simp: control_Listen_def split: bool.splits)
qed

lemma start_succeeds:
  assumes "can_start E c"
  shows "stage ((main_step ^^ 7) (boot E s mk)) = Serving"
proof -
  define m0 where "m0 = boot E s mk"
  have e0: "menv m0 = E" "stage m0 = Boot" by (simp_all add: m0_def boot_def)
  define m1 where "m1 = main_step m0"
  have m1: "stage m1 = Configured" "cfg m1 = c" "menv m1 = E"
    using assms e0 by (auto simp: m1_def main_step_def load_config_def can_start_def Let_def)
  define m2 where "m2 = main_step m1"
  obtain r cl where l: "control_Listen (sys_faults E) (umask_mode E) (sock m1) (ctl m1) = (r, cl)" by (metis surj_pair)
  have rn: "r = None"
    using control_Listen_works [of "sys_faults E" "umask_mode E" "sock m1" "ctl m1"] assms l by (simp add: can_start_def)
  have m2: "m2 = m1\<lparr>ctl := cl, stage := Control_up\<rparr>" using l rn m1 by (simp add: m2_def main_step_def open_control_def)
  have dir: "dir_mode (cl_sys cl) \<noteq> None" using Listen_dir l rn by blast
  define m3 where "m3 = main_step m2"
  have al: "compiledAllowlist \<noteq> []" by (simp add: compiledAllowlist_def compiledWLocHosts_def)
  have m3: "stage m3 = Built" "cfg m3 = c" "menv m3 = E" "ctl m3 = cl"
    "plane_addr (dplane m3) = JoinHostPort (ListenAddr c) (Itoa (ListenPort c))"
    using assms m1 al
    by (auto simp: m3_def m2 main_step_def build_plane_def can_start_def startup_def new_plane_def Let_def split: prod.splits)
  define m4 where "m4 = main_step m3"
  have m4: "stage m4 = Plane_up" "cfg m4 = c" "menv m4 = E" "ctl m4 = cl"
    using assms m3 by (auto simp: m4_def main_step_def start_plane_def can_start_def Ready_def ListenAndServe_def Let_def)
  define m5 where "m5 = main_step m4"
  have m5: "stage m5 = Enroll_up" "cfg m5 = c" "menv m5 = E" "ctl m5 = cl"
    using assms m4 by (auto simp: m5_def main_step_def startEnrollment_def can_start_def)
  define m6 where "m6 = main_step m5"
  obtain ok s6 where w: "os_WriteFile (sys_faults E) (Named ''ready'') ready_text mode_0640 (cl_sys cl) = (ok, s6)"
    by (metis surj_pair)
  then have ok using WriteFile_works [of "sys_faults E" "cl_sys cl"] dir assms by (simp add: can_start_def) (metis fst_conv)
  then have m6: "stage m6 = Marked"
    using m5 w by (simp add: m6_def main_step_def mark_ready_def on_directory_def)
  have "stage (main_step m6) = Serving" by (simp add: main_step_def m6 set_healthy_def)
  moreover have "(main_step ^^ 7) m0 = main_step m6"
    by (simp add: m6_def m5_def m4_def m3_def m2_def m1_def numeral_eq_Suc)
  ultimately show ?thesis by (simp add: m0_def)
qed

lemma valid_upstream:
  assumes "valid_config c"
  shows "fst (SetUpstreamSocks5 (UpstreamSocks5 c) t) = None"
proof (cases "UpstreamSocks5 c = []")
  case False
  then have "validate_socks5 (UpstreamSocks5 c)" using assms by (simp add: valid_config_def)
  then have "\<exists>d. newSOCKS5Dialer (UpstreamSocks5 c) = Inr d"
    by (auto simp: validate_socks5_def newSOCKS5Dialer_def split: option.splits)
  then show ?thesis by (auto simp: SetUpstreamSocks5_def Let_def)
qed (simp add: SetUpstreamSocks5_def)

lemma port_text: "ch \<in> set (Itoa 10443) \<Longrightarrow> is_digit ch"
  using nat_string_val [of 10443] by (auto simp: Itoa_def list_all_iff)

lemma listen_address: "SplitHostPort (JoinHostPort ''0.0.0.0'' (Itoa 10443)) = Some (''0.0.0.0'', Itoa 10443)"
  by (rule SplitHostPort_JoinHostPort) (auto dest!: port_text simp: is_digit_def)

lemma leaves_same:
  assumes "load_pair X = load_pair Y"
  shows "leaves_present X f hosts = leaves_present Y f hosts"
proof -
  have "LoadX509KeyPair X f = LoadX509KeyPair Y f" by (intro ext) (simp add: LoadX509KeyPair_def assms split: option.splits)
  then show ?thesis by (induction hosts) (simp_all split: option.splits)
qed

text \<open>C8: a provisioned gateway starts. Seven stages after it was started any daemon serves or has exited, whatever
  fails; and it serves when its leaf directory is what a successful run of \<open>locspoof-ca\<close> left, its
  configuration file is valid and, if enabled, complete, its ports can be bound and its system calls work,
  whatever an earlier process left in the run directory.\<close>

theorem provisioned_gateway_starts:
  assumes "pki_laws P" and "case loaded_ca P s of Some (anchor, k) \<Rightarrow> clock_now P < NotAfter anchor | None \<Rightarrow> True"
    and "ca_run P F s = (None, s')"
    and "load_pair (certs E) = load_pair P" and "leaf_file E = (\<lambda>host. data_of (host @ ''.pem'') s')"
    and "\<forall>k. works (sys_faults E) k" and "Load (parse_float E) (config_text E) = Inr c" and "Enabled c \<longrightarrow> ProfileSet c"
    and "upstream_flag E = ''''" and "bind4 E 10443 = Some port4" and "bind6 E port4 = Some port6" and "enroll_binds E 10445"
  shows "stage ((main_step ^^ 7) (boot E run_dir mk)) = Serving
    \<and> (\<forall>E' run_dir' mk'. stage ((main_step ^^ 7) (boot E' run_dir' mk')) = Serving
          \<or> (\<exists>k. stage ((main_step ^^ 7) (boot E' run_dir' mk')) = Exited k))"
proof -
  have "ready P s'" by (rule run_establishes_ready [OF assms(1) _ assms(3)]) (use assms(2) in simp)
  then obtain get where "NewServerWithLeaves P (\<lambda>host. data_of (host @ ''.pem'') s') compiledAllowlist = Inr get"
    using ready_serves by blast
  then have "\<exists>get. NewServerWithLeaves (certs E) (leaf_file E) compiledAllowlist = Inr get"
    by (simp add: NewServerWithLeaves_def leaves_same [OF assms(4)] assms(5) split: option.splits)
  moreover have v: "valid_config c" using assms(7) by (rule Load_valid)
  then have "ListenAddr c = ''0.0.0.0''" "ListenPort c = 10443" "ProxyPort c = 10445" by (simp_all add: valid_config_def)
  ultimately have "can_start E c"
    using assms(6-12) valid_upstream [OF v] by (simp add: can_start_def listenDual_def listen_address Atoi_Itoa)
  moreover have "rank st = 7 \<longleftrightarrow> st = Serving" for st by (cases st) simp_all
  ultimately show ?thesis
    using start_succeeds main_steps_stage [of "boot _ _ _" 7] by (simp add: del: funpow.simps)
qed

section \<open>What the control socket can change\<close>

lemma call_marks:
  assumes "call K (control_of m t) ok name \<lparr>h = s, markers = mk, policy_state = p\<rparr> = (r, d)"
  shows "mk \<subseteq> markers d \<and> markers d \<subseteq> insert BypassOnRequest mk \<and> (bypass s \<longrightarrow> bypass (h d))"
proof -
  have "keeps_bypass (control_of m t)" unfolding control_of_def by (rule reload_keeps_bypass)
  note o = call_only_opens [OF this, of "\<lparr>h = s, markers = mk, policy_state = p\<rparr>" K ok name]
  have "allowed_marker (control_of m t) = BypassOnRequest"
    by (simp add: allowed_marker_def control_of_def SetReload_def new_control_with_state_def)
  with o show ?thesis by (simp add: assms only_opens_def)
qed

definition opens_only :: "machine \<Rightarrow> machine \<Rightarrow> bool" where
  "opens_only m m' \<longleftrightarrow> marks m \<subseteq> marks m' \<and> marks m' \<subseteq> insert BypassOnRequest (marks m)"

lemma opens_only_step: "dstep m m' \<Longrightarrow> opens_only m m'"
proof (induction rule: dstep.induct)
  case (main m)
  show ?case
  proof (cases "stage m = Boot")
    case True
    then show ?thesis
      by (auto simp: opens_only_def main_step_def load_config_def log_Fatal_def process_end_def Let_def split: sum.splits)
  next
    case False
    then show ?thesis by (auto simp: opens_only_def main_step_keeps(4))
  qed
next
  case (control_call m t ok name r d)
  then show ?case using call_marks [OF control_call(3)] by (simp add: opens_only_def)
qed (auto simp: opens_only_def process_end_def boot_def)

text \<open>C16: over all its lives the daemon never grants itself interception. In every run with any number of
  restarts, kills and control calls, no marker disappears and the only one that can appear is the request
  to open the bypass; the privileged marker is there exactly if it was there before.\<close>

theorem daemon_never_writes_bypass:
  assumes "dstep\<^sup>*\<^sup>* m m'"
  shows "marks m \<subseteq> marks m' \<and> marks m' \<subseteq> insert BypassOnRequest (marks m) \<and> (Bypass \<in> marks m' \<longleftrightarrow> Bypass \<in> marks m)"
proof -
  have "opens_only m m'"
    using assms
  proof induction
    case (step m1 m2)
    then show ?case using opens_only_step [OF step(2)] by (auto simp: opens_only_def)
  qed (auto simp: opens_only_def)
  then show ?thesis by (auto simp: opens_only_def)
qed

section \<open>What a request gets\<close>

text \<open>The proxy of a machine: the rewriter reads the policy pointer at the time of the request.\<close>

definition proxy_of :: "machine \<Rightarrow> proxy" where
  "proxy_of m = gateway_proxy (rw_env (menv m)) (gz (menv m)) (up_stream (menv m)) (cfg m) (pol m)"

text \<open>C1: a serving daemon answers with the rewrite of its current policy. In every reachable machine that serves,
  after any reloads, control calls and restarts, there is a policy in force, and a WLoc request for an allowlisted
  host (TLS server name and \<open>Host\<close> agree) that finds the data plane idle and gets a complete response from the
  upstream is forwarded once and answered with the upstream's status and exactly \<open>wloc_answer\<close> of the body: without
  a content encoding, what \<open>RewriteBody\<close> makes of it with the profile of that policy; for \<open>gzip\<close>, the unpacked
  body rewritten and packed again. The body comes back unchanged where the policy is disabled, the rewriter
  refuses, the encoding is another one or its codec fails, or the body or its rewrite is longer than
  \<open>MaxBodyBytes\<close>.\<close>

theorem serving_daemon_rewrites:
  assumes "dstep\<^sup>*\<^sup>* (boot E s mk) m" and "stage m = Serving"
    and "TLS r = Some name" and "NormalizeSNI name \<in> set compiledWLocHosts" and "Host r \<noteq> ''''"
    and "NormalizeSNI (host_only (Host r)) = NormalizeSNI name" and "Path r = wloc_path"
    and "up_stream (menv m) (upstream_request r) = Some resp"
    and "lively (RespBody resp)" and "content (RespBody resp) = (b, EOF)"
    and "hn = handle (proxy_of m) r (limits m) (new_writer None)"
  shows "\<exists>n. pol m = Some n \<and> h_server hn = limits m \<and> h_sent hn = [upstream_request r]
    \<and> w_status (h_writer hn) = Some (StatusCode resp)
    \<and> w_body (h_writer hn) = wloc_answer (rw_env (menv m)) (gz (menv m)) n (MaxBodyBytes (cfg m)) (response_encoding resp) b"
proof -
  have l: "limits m = gateway_limits (cfg m)"
    using built.holds [OF assms(1)] assms(2) by (simp add: inv_plane_def is_running_rank)
  obtain n where n: "pol m = Some n" "Enabled n \<longrightarrow> ProfileSet n" and v: "valid_config (cfg m)"
    using fits.holds [OF assms(1)] assms(2) by (auto simp: inv_cfg_def is_running_rank policy_fits_def dest: Load_valid)
  have hn: "hn = handle (gateway_proxy (rw_env (menv m)) (gz (menv m)) (up_stream (menv m)) (cfg m) (Some n)) r
      (gateway_limits (cfg m)) (new_writer None)"
    by (simp add: assms(11) n(1) proxy_of_def l)
  show ?thesis
    using gateway_answers [OF v n(2) assms(3-10) hn] n(1) by (simp add: l)
qed

end
