(* ===== verification/Daemon_Sample.thy ===== *)
theory Daemon_Sample
  imports Daemon_Runs
begin

text \<open>
  A concrete gateway from provisioning to shutdown, on which the daemon's properties are exercised, and the two
  ways to a ready file without a gateway.
\<close>

section \<open>A provisioned machine\<close>

definition sample_leaves :: "string \<Rightarrow> bytes option" where
  "sample_leaves host = data_of (host @ ''.pem'') (snd (ca_run sample_pki all_work empty_directory))"

definition sample_main :: main_env where
  "sample_main = \<lparr>sys_faults = calls_work, umask_mode = 493, parse_float = (\<lambda>s. Some (f_int 0)),
     config_text = Some (text_of (config_lines (\<lambda>x. ''0'') sample_config)), certs = x509.truncate sample_pki,
     leaf_file = sample_leaves, bind4 = (\<lambda>p. Some 10443), bind6 = Some, enroll_binds = (\<lambda>p. True),
     rw_env = sample_env, gz = sample_codec, up_stream = (\<lambda>_. Some wloc_response), upstream_flag = '''',
     health_codecs = sample_codecs,
     activity_disk = \<lparr>stored_file = None, create_ok = True, chmod_ok = True, write_ok = True, sync_ok = True,
       close_ok = True, rename_ok = True\<rparr>,
     activity_path = '''', arp_file = None\<rparr>"

lemma sample_load: "Load (parse_float sample_main) (config_text sample_main) = Inr sample_config"
proof -
  have "ParseUCI (\<lambda>s. Some (f_int 0)) (text_of (config_lines (\<lambda>x. ''0'') sample_config)) = Inr sample_config"
    by (rule config_read_back [OF sample_config_valid sample_config_strings])
      (use sample_config_profile in \<open>simp add: sample_config_def\<close>)
  then show ?thesis by (simp add: sample_main_def Load_def)
qed

lemma sample_load_pair_kept: "load_pair (certs sample_main) = load_pair sample_pki"
  by (simp add: sample_main_def x509.truncate_def)

lemma sample_complete: "Enabled sample_config" "ProfileSet sample_config" "MaxBodyBytes sample_config = 1048576"
  "SocketPath sample_config = ''/var/run/locspoofd/control.sock''"
  by (simp_all add: sample_config_def Default_def)

lemma sample_socket_name: "socket_name (SocketPath sample_config) = ''control.sock''"
  by (simp add: socket_name_def sample_complete)

theorem provisioned_gateway_starts_witness:
  "stage ((main_step ^^ 7) (boot sample_main stale_directory {Bypass})) = Serving"
proof -
  obtain s' where r: "ca_run sample_pki all_work empty_directory = (None, s')" using sample_first_run by blast
  have lf: "leaf_file sample_main = (\<lambda>host. data_of (host @ ''.pem'') s')"
    by (simp add: sample_main_def sample_leaves_def fun_eq_iff r)
  have w: "\<forall>k. works (sys_faults sample_main) k" by (simp add: sample_main_def calls_work_def)
  have b: "upstream_flag sample_main = ''''" "bind4 sample_main 10443 = Some 10443" "bind6 sample_main 10443 = Some 10443"
    "enroll_binds sample_main 10445" by (simp_all add: sample_main_def)
  show ?thesis
    using provisioned_gateway_starts [OF sample_laws _ r sample_load_pair_kept lf w sample_load _ b]
    by (simp add: empty_no_ca sample_complete del: funpow.simps)
qed

section \<open>Reaching a stage\<close>

lemma main_reaches: "dstep\<^sup>*\<^sup>* m ((main_step ^^ n) m)"
proof (induction n)
  case (Suc n)
  let ?m = "(main_step ^^ n) m"
  have "dstep\<^sup>*\<^sup>* ?m (main_step ?m)"
  proof (cases "is_running ?m \<and> stage ?m \<noteq> Serving")
    case True
    then show ?thesis by (auto intro: dstep.main)
  next
    case False
    then have "main_step ?m = ?m" by (cases "stage ?m") (auto simp: main_step_def is_running_def)
    then show ?thesis by simp
  qed
  with Suc show ?case by (simp add: rtranclp_trans)
qed simp

text \<open>The same start, from the lemmas.\<close>

lemma sample_can_start: "can_start sample_main sample_config"
proof -
  obtain s' where r: "ca_run sample_pki all_work empty_directory = (None, s')" using sample_first_run by blast
  have "ready sample_pki s'" by (rule run_establishes_ready [OF sample_laws _ r]) (simp add: empty_no_ca)
  moreover have "sample_leaves = (\<lambda>host. data_of (host @ ''.pem'') s')" by (simp add: sample_leaves_def fun_eq_iff r)
  ultimately obtain get where "NewServerWithLeaves sample_pki sample_leaves compiledAllowlist = Inr get"
    using ready_serves by metis
  then have "\<exists>get. NewServerWithLeaves (certs sample_main) sample_leaves compiledAllowlist = Inr get"
    by (simp add: NewServerWithLeaves_def leaves_same [OF sample_load_pair_kept] split: option.splits)
  moreover have "leaf_file sample_main = sample_leaves" "upstream_flag sample_main = ''''" "bind4 sample_main 10443 = Some 10443"
    "bind6 sample_main 10443 = Some 10443" "enroll_binds sample_main 10445" "\<And>k. works (sys_faults sample_main) k"
    by (simp_all add: sample_main_def calls_work_def)
  moreover have "ListenAddr sample_config = ''0.0.0.0''" "ListenPort sample_config = 10443" "ProxyPort sample_config = 10445"
    by (simp_all add: sample_config_def Default_def)
  ultimately show ?thesis
    using sample_load sample_complete valid_upstream [OF sample_config_valid]
    by (simp add: can_start_def listenDual_def listen_address Atoi_Itoa)
qed

lemma sample_serves:
  "\<exists>m. dstep\<^sup>*\<^sup>* (boot sample_main s mk) m \<and> stage m = Serving \<and> menv m = sample_main \<and> cfg m = sample_config
     \<and> pol m = Some sample_config \<and> serve_err m = None"
proof -
  let ?m = "(main_step ^^ 7) (boot sample_main s mk)"
  let ?m1 = "load_config (boot sample_main s mk)"
  have m1: "stage ?m1 = Configured" "cfg ?m1 = sample_config" "pol ?m1 = Some sample_config" "menv ?m1 = sample_main"
    using sample_load by (simp_all add: load_config_def boot_def sample_complete newRuntimePolicy_def policy_Store_def Let_def)
  have keep: "stage m' \<noteq> Boot \<Longrightarrow> stage ((main_step ^^ n) m') \<noteq> Boot \<and> cfg ((main_step ^^ n) m') = cfg m'
      \<and> pol ((main_step ^^ n) m') = pol m' \<and> menv ((main_step ^^ n) m') = menv m' \<and> serve_err ((main_step ^^ n) m') = serve_err m'" for n m'
  proof (induction n)
    case (Suc n)
    let ?k = "(main_step ^^ n) m'"
    have k: "stage ?k \<noteq> Boot" using Suc by blast
    have "serve_err (main_step ?k) = serve_err ?k"
      using k by (cases "stage ?k"; auto simp: main_step_def stage_defs Let_def split: stage_splits)
    moreover have "stage (main_step ?k) \<noteq> Boot"
    proof (cases "is_running ?k \<and> stage ?k \<noteq> Serving")
      case True
      then show ?thesis using main_step_stage [of ?k] by (metis nat.distinct(1) rank.simps(1) stage.distinct(19))
    next
      case False
      then have "main_step ?k = ?k" by (cases "stage ?k") (auto simp: main_step_def is_running_def)
      then show ?thesis using k by simp
    qed
    ultimately show ?case using Suc main_step_keeps(1-3) [OF k] by simp
  qed simp
  have "?m = (main_step ^^ 6) ?m1"
    using funpow_Suc_right [of 6 main_step] by (simp add: main_step_def del: funpow.simps)
  with keep [of ?m1 6] m1 start_succeeds [OF sample_can_start, of s mk] main_reaches [of "boot sample_main s mk" 7]
  show ?thesis
    by (intro exI [of _ ?m]) (simp add: load_config_def boot_def sample_load sample_complete Let_def del: funpow.simps)
qed

section \<open>The properties at work\<close>

theorem healthy_means_serving_witness:
  "\<exists>m. dstep\<^sup>*\<^sup>* (boot sample_main stale_directory {}) m \<and> healthy (hs m) \<and> listening (ctl m) \<and> both_bound (dplane m)
     \<and> data_of ''ready'' (cl_sys (ctl m)) = Some ready_text"
proof -
  obtain m where m: "dstep\<^sup>*\<^sup>* (boot sample_main stale_directory {}) m" "stage m = Serving" "cfg m = sample_config"
    "serve_err m = None" using sample_serves by blast
  have "is_running m" by (simp add: is_running_rank m(2))
  from healthy_means_serving [OF m(1) this] m show ?thesis by (intro exI [of _ m]) simp
qed

lemma sample_stops: "\<exists>m. dstep\<^sup>*\<^sup>* (boot sample_main s mk) m \<and> stage m = Stopping False \<and> menv m = sample_main \<and> cfg m = sample_config"
proof -
  obtain m where m: "dstep\<^sup>*\<^sup>* (boot sample_main s mk) m" "stage m = Serving" "menv m = sample_main" "cfg m = sample_config"
    using sample_serves by blast
  from m(1) select_signal [OF m(2)] have "dstep\<^sup>*\<^sup>* (boot sample_main s mk) (m\<lparr>stage := Stopping False\<rparr>)"
    by (rule rtranclp.rtrancl_into_rtrancl)
  then show ?thesis using m by (intro exI [of _ "m\<lparr>stage := Stopping False\<rparr>"]) simp
qed

theorem shutdown_leaves_nothing_witness:
  "\<exists>m. dstep\<^sup>*\<^sup>* (boot sample_main stale_directory {}) m \<and> stage m = Exited 0
     \<and> data_of ''ready'' (cl_sys (ctl m)) = None \<and> data_of ''control.sock'' (cl_sys (ctl m)) = None"
proof -
  obtain m where m: "dstep\<^sup>*\<^sup>* (boot sample_main stale_directory {}) m" "stage m = Stopping False" "menv m = sample_main"
    "cfg m = sample_config" using sample_stops by blast
  have "(main_step ^^ 2) m = main_step (main_step m)" by (simp add: numeral_2_eq_2)
  then have "dstep\<^sup>*\<^sup>* m (main_step (main_step m))" using main_reaches [of m 2] by simp
  then have "dstep\<^sup>*\<^sup>* (boot sample_main stale_directory {}) (main_step (main_step m))" using m(1) by simp
  moreover have "\<forall>k. works (sys_faults sample_main) k" by (simp add: sample_main_def calls_work_def)
  ultimately show ?thesis
    using shutdown_leaves_nothing [OF m(1,2) refl] by (auto simp: m(3,4) sample_socket_name)
qed

theorem daemon_never_writes_bypass_witness:
  "\<exists>m. dstep\<^sup>*\<^sup>* (boot sample_main stale_directory {Bypass}) m \<and> stage m = Serving \<and> Bypass \<in> marks m"
proof -
  obtain m where m: "dstep\<^sup>*\<^sup>* (boot sample_main stale_directory {Bypass}) m" "stage m = Serving"
    using sample_serves by blast
  with daemon_never_writes_bypass [OF m(1)] show ?thesis by (auto simp: boot_def)
qed

theorem serving_daemon_rewrites_witness:
  "\<exists>m. dstep\<^sup>*\<^sup>* (boot sample_main stale_directory {}) m
     \<and> w_status (h_writer (handle (proxy_of m) wloc_request (limits m) (new_writer None))) = Some 200
     \<and> w_body (h_writer (handle (proxy_of m) wloc_request (limits m) (new_writer None)))
         = wloc_answer (rw_env sample_main) (gz sample_main) sample_config (MaxBodyBytes sample_config) '''' sample_body"
proof -
  obtain m where m: "dstep\<^sup>*\<^sup>* (boot sample_main stale_directory {}) m" "stage m = Serving" "menv m = sample_main"
    "cfg m = sample_config" "pol m = Some sample_config" using sample_serves by blast
  have up: "up_stream (menv m) (upstream_request wloc_request) = Some wloc_response" by (simp add: m(3) sample_main_def)
  have b: "lively (RespBody wloc_response)" "content (RespBody wloc_response) = (sample_body, EOF)"
    by (simp_all add: wloc_response_def lively_def)
  have "NormalizeSNI ''gs-loc.apple.com'' \<in> set compiledWLocHosts"
    by (simp add: wloc_sample(1), simp add: compiledWLocHosts_def)
  with serving_daemon_rewrites [OF m(1,2) _ _ _ _ _ up b refl, of "''gs-loc.apple.com''"] wloc_sample m
  show ?thesis by (intro exI [of _ m]) (simp add: wloc_request_def, simp add: wloc_response_def)
qed

section \<open>A ready file without a gateway\<close>

text \<open>
  A killed daemon leaves its ready file. The process that the supervisor starts in its place does not remove it: it
  listens on the control socket, with the ready file there, before any data listener is bound.
\<close>

lemma stale_ready_file:
  "\<exists>m. dstep\<^sup>*\<^sup>* (boot sample_main stale_directory {}) m \<and> stage m = Control_up \<and> listening (ctl m)
     \<and> data_of ''ready'' (cl_sys (ctl m)) = Some ready_text \<and> raw_listeners (plane_front (dplane m)) = []"
proof -
  obtain m where m: "dstep\<^sup>*\<^sup>* (boot sample_main stale_directory {}) m" "stage m = Serving" using sample_serves by blast
  let ?k = "process_end Killed m" and ?b = "boot sample_main (cl_sys (ctl m)) (marks m)"
  have "dstep m ?k" by (rule killed) (simp add: is_running_rank m(2))
  moreover have "dstep ?k ?b"
    using restart [of ?k sample_main] by (simp add: process_end_def is_running_def)
  ultimately have b: "dstep\<^sup>*\<^sup>* (boot sample_main stale_directory {}) ?b" using m(1) by simp
  let ?l = "main_step (main_step ?b)"
  have r: "dstep\<^sup>*\<^sup>* (boot sample_main stale_directory {}) ?l"
    using b main_reaches [of ?b 2] by (simp add: numeral_2_eq_2 del: rtranclp_idemp)
  obtain c where l: "control_Listen calls_work 493 ''control.sock'' (ctl ?b) = (None, c)"
    using control_Listen_works [of calls_work 493 "''control.sock''" "ctl ?b"] by (metis calls_work_def faults.select_convs(1) prod.collapse)
  have "main_step ?b = load_config ?b" by (simp add: main_step_def)
  moreover have "stage (load_config ?b) = Configured" "cfg (load_config ?b) = sample_config" "menv (load_config ?b) = sample_main"
    "ctl (load_config ?b) = ctl ?b" "dplane (load_config ?b) = dplane ?b"
    using sample_load by (simp_all add: load_config_def boot_def sample_complete Let_def)
  moreover have "sys_faults sample_main = calls_work" "umask_mode sample_main = 493" by (simp_all add: sample_main_def)
  ultimately have s: "stage ?l = Control_up" "ctl ?l = c" "dplane ?l = dplane ?b"
    using l by (simp_all add: main_step_def open_control_def sample_socket_name)
  have "data_of ''ready'' (cl_sys (ctl m)) = Some ready_text"
    using marked.holds [OF m(1)] by (simp add: inv_ready_def is_running_rank m(2))
  then have "data_of ''ready'' (cl_sys c) = Some ready_text"
    using control_Listen_spec(3) [OF l, of "Named ''ready''"] by (simp add: data_of_def boot_def)
  with r s control_Listen_spec(1) [OF l] show ?thesis
    by (intro exI [of _ ?l]) (simp add: boot_def new_plane_def)
qed

text \<open>A write of the ready file that fails after the file was created ends the daemon and leaves the file.\<close>

lemma failed_mark_leaves_ready:
  assumes "works (sys_faults (menv m)) (calls_made (cl_sys (ctl m)))"
    and "\<not> works (sys_faults (menv m)) (Suc (calls_made (cl_sys (ctl m))))" and "dir_mode (cl_sys (ctl m)) \<noteq> None"
  shows "stage (mark_ready m) = Exited 1 \<and> data_of ''ready'' (cl_sys (ctl (mark_ready m))) \<noteq> None"
  using assms
  by (auto simp: mark_ready_def on_directory_def os_WriteFile_def os_Write_def os_NoChange_def syscall_def Let_def
      data_of_def log_Fatal_def process_end_def split: stage_splits)

end
