(* ===== verification/Commands.thy ===== *)
theory Commands
  imports Runtime
begin

text \<open>
  The command line tools: \<open>cmd/locspoof-timeout\<close>, \<open>cmd/locspoof-elevation\<close>, \<open>cmd/locspoof-control\<close> and
  \<open>cmd/locspoof-health\<close>, each as the function from what it is given to its exit code, and the two clients of
  the control socket against the server's model.

  How a child process ends, the HTTP client, number formatting and JSON are arguments.
\<close>

section \<open>\<open>locspoof-timeout\<close>\<close>

definition maxTimeoutSeconds :: int where "maxTimeoutSeconds = 60"

datatype arguments_error = Usage | TimeoutRange

definition parseArguments :: "string list \<Rightarrow> arguments_error + int \<times> string \<times> string list" where
  "parseArguments arguments =
     (case arguments of
        secs # command # rest \<Rightarrow>
          (case Atoi secs of
             None \<Rightarrow> Inl TimeoutRange
           | Some n \<Rightarrow> if n < 1 \<or> n > maxTimeoutSeconds then Inl TimeoutRange else Inr (n, command, rest))
      | _ \<Rightarrow> Inl Usage)"

datatype context_error = DeadlineExceeded | Canceled

text \<open>
  The error of \<open>runCommand\<close>; the exit code of a process that a signal ended is -1. \<open>ctx_err\<close> is the context's
  error when \<open>process.Run\<close> has returned \<open>run_result\<close>.
\<close>

datatype run_error = ContextError context_error | ExitError int | StartError

definition runCommand :: "context_error option \<Rightarrow> run_error option \<Rightarrow> run_error option" where
  "runCommand ctx_err run_result =
     (case ctx_err of Some e \<Rightarrow> Some (ContextError e) | None \<Rightarrow> run_result)"

definition timeout_exit :: "run_error option \<Rightarrow> int" where
  "timeout_exit err =
     (case err of
        None \<Rightarrow> 0
      | Some e \<Rightarrow>
          if e = ContextError DeadlineExceeded then 124
          else (case e of ExitError code \<Rightarrow> if code \<ge> 0 then code else 125 | _ \<Rightarrow> 125))"

text \<open>\<open>main\<close>; \<open>run\<close> is the command under the deadline of that many seconds.\<close>

definition timeout_main ::
  "string list \<Rightarrow> (int \<Rightarrow> string \<Rightarrow> string list \<Rightarrow> context_error option \<times> run_error option) \<Rightarrow> int"
where
  "timeout_main arguments run =
     (case parseArguments arguments of
        Inl e \<Rightarrow> 2
      | Inr (seconds, command, rest) \<Rightarrow>
          (case run seconds command rest of (ctx_err, run_result) \<Rightarrow> timeout_exit (runCommand ctx_err run_result)))"

lemma parseArguments_Inr:
  "parseArguments args = Inr (n, command, rest) \<longleftrightarrow>
   (\<exists>secs. args = secs # command # rest \<and> Atoi secs = Some n \<and> 1 \<le> n \<and> n \<le> 60)"
  by (auto simp: parseArguments_def maxTimeoutSeconds_def split: list.splits option.splits if_splits)

text \<open>\<open>locspoof-timeout\<close> passes the command's verdict on. It runs the command only with a deadline of 1 to 60
  seconds, reports 124 when the deadline passed whatever the command returned, the command's own code when it
  exited in time, 125 when it could not run or died of a signal, and 2 without running anything otherwise.\<close>

theorem timeout_reports:
  "timeout_main args run =
     (case args of
        secs # command # rest \<Rightarrow>
          (if \<exists>n. Atoi secs = Some n \<and> 1 \<le> n \<and> n \<le> 60 then
             (case run (the (Atoi secs)) command rest of
                (Some DeadlineExceeded, _) \<Rightarrow> 124
              | (Some Canceled, _) \<Rightarrow> 125
              | (None, None) \<Rightarrow> 0
              | (None, Some (ExitError code)) \<Rightarrow> (if code < 0 then 125 else code)
              | (None, Some (ContextError DeadlineExceeded)) \<Rightarrow> 124
              | (None, Some _) \<Rightarrow> 125)
           else 2)
      | _ \<Rightarrow> 2)"
  by (auto simp: timeout_main_def parseArguments_def maxTimeoutSeconds_def timeout_exit_def runCommand_def
      split: list.splits option.splits prod.splits run_error.splits context_error.splits)

section \<open>\<open>locspoof-elevation\<close>\<close>

definition elevationEndpoint :: string where
  "elevationEndpoint = ''https://api.open-meteo.com/v1/elevation''"

text \<open>The value of the range checks: false for a number that is not one.\<close>

definition coordinate :: "(string \<Rightarrow> float64 option) \<Rightarrow> int \<Rightarrow> string \<Rightarrow> float64 option" where
  "coordinate parse_float bound s =
     (case parse_float s of
        None \<Rightarrow> None
      | Some v \<Rightarrow> if f_less v (f_int (- bound)) \<or> f_less (f_int bound) v then None else Some v)"

text \<open>\<open>url.QueryEscape\<close>, and the query of two parameters in the order of \<open>Encode\<close>.\<close>

definition unreserved :: "char \<Rightarrow> bool" where
  "unreserved ch \<longleftrightarrow> 48 \<le> cb ch \<and> cb ch \<le> 57 \<or> 65 \<le> cb ch \<and> cb ch \<le> 90 \<or> 97 \<le> cb ch \<and> cb ch \<le> 122
     \<or> ch \<in> set ''-_.~''"

definition QueryEscape :: "string \<Rightarrow> string" where
  "QueryEscape s =
     concat (map (\<lambda>ch. if unreserved ch then [ch] else if ch = CHR '' '' then ''+''
                       else [CHR ''%'', ''0123456789ABCDEF'' ! (cb ch div 16), ''0123456789ABCDEF'' ! (cb ch mod 16)]) s)"

definition elevation_url :: "(float64 \<Rightarrow> string) \<Rightarrow> string \<Rightarrow> float64 \<Rightarrow> float64 \<Rightarrow> string" where
  "elevation_url format endpoint latitude longitude =
     endpoint @ ''?latitude='' @ QueryEscape (format latitude) @ ''&longitude='' @ QueryEscape (format longitude)"

datatype elevation_error = RequestFailed | ServiceStatus int | InvalidResponse

text \<open>
  \<open>get\<close> is the HTTP client: the status and the body, or \<open>None\<close>. \<open>decode\<close> is the JSON decoder on the part of
  the body that the limit lets through: the list under \<open>elevation\<close>.
\<close>

definition elevation_limit :: nat where "elevation_limit = 65536"

definition fetchElevation ::
  "(string \<Rightarrow> (int \<times> bytes) option) \<Rightarrow> (bytes \<Rightarrow> float64 list option) \<Rightarrow> (float64 \<Rightarrow> string) \<Rightarrow> string
     \<Rightarrow> float64 \<Rightarrow> float64 \<Rightarrow> elevation_error + float64"
where
  "fetchElevation get decode format endpoint latitude longitude =
     (case get (elevation_url format endpoint latitude longitude) of
        None \<Rightarrow> Inl RequestFailed
      | Some (status, page) \<Rightarrow>
          if status \<noteq> 200 then Inl (ServiceStatus status)
          else (case decode (take elevation_limit page) of
             Some [e] \<Rightarrow> Inr e
           | _ \<Rightarrow> Inl InvalidResponse))"

text \<open>\<open>main\<close>: the exit code, and the elevation it prints.\<close>

definition elevation_main ::
  "(string \<Rightarrow> float64 option) \<Rightarrow> (string \<Rightarrow> (int \<times> bytes) option) \<Rightarrow> (bytes \<Rightarrow> float64 list option) \<Rightarrow> (float64 \<Rightarrow> string)
     \<Rightarrow> string list \<Rightarrow> int \<times> float64 option"
where
  "elevation_main parse_float get decode format args =
     (case args of
        [lat, lon] \<Rightarrow>
          (case coordinate parse_float 90 lat of
             None \<Rightarrow> (2, None)
           | Some latitude \<Rightarrow>
               (case coordinate parse_float 180 lon of
                  None \<Rightarrow> (2, None)
                | Some longitude \<Rightarrow>
                    (case fetchElevation get decode format elevationEndpoint latitude longitude of
                       Inl e \<Rightarrow> (1, None)
                     | Inr e \<Rightarrow> (0, Some e))))
      | _ \<Rightarrow> (2, None))"

lemma elevation_prints:
  "elevation_main pf get decode format args = (0, Some e) \<Longrightarrow>
   \<exists>lat lon latitude longitude page. args = [lat, lon] \<and> coordinate pf 90 lat = Some latitude
     \<and> coordinate pf 180 lon = Some longitude \<and> get (elevation_url format elevationEndpoint latitude longitude) = Some (200, page)
     \<and> decode (take elevation_limit page) = Some [e]"
  by (auto simp: elevation_main_def fetchElevation_def split: list.splits option.splits sum.splits prod.splits if_splits)

text \<open>A number that is not one passes the range checks.\<close>

lemma NaN_coordinate: "pf s = Some NaN \<Longrightarrow> coordinate pf bound s = Some NaN"
  by (simp add: coordinate_def f_less.simps f_int_def)

section \<open>The clients of the control socket\<close>

definition empty_object :: bytes where "empty_object = [123, 125]"

definition Request :: "(request_msg \<Rightarrow> bytes option) \<Rightarrow> string \<Rightarrow> (bytes \<Rightarrow> stream) \<Rightarrow> bytes option" where
  "Request enc_request method peer = RequestWithParams enc_request method (Some empty_object) peer"

text \<open>
  \<open>dial\<close> is \<open>None\<close> where the socket cannot be reached. \<open>dec_ok\<close> is the field \<open>ok\<close> of a response, \<open>dec_health\<close>
  that field and \<open>result.healthy\<close>.
\<close>

record client_json =
  enc_request :: "request_msg \<Rightarrow> bytes option"
  dec_ok :: "bytes \<Rightarrow> bool option"
  dec_health :: "bytes \<Rightarrow> (bool \<times> bool) option"

definition dialled_request :: "client_json \<Rightarrow> string \<Rightarrow> (bytes \<Rightarrow> stream) option \<Rightarrow> bytes option" where
  "dialled_request C method dial = (case dial of None \<Rightarrow> None | Some peer \<Rightarrow> Request (enc_request C) method peer)"

definition control_main :: "client_json \<Rightarrow> string list \<Rightarrow> (bytes \<Rightarrow> stream) option \<Rightarrow> int" where
  "control_main C args dial =
     (if args \<noteq> [''reload''] then 2
      else (case dialled_request C ''reload'' dial of
        None \<Rightarrow> 1
      | Some b \<Rightarrow> (case dec_ok C b of None \<Rightarrow> 1 | Some ok \<Rightarrow> if ok then 0 else 1)))"

definition parseHealthyResponse :: "client_json \<Rightarrow> bytes \<Rightarrow> bool" where
  "parseHealthyResponse C b = (case dec_health C b of None \<Rightarrow> False | Some (ok, fine) \<Rightarrow> ok \<and> fine)"

text \<open>The exit code, and what is printed.\<close>

definition health_main :: "client_json \<Rightarrow> (bytes \<Rightarrow> stream) option \<Rightarrow> int \<times> bytes option" where
  "health_main C dial =
     (case dialled_request C ''health'' dial of
        None \<Rightarrow> (1, None)
      | Some b \<Rightarrow> if parseHealthyResponse C b then (0, Some b) else (1, None))"

section \<open>A client and the daemon\<close>

text \<open>The bytes the daemon answers a request with on a connection of its own, whose client then closes it.\<close>

definition daemon_peer ::
  "codecs \<Rightarrow> json \<Rightarrow> 'p control_server \<Rightarrow> (nat \<Rightarrow> bool) \<Rightarrow> 'p daemon \<Rightarrow> bytes \<Rightarrow> stream"
where
  "daemon_peer K J cs ok d f = [(fst (handle_control K J cs ok [(f, Some EOF)] d), None)]"

text \<open>What both sides rely on of \<open>encoding/json\<close> for one request and its response.\<close>

definition json_agrees :: "client_json \<Rightarrow> json \<Rightarrow> request_msg \<Rightarrow> response_msg \<Rightarrow> bool" where
  "json_agrees C J q r \<longleftrightarrow>
     (\<exists>b. enc_request C q = Some b \<and> b \<noteq> [] \<and> length b \<le> maxControlMessage \<and> dec_request J b = Some q)
     \<and> (\<exists>b. enc_response J r = Some b \<and> b \<noteq> [] \<and> length b \<le> maxControlMessage \<and> dec_ok C b = Some (r_OK r)
          \<and> dec_health C b = Some (r_OK r, case r_Result r of Some (StatusResult s) \<Rightarrow> s_Healthy s | _ \<Rightarrow> False))"

text \<open>The same without a bound on the response: what \<open>encoding/json\<close> does with a response of any size.\<close>

definition json_codes :: "client_json \<Rightarrow> json \<Rightarrow> request_msg \<Rightarrow> response_msg \<Rightarrow> bool" where
  "json_codes C J q r \<longleftrightarrow>
     (\<exists>b. enc_request C q = Some b \<and> b \<noteq> [] \<and> length b \<le> maxControlMessage \<and> dec_request J b = Some q)
     \<and> (\<exists>b. enc_response J r = Some b \<and> b \<noteq> [] \<and> dec_ok C b = Some (r_OK r)
          \<and> dec_health C b = Some (r_OK r, case r_Result r of Some (StatusResult s) \<Rightarrow> s_Healthy s | _ \<Rightarrow> False))"

lemma json_agrees_codes:
  "json_agrees C J q r \<longleftrightarrow> json_codes C J q r \<and> (\<forall>b. enc_response J r = Some b \<longrightarrow> length b \<le> maxControlMessage)"
  by (auto simp: json_agrees_def json_codes_def)

definition local_request :: "string \<Rightarrow> request_msg" where
  "local_request method = \<lparr>q_Version = 1, q_ID = ''local'', q_Method = method, q_Action = '''', q_Params = empty_object\<rparr>"

text \<open>The daemon's answer to the first request of a connection.\<close>

definition first_answer :: "codecs \<Rightarrow> 'p control_server \<Rightarrow> (nat \<Rightarrow> bool) \<Rightarrow> request_msg \<Rightarrow> 'p daemon \<Rightarrow> response_msg \<times> 'p daemon" where
  "first_answer K cs ok q d =
     (case call K cs (ok (maxRequests - 1)) (method_of q) (d\<lparr>h := AddConnection (h d)\<rparr>) of
        (r, d) \<Rightarrow> (response_to q r, d\<lparr>h := DoneConnection (h d)\<rparr>))"

lemma exchange_any_size:
  assumes "json_codes C J (local_request method) (fst (first_answer K cs ok (local_request method) d))"
    and "enc_request C (local_request method) = Some q"
    and "enc_response J (fst (first_answer K cs ok (local_request method) d)) = Some b"
  shows "dialled_request C method (Some (daemon_peer K J cs ok d)) = (if length b \<le> maxControlMessage then Some b else None)
    \<and> snd (handle_control K J cs ok [(put32 (length q) @ q, Some EOF)] d) = snd (first_answer K cs ok (local_request method) d)"
proof -
  let ?q = "local_request method" and ?r = "fst (first_answer K cs ok (local_request method) d)"
  have q: "q \<noteq> []" "length q \<le> maxControlMessage" "dec_request J q = Some ?q" and b: "b \<noteq> []"
    using assms by (auto simp: json_codes_def)
  obtain x d1 where c: "call K cs (ok (maxRequests - 1)) (method_of ?q) (d\<lparr>h := AddConnection (h d)\<rparr>) = (x, d1)"
    by (metis surj_pair)
  then have fa: "?r = response_to ?q x" "snd (first_answer K cs ok ?q d) = d1\<lparr>h := DoneConnection (h d1)\<rparr>"
    by (simp_all add: first_answer_def)
  have "handle_loop K J cs ok maxRequests [(put32 (length q) @ q, Some EOF)] d' = calls K cs ok maxRequests [?q] d'" for d'
    using handle_loop_calls [of "[(put32 (length q) @ q, Some EOF)]" "[(q, ?q)]" J K cs ok maxRequests d'] q by simp
  then have hc: "handle_control K J cs ok [(put32 (length q) @ q, Some EOF)] d =
      (sent_frames J [response_to ?q x], d1\<lparr>h := DoneConnection (h d1)\<rparr>)"
    using c by (simp add: handle_control_def maxRequests_def numeral_eq_Suc)
  have "sent_frames J [response_to ?q x] = (if length b \<le> maxControlMessage then put32 (length b) @ b else [])"
    using assms(3) fa(1) by (simp add: sent_frames_def writeFrame_def)
  then have "fst (readFrame (daemon_peer K J cs ok d (put32 (length q) @ q)))
      = (if length b \<le> maxControlMessage then Some b else None)"
    using readFrame_frame [of b "[(put32 (length b) @ b, None)]" "[]"] readFrame_end [of "[([], None)]"] b hc
    by (auto simp: daemon_peer_def)
  then have "dialled_request C method (Some (daemon_peer K J cs ok d)) = (if length b \<le> maxControlMessage then Some b else None)"
    using assms(2) q by (simp add: dialled_request_def Request_def RequestWithParams_def writeFrame_def local_request_def)
  then show ?thesis using hc fa(2) by simp
qed

lemma exchange:
  assumes "json_agrees C J (local_request method) (fst (first_answer K cs ok (local_request method) d))"
    and "enc_request C (local_request method) = Some q"
  shows "\<exists>b. dialled_request C method (Some (daemon_peer K J cs ok d)) = Some b
    \<and> enc_response J (fst (first_answer K cs ok (local_request method) d)) = Some b
    \<and> snd (handle_control K J cs ok [(put32 (length q) @ q, Some EOF)] d) = snd (first_answer K cs ok (local_request method) d)"
proof -
  from assms(1) obtain b where "enc_response J (fst (first_answer K cs ok (local_request method) d)) = Some b"
    "length b \<le> maxControlMessage" by (auto simp: json_agrees_def)
  with exchange_any_size [OF _ assms(2) this(1)] assms(1) show ?thesis by (auto simp: json_agrees_codes)
qed

lemma health_exit:
  assumes "json_codes C J (local_request ''health'') (fst (first_answer K cs ok (local_request ''health'') d))"
    and "enc_response J (fst (first_answer K cs ok (local_request ''health'') d)) = Some b"
  shows "health_main C (Some (daemon_peer K J cs ok d)) =
      (if healthy (h d) \<and> length b \<le> maxControlMessage then (0, Some b) else (1, None))
    \<and> snd (first_answer K cs ok (local_request ''health'') d) = d"
proof -
  obtain q where "enc_request C (local_request ''health'') = Some q" using assms(1) by (auto simp: json_codes_def)
  note x = exchange_any_size [OF assms(1) this assms(2)]
  have "fst (first_answer K cs ok (local_request ''health'') d) =
      response_to (local_request ''health'') (fst (call K cs (ok (maxRequests - 1)) ''health'' (d\<lparr>h := AddConnection (h d)\<rparr>)))"
    by (simp add: first_answer_def method_of_def local_request_def split: prod.splits)
  then have "dec_health C b = Some (True, healthy (h d))"
    using assms
    by (auto simp: json_codes_def response_to_def call_def Snapshot_def AddConnection_def Let_def split: if_splits)
  moreover have "snd (first_answer K cs ok (local_request ''health'') d) = d"
    by (simp add: first_answer_def method_of_def local_request_def call_def Let_def AddConnection_def DoneConnection_def)
  ultimately show ?thesis using x by (simp add: health_main_def parseHealthyResponse_def)
qed

text \<open>C34: \<open>locspoof-health\<close> tells whether the daemon is healthy. Against the daemon's control socket it exits with 0,
  and prints the response, exactly if the daemon's health state says healthy and the encoded response keeps to
  the 256 KiB of a frame; otherwise it exits with 1 and prints nothing. Asking changes nothing but a counter
  that is given back. The encoding may have any size: the maps of client activity in a snapshot grow without
  bound, and a healthy daemon whose snapshot has outgrown the frame is reported as unhealthy.\<close>

theorem health_command_exact:
  assumes "json_codes C J (local_request ''health'') (fst (first_answer K cs ok (local_request ''health'') d))"
    and "enc_response J (fst (first_answer K cs ok (local_request ''health'') d)) = Some b"
  shows "health_main C (Some (daemon_peer K J cs ok d)) =
      (if healthy (h d) \<and> length b \<le> maxControlMessage then (0, Some b) else (1, None))
    \<and> snd (first_answer K cs ok (local_request ''health'') d) = d"
  by (rule health_exit [OF assms])

lemma healthy_daemon_reported_unhealthy:
  assumes "json_codes C J (local_request ''health'') (fst (first_answer K cs ok (local_request ''health'') d))"
    and "enc_response J (fst (first_answer K cs ok (local_request ''health'') d)) = Some b"
    and "healthy (h d)" and "maxControlMessage < length b"
  shows "fst (health_main C (Some (daemon_peer K J cs ok d))) = 1"
  using health_exit [OF assms(1,2)] assms(4) by simp

text \<open>C33: \<open>locspoof-control reload\<close> tells whether the configuration was replaced. Against the daemon it exits with 0
  exactly if the reload file holds a valid, enabled and complete configuration that fits the running data
  plane, and then that configuration is the policy in force; otherwise the policy is what it was.\<close>

theorem control_command_exact:
  assumes "cs = SetReload (reload_config pf reload_text current) new_control_with_state"
    and "json_agrees C J (local_request ''reload'') (fst (first_answer K cs ok (local_request ''reload'') d))"
  shows "if control_main C [''reload''] (Some (daemon_peer K J cs ok d)) = 0
    then \<exists>c. Load pf reload_text = Inr c \<and> Enabled c \<and> ProfileSet c \<and> hotReloadCompatible current c
      \<and> policy_state (snd (first_answer K cs ok (local_request ''reload'') d)) = Some c
    else (\<nexists>c. Load pf reload_text = Inr c \<and> Enabled c \<and> ProfileSet c \<and> hotReloadCompatible current c)
      \<and> policy_state (snd (first_answer K cs ok (local_request ''reload'') d)) = policy_state d"
proof -
  let ?q = "local_request ''reload''"
  obtain q where "enc_request C ?q = Some q" using assms(2) by (auto simp: json_agrees_def)
  then obtain b where b: "dialled_request C ''reload'' (Some (daemon_peer K J cs ok d)) = Some b"
    "enc_response J (fst (first_answer K cs ok ?q d)) = Some b"
    using exchange [OF assms(2)] by blast
  obtain e p hs where f: "reload_config pf reload_text current (policy_state d, AddConnection (h d)) = (e, p, hs)"
    by (metis prod_cases3)
  have fa: "first_answer K cs ok ?q d =
      (response_to ?q (case e of Some t \<Rightarrow> Inl (ReloadFailed t) | None \<Rightarrow> Inr ReloadedResult),
       d\<lparr>policy_state := p, h := DoneConnection hs\<rparr>)"
    by (simp add: first_answer_def assms(1) SetReload_def method_of_def local_request_def call_def f)
  have "dec_ok C b = Some (e = None)"
    using assms(2) b(2) by (auto simp: json_agrees_def fa response_to_def split: option.splits)
  then have "control_main C [''reload''] (Some (daemon_peer K J cs ok d)) = (if e = None then 0 else 1)"
    using b(1) by (simp add: control_main_def)
  then show ?thesis
    using f by (auto simp: fa reload_config_def policy_Store_def split: sum.splits if_splits)
qed

section \<open>A concrete exchange with the tools\<close>

definition sample_client :: client_json where
  "sample_client = \<lparr>enc_request = \<lambda>q. Some (if q_Method q = ''health'' then [1] else [2]),
     dec_ok = \<lambda>b. Some (b \<noteq> [3]), dec_health = \<lambda>b. Some (b \<noteq> [3], b = [1])\<rparr>"

definition sample_server_json :: json where
  "sample_server_json = \<lparr>dec_request = \<lambda>b. Some (local_request (if b = [1] then ''health'' else ''reload'')),
     enc_response = \<lambda>r. Some (case r_Result r of Some (StatusResult s) \<Rightarrow> if s_Healthy s then [1] else [4]
                             | Some _ \<Rightarrow> [5] | None \<Rightarrow> [3])\<rparr>"

theorem health_command_exact_witness:
  "fst (health_main sample_client (Some (daemon_peer sample_codecs sample_server_json new_control_with_state (\<lambda>_. True)
     (sample_daemon\<lparr>h := SetHealthy True new_state\<rparr>)))) = 0"
proof -
  let ?d = "sample_daemon\<lparr>h := SetHealthy True new_state\<rparr>"
  have "json_codes sample_client sample_server_json (local_request ''health'')
      (fst (first_answer sample_codecs new_control_with_state (\<lambda>_. True) (local_request ''health'') ?d))"
    "enc_response sample_server_json
      (fst (first_answer sample_codecs new_control_with_state (\<lambda>_. True) (local_request ''health'') ?d)) = Some [1]"
    by (simp_all add: json_codes_def sample_client_def sample_server_json_def maxControlMessage_def first_answer_def
        local_request_def method_of_def call_def response_to_def new_control_with_state_def Snapshot_def AddConnection_def SetHealthy_def Let_def)
  from health_command_exact [OF this] show ?thesis by (simp add: SetHealthy_def maxControlMessage_def)
qed

theorem control_command_exact_witness:
  "control_main sample_client [''reload''] (Some (daemon_peer sample_codecs sample_server_json
     (SetReload (reload_config (\<lambda>s. None) None sample_config) new_control_with_state) (\<lambda>_. True)
     \<lparr>h = new_state, markers = {}, policy_state = Some sample_config\<rparr>)) \<noteq> 0"
proof -
  let ?cs = "SetReload (reload_config (\<lambda>s. None) None sample_config) new_control_with_state"
    and ?d = "\<lparr>h = new_state, markers = {}, policy_state = Some sample_config\<rparr>"
  have "json_agrees sample_client sample_server_json (local_request ''reload'')
      (fst (first_answer sample_codecs ?cs (\<lambda>_. True) (local_request ''reload'') ?d))"
    by (simp add: json_agrees_def sample_client_def sample_server_json_def maxControlMessage_def first_answer_def
        local_request_def method_of_def call_def response_to_def SetReload_def reload_config_def Load_def)
  from control_command_exact [OF refl this] show ?thesis
    by (auto simp: Load_def split: if_splits)
qed

end
