(* ===== verification/Original_Dst.thy ===== *)
theory Original_Dst
  imports Transparent
begin

text \<open>
  Where a redirected connection was going, \<open>internal/proxy/originaldst_linux.go\<close>: the two \<open>getsockopt\<close> calls, the
  reading of the socket address they return, and the relay without inspection. The Windows file refuses both.

  The kernel is an argument: for a protocol level it gives an error number, or the 128-byte buffer after the
  call and the length it reports. A native 16-bit integer is little-endian, as on amd64 and arm64.
\<close>

section \<open>The code\<close>

datatype dst_error =
    NoSyscallConn | RawConnFailed | Errno nat | ShortSockaddr | ShortIPv6 | UnsupportedFamily nat | NoDestination
  | UnavailableHere

type_synonym sockopt = "nat \<Rightarrow> nat + bytes \<times> nat"

definition SOL_IP :: nat where "SOL_IP = 0"
definition IPPROTO_IPV6 :: nat where "IPPROTO_IPV6 = 41"
definition AF_INET :: nat where "AF_INET = 2"
definition AF_INET6 :: nat where "AF_INET6 = 10"

text \<open>\<open>net.IPv4\<close>: the sixteen-byte form.\<close>

definition net_IPv4 :: "byte \<Rightarrow> byte \<Rightarrow> byte \<Rightarrow> byte \<Rightarrow> ip" where
  "net_IPv4 a b c d = v4_prefix @ [unat a, unat b, unat c, unat d]"

definition sockaddr_port :: "bytes \<Rightarrow> int" where
  "sockaddr_port b = int (unat (b ! 2) * 256 + unat (b ! 3))"

definition getOriginalSockaddr :: "sockopt \<Rightarrow> nat \<Rightarrow> dst_error + addr" where
  "getOriginalSockaddr sockcall level =
     (case sockcall level of
        Inl e \<Rightarrow> Inl (Errno e)
      | Inr (b, len) \<Rightarrow>
          if len < 8 then Inl ShortSockaddr
          else let family = unat (b ! 0) + 256 * unat (b ! 1) in
            if family = AF_INET
            then Inr (TCPAddr (net_IPv4 (b ! 4) (b ! 5) (b ! 6) (b ! 7)) (sockaddr_port b))
            else if family = AF_INET6 then
              (if len < 28 then Inl ShortIPv6
               else Inr (TCPAddr (map unat (gslice 8 24 b)) (sockaddr_port b)))
            else Inl (UnsupportedFamily family))"

text \<open>
  \<open>raw\<close> is \<open>None\<close> for a connection without a file descriptor, \<open>Some (Inl e)\<close> where \<open>SyscallConn\<close> or \<open>Control\<close>
  fails. The error reported is the one of the first level.
\<close>

definition originalDestination :: "(dst_error + sockopt) option \<Rightarrow> dst_error + addr" where
  "originalDestination raw =
     (case raw of
        None \<Rightarrow> Inl NoSyscallConn
      | Some (Inl e) \<Rightarrow> Inl e
      | Some (Inr sockcall) \<Rightarrow>
          (case getOriginalSockaddr sockcall SOL_IP of
             Inr a \<Rightarrow> Inr a
           | Inl first_err \<Rightarrow>
               (case getOriginalSockaddr sockcall IPPROTO_IPV6 of
                  Inr a \<Rightarrow> Inr a
                | Inl _ \<Rightarrow> Inl first_err)))"

definition OriginalDestination :: "(dst_error + sockopt) option \<Rightarrow> dst_error + addr" where
  "OriginalDestination raw = originalDestination raw"

definition OriginalDestination_windows :: "dst_error + addr" where
  "OriginalDestination_windows = Inl UnavailableHere"

text \<open>\<open>RelayOriginal\<close>: the copies of \<open>relayPrefixed\<close> with nothing in front; \<open>dial\<close> gives the upstream, if any.\<close>

definition RelayOriginal ::
  "stream \<Rightarrow> addr option \<Rightarrow> (addr \<Rightarrow> stream option) \<Rightarrow> (side \<times> nat option) list \<Rightarrow> dst_error + relay option"
where
  "RelayOriginal conn destination dial sched =
     (case destination of
        None \<Rightarrow> Inl NoDestination
      | Some d \<Rightarrow> Inr (relayPrefixed [] conn (dial d) None sched))"

section \<open>Socket addresses\<close>

text \<open>The kernel's \<open>struct sockaddr_in\<close> and \<open>sockaddr_in6\<close>: the port in network order.\<close>

definition sockaddr_in :: "bytes \<Rightarrow> nat \<Rightarrow> bytes" where
  "sockaddr_in ip4 port = [2, 0] @ put16 port @ ip4 @ replicate 8 0"

definition sockaddr_in6 :: "bytes \<Rightarrow> nat \<Rightarrow> bytes \<Rightarrow> bytes \<Rightarrow> bytes" where
  "sockaddr_in6 ip6 port flow scope = [10, 0] @ put16 port @ flow @ ip6 @ scope"

lemma sockaddr_port_read: "port < 65536 \<Longrightarrow> sockaddr_port (x # y # put16 port @ r) = int port"
proof -
  assume p: "port < 65536"
  have "unat (put16 port ! 0) * 256 + unat (put16 port ! 1) = port"
    using be16_at_put16 [of 0 "[]" port "[]"] p by (simp add: be16_at_def be16_def mult.commute)
  moreover obtain a b where "put16 port = [a, b]" by (simp add: put16_def)
  ultimately show ?thesis by (simp add: sockaddr_port_def)
qed

lemma sockaddr_word: "length b = 4 \<Longrightarrow> \<exists>w x y z. b = [w, x, y, z]"
  by (auto simp: length_Suc_conv numeral_eq_Suc)

lemma read_sockaddr_in:
  assumes "length ip4 = 4" and "port < 65536" and "sockcall level = Inr (sockaddr_in ip4 port @ rest, 16)"
  shows "getOriginalSockaddr sockcall level = Inr (TCPAddr (v4_prefix @ map unat ip4) (int port))"
proof -
  obtain w x y z where ip: "ip4 = [w, x, y, z]" using sockaddr_word [OF assms(1)] by blast
  obtain a b where ab: "put16 port = [a, b]" by (simp add: put16_def)
  have "sockaddr_port (sockaddr_in ip4 port @ rest) = int port"
    using sockaddr_port_read [OF assms(2)] by (simp add: sockaddr_in_def)
  then show ?thesis
    by (simp add: getOriginalSockaddr_def assms(3) Let_def AF_INET_def net_IPv4_def)
      (simp add: sockaddr_in_def ip ab)
qed

lemma read_sockaddr_in6:
  assumes "length ip6 = 16" and "length flow = 4" and "length scope = 4" and "port < 65536"
    and "sockcall level = Inr (sockaddr_in6 ip6 port flow scope @ rest, 28)"
  shows "getOriginalSockaddr sockcall level = Inr (TCPAddr (map unat ip6) (int port))"
proof -
  obtain w x y z where fl: "flow = [w, x, y, z]" using sockaddr_word [OF assms(2)] by blast
  obtain a b where ab: "put16 port = [a, b]" by (simp add: put16_def)
  have "sockaddr_port (sockaddr_in6 ip6 port flow scope @ rest) = int port"
    using sockaddr_port_read [OF assms(4)] by (simp add: sockaddr_in6_def)
  moreover have "gslice 8 24 (sockaddr_in6 ip6 port flow scope @ rest) = ip6"
    using assms(1) by (simp add: sockaddr_in6_def fl ab gslice_def)
  ultimately show ?thesis
    by (simp add: getOriginalSockaddr_def assms(5) Let_def AF_INET_def AF_INET6_def)
      (simp add: sockaddr_in6_def)
qed

text \<open>C39: the destination before the redirect is read exactly. Where the kernel answers at the IPv4 level with a
  socket address, or refuses there and answers at the IPv6 level, \<open>OriginalDestination\<close> returns the address
  and the port in it, which are those the classifier sees; an answer of any other family, or one too short
  for its family, is an error and never an address made of bytes the kernel did not write.\<close>

theorem original_destination_exact:
  "(length ip4 = 4 \<and> port < 65536 \<and> sockcall SOL_IP = Inr (sockaddr_in ip4 port @ rest, 16) \<longrightarrow>
      OriginalDestination (Some (Inr sockcall)) = Inr (TCPAddr (v4_prefix @ map unat ip4) (int port)))
   \<and> (length ip6 = 16 \<and> length flow = 4 \<and> length scope = 4 \<and> port < 65536 \<and> sockcall SOL_IP = Inl e
        \<and> sockcall IPPROTO_IPV6 = Inr (sockaddr_in6 ip6 port flow scope @ rest, 28) \<longrightarrow>
      OriginalDestination (Some (Inr sockcall)) = Inr (TCPAddr (map unat ip6) (int port)))
   \<and> (\<forall>a. OriginalDestination (Some (Inr sockcall)) = Inr a \<longrightarrow>
      (\<exists>level b len. level \<in> {SOL_IP, IPPROTO_IPV6} \<and> sockcall level = Inr (b, len) \<and> 8 \<le> len
         \<and> (unat (b ! 0) + 256 * unat (b ! 1) = 2 \<or> unat (b ! 0) + 256 * unat (b ! 1) = 10 \<and> 28 \<le> len)))"
proof (intro conjI impI allI)
  assume a: "length ip4 = 4 \<and> port < 65536 \<and> sockcall SOL_IP = Inr (sockaddr_in ip4 port @ rest, 16)"
  then show "OriginalDestination (Some (Inr sockcall)) = Inr (TCPAddr (v4_prefix @ map unat ip4) (int port))"
    using read_sockaddr_in [of ip4 port sockcall SOL_IP rest] by (simp add: OriginalDestination_def originalDestination_def)
next
  assume a: "length ip6 = 16 \<and> length flow = 4 \<and> length scope = 4 \<and> port < 65536 \<and> sockcall SOL_IP = Inl e
        \<and> sockcall IPPROTO_IPV6 = Inr (sockaddr_in6 ip6 port flow scope @ rest, 28)"
  then have "getOriginalSockaddr sockcall SOL_IP = Inl (Errno e)" by (simp add: getOriginalSockaddr_def)
  then show "OriginalDestination (Some (Inr sockcall)) = Inr (TCPAddr (map unat ip6) (int port))"
    using a read_sockaddr_in6 [of ip6 flow scope port sockcall IPPROTO_IPV6 rest]
    by (simp add: OriginalDestination_def originalDestination_def)
next
  fix a assume "OriginalDestination (Some (Inr sockcall)) = Inr a"
  then obtain level where l: "level \<in> {SOL_IP, IPPROTO_IPV6}" "getOriginalSockaddr sockcall level = Inr a"
    by (auto simp: OriginalDestination_def originalDestination_def split: sum.splits)
  then show "\<exists>level b len. level \<in> {SOL_IP, IPPROTO_IPV6} \<and> sockcall level = Inr (b, len) \<and> 8 \<le> len
       \<and> (unat (b ! 0) + 256 * unat (b ! 1) = 2 \<or> unat (b ! 0) + 256 * unat (b ! 1) = 10 \<and> 28 \<le> len)"
    by (intro exI [of _ level])
      (auto simp: getOriginalSockaddr_def Let_def AF_INET_def AF_INET6_def split: sum.splits if_splits)
qed

definition redirected :: sockopt where
  "redirected level =
     (if level = SOL_IP then Inr (sockaddr_in [10, 0, 0, 1] 443 @ replicate 112 0, 16) else Inl 92)"

theorem original_destination_exact_witness:
  "OriginalDestination (Some (Inr redirected)) = Inr (TCPAddr (v4_prefix @ [10, 0, 0, 1]) 443)"
proof -
  have "redirected SOL_IP = Inr (sockaddr_in [10, 0, 0, 1] 443 @ replicate 112 0, 16)"
    by (simp add: redirected_def)
  then have "OriginalDestination (Some (Inr redirected)) = Inr (TCPAddr (v4_prefix @ map unat [10, 0, 0, 1 :: byte]) (int 443))"
    using conjunct1 [OF original_destination_exact [of "[10, 0, 0, 1]" 443 redirected "replicate 112 0"]] by simp
  then show ?thesis by simp
qed

text \<open>\<open>RelayOriginal\<close> relays as the router does for a connection of which nothing was read.\<close>

lemma RelayOriginal_transparent:
  assumes "RelayOriginal conn (Some d) dial sched = Inr (Some r)"
  shows "\<exists>up. dial d = Some up \<and> relayed (content conn) (content up) (stream_size conn) (stream_size up) False sched r"
proof -
  obtain up where up: "dial d = Some up" "relayPrefixed [] conn (Some up) None sched = Some r"
    using assms by (cases "dial d") (auto simp: RelayOriginal_def relayPrefixed_def relay_start_def)
  have "relayed (content conn) (content up) (stream_size conn) (stream_size up) False []
      \<lparr>from_client = conn, to_upstream = [], from_upstream = up, to_client = [], result = None\<rparr>"
    by (simp add: relayed_def)
  from relayed_run [OF this, of sched] up show ?thesis by (auto simp: relayPrefixed_def relay_start_def)
qed

end
