(* ===== verification/Spec2Isabelle.thy ===== *)
theory Spec2Isabelle
  imports Daemon_Sample Commands Original_Dst
begin

text \<open>
  iLS Gateway: a verification development of its Go code.

  \<^bold>\<open>The program.\<close> A router redirects the TLS connections that Apple devices make to the location service (WLoc) to a
  gateway process, \<open>locspoofd\<close>. For a connection whose ClientHello names an allowlisted host the gateway terminates
  TLS with a certificate of a local CA, forwards the requests to the real host and, in responses of the one WLoc
  path, replaces the locations by those of the configured profile. Every other connection, and every response
  that cannot be rewritten, passes through unchanged. \<open>locspoof-ca\<close> makes the CA and the leaf certificates;
  a control socket answers for the health and reloads the configuration; small tools use that socket.

  \<^bold>\<open>Theories and sources.\<close> Paths are under \<open>src/\<close>. Each theory opens with a text on its own part; definitions carry
  the names of the Go functions, in the order of the Go files.

  \<^item> \<open>Prelude\<close>: bytes, slices, big-endian integers, the fact collections. \<open>Go_Strings\<close>, \<open>Net_Addr\<close>, \<open>Float64\<close>,
    \<open>Stream_IO\<close>, \<open>Http\<close>: what the code uses of Go's \<open>strings\<close>, \<open>strconv\<close>, \<open>net\<close>, \<open>float64\<close>, \<open>io\<close> and \<open>net/http\<close>.
  \<^item> \<open>internal/provider/applewloc/wloc.go\<close>: \<open>Varint\<close> (base-128 numbers), \<open>Wire\<close> (the field parser), \<open>Built_Fields\<close>,
    \<open>Location\<close> (profile and one location), \<open>Rewrite\<close> (records and payloads), \<open>Envelope\<close> (the three envelopes and
    \<open>RewriteBody\<close>); \<open>Wloc_Correct\<close> holds their properties.
  \<^item> \<open>internal/proxy/mitm.go\<close>: \<open>Budget\<close> (byte budget, slots, \<open>SetLimits\<close>), \<open>Body_IO\<close> (bounded reading, gzip),
    \<open>Mitm\<close> (the request handler), \<open>Enrollment\<close> (certificates by name, the enrollment page), \<open>Plane_Life\<close>
    (\<open>ListenAndServe\<close>, \<open>Ready\<close>, \<open>Shutdown\<close>).
  \<^item> \<open>internal/proxy\<close>: \<open>Classifier\<close> (\<open>classifier.go\<close>), \<open>Transparent\<close> and \<open>Router\<close> (\<open>transparent_server.go\<close>,
    \<open>dual_listener.go\<close>), \<open>Socks5\<close> (\<open>socks5.go\<close>), \<open>Original_Dst\<close> (\<open>originaldst_linux.go\<close>, \<open>originaldst_windows.go\<close>).
  \<^item> \<open>internal/health/health.go\<close>: \<open>Health\<close>. \<open>internal/config/config.go\<close>: \<open>Config\<close>, \<open>Config_Text\<close>.
    \<open>internal/control/server.go\<close>: \<open>Control\<close> (frames, calls, client), \<open>Control_Life\<close> (socket file, accept loop,
    marker files).
  \<^item> \<open>cmd/locspoof-ca/main.go\<close>: \<open>File_System\<close> (system calls and \<open>atomicWrite\<close>), \<open>Pki\<close> (the whole run), \<open>Pki_Correct\<close>,
    \<open>Pki_Ready\<close>, \<open>Pki_Runs\<close>; \<open>Pki_Sample\<close> is a concrete certificate authority on which the laws hold.
  \<^item> \<open>cmd/locspoofd\<close>: \<open>Runtime\<close> (\<open>runtime.go\<close> and the wiring of a configuration), \<open>Daemon\<close> (\<open>main.go\<close>, stage by
    stage), \<open>Daemon_Correct\<close>, \<open>Daemon_Runs\<close>, \<open>Daemon_Sample\<close>; \<open>Provisioning\<close> joins it to \<open>locspoof-ca\<close>.
  \<^item> \<open>cmd/locspoof-timeout\<close>, \<open>-elevation\<close>, \<open>-control\<close>, \<open>-health\<close>: \<open>Commands\<close>.

  \<^bold>\<open>State.\<close> A Go struct is a record with the struct's fields; a map is an association list or a function; an error is the
  left of a sum or an \<open>option\<close>. \<open>uint64\<close> and \<open>int64\<close> are 64-bit words where they can wrap, and integers with
  \<open>wrap64\<close> in the budget's arithmetic. Components that run in several goroutines are step relations:
  \<open>Budget.mstep\<close> (callers of \<open>acquire\<close>), \<open>Router.rstep\<close> (connections), \<open>Transparent.relay_step\<close> (the two copies),
  \<open>Control_Life.accept_step\<close>, and \<open>Daemon.dstep\<close> (one process, its goroutines, signals, kills and restarts).
  A network stream is the list of chunks its reads return, so that every statement about a stream is one about
  every way the network can cut it. A directory is a map from names to content and mode; \<open>faults\<close> says which
  system calls work, and a kill is the pattern in which none works from some call on.

  \<^bold>\<open>Interfaces.\<close> \<open>prefix_decoder\<close>, \<open>prefix_codec\<close> and \<open>lossless_codec\<close> are what the varint and field codecs promise;
  \<open>io_reader\<close> what a body reader does; \<open>resource_pool\<close> what slots and byte budget do, for the handler and the
  router; \<open>observer_contract\<close> what the health state does for the handler; \<open>replacing_store\<close> what \<open>atomicWrite\<close> and
  the marker files do; \<open>run_invariant\<close> what every call of a \<open>locspoof-ca\<close> run keeps; \<open>machine_invariant\<close> what
  every step of the daemon keeps. Each is interpreted on the code's own definitions.

  \<^bold>\<open>What the theorems show.\<close>
  \<^item> The rewriter's output has the envelope and framing of its input, changes the addressed fields of every location and
    nothing else, and can be decoded. A second rewrite of a fixed-prefix body changes nothing, or is refused where the
    first one's output is over the size limit or holds a location over the parser's field limit. Every error of the
    rewriter is characterised by its cause.
  \<^item> The handler forwards only requests for an allowlisted name, falls back to the upstream's bytes whenever the
    rewriter fails or a limit is exceeded, and gives back every slot and byte on every path. The byte budget is
    conserved under contention and the configured limits bound the memory. In a serving daemon the answer to a WLoc
    request is given exactly, for plain and gzip bodies and for every way the rewrite can be declined.
  \<^item> A ClientHello is parsed without reading outside its bytes, recognised in any chunking, and what is not intercepted is
    relayed byte for byte while the relay runs. The relay ends with the copy that ends first: that direction is complete or
    its write failed, the other may be cut short (\<open>half_close_truncates\<close>). Connections hold a slot exactly while they
    live; the destination before the redirect is read from the kernel's answer exactly.
  \<^item> A configuration is accepted exactly if it is valid, and a printed one is read back.
  \<^item> \<open>locspoof-ca\<close> never replaces a CA and never exposes a key, wherever it is stopped; a successful run leaves what the
    daemon needs, and the daemon then starts from any leftover of earlier processes. A daemon that reports healthy
    has everything in place until its data plane or its enrollment server ends; its shutdown leaves nothing; it answers
    WLoc requests under the policy in force; it never grants itself interception. \<open>locspoof-control\<close> reports whether a
    reload took effect, and \<open>locspoof-health\<close> whether the daemon is healthy as long as its status fits one frame of
    the control socket.

  \<^bold>\<open>Bounds and fuel.\<close> No definition has fuel of its own. The request loop of the control socket counts down from 32, as in
  the code; the parser's loop ends because each field takes a byte, with the code's limits on depth and on the number of fields;
  reading loops end by the measure \<open>stream_size\<close>, since a read without an error uses up a chunk or part of one; the same measure bounds the rounds of a relay.
  Seven stages are enough for the daemon's start because each stage moves forward or ends the process.

  \<^bold>\<open>Arguments of the model.\<close> Parsing and printing of floating-point numbers, sines and cosines, gzip, JSON, hashing, X.509,
  PEM, key generation, \<open>openssl\<close>, random bytes, the clock, the dialer, the HTTP transport and the kernel are
  arguments. What is required of them is named where it is used (\<open>faithful_codecs\<close>, \<open>pki_laws\<close>, \<open>json_codes\<close>, \<open>json_agrees\<close>, \<open>lively\<close>) and
  shown to be possible by an instance.

  \<^bold>\<open>Not modelled.\<close> TLS itself and the HTTP server and client of the standard library; timeouts other than the budget's,
  which only end a read or a dial with an error; log lines; \<open>flag\<close> parsing and the messages of the tools.
  The OpenWrt package (init script, watchdog, \<open>locspoofctl\<close>, nftables, the LuCI page) and the build and test
  scripts are not Go code; the daemon's theories state what they find in the run directory.
\<close>

end
